(* ===== verification/Az_Prelude.thy ===== *)
theory Az_Prelude
  imports Main "HOL-Library.Word"
begin

unbundle bit_operations_syntax

text \<open>
  Shared material of the azerust development: the machine integers of the Rust sources as
  words, the result of a Rust computation (a value, an error value or a panic), slices and
  array conversions with the panics Rust gives them, and little-endian byte strings. The
  collections declared here carry the component proofs: \<open>res_simps\<close> unfolds the glue of
  fallible code and \<open>enc_simps\<close> computes the bytes of serialised values.
\<close>

section \<open>Types and collections\<close>

named_theorems res_simps \<open>unfolding of fallible computations\<close>
named_theorems enc_simps \<open>bytes of serialised values\<close>

type_synonym u8 = "8 word"
type_synonym u16 = "16 word"
type_synonym u32 = "32 word"
type_synonym u64 = "64 word"
type_synonym bytes = "u8 list"

text \<open>A Rust \<open>String\<close> or \<open>&str\<close> is its UTF-8 bytes: \<open>len\<close> counts bytes.\<close>

type_synonym rstr = "u8 list"

text \<open>The result of a Rust computation; a panic is a value of its own.\<close>

datatype ('e, 'a) res = Ok 'a | Err 'e | Panic

fun res_bind :: "('e, 'a) res \<Rightarrow> ('a \<Rightarrow> ('e, 'b) res) \<Rightarrow> ('e, 'b) res" where
  "res_bind (Ok x) f = f x"
| "res_bind (Err e) f = Err e"
| "res_bind Panic f = Panic"

fun map_err :: "('e \<Rightarrow> 'f) \<Rightarrow> ('e, 'a) res \<Rightarrow> ('f, 'a) res" where
  "map_err f (Ok x) = Ok x"
| "map_err f (Err e) = Err (f e)"
| "map_err f Panic = Panic"

definition ok_or :: "'e \<Rightarrow> 'a option \<Rightarrow> ('e, 'a) res" where
  "ok_or e x = (case x of Some v \<Rightarrow> Ok v | None \<Rightarrow> Err e)"

section \<open>Slices and arrays\<close>

text \<open>\<open>try_into().expect(..)\<close> from a \<open>Vec<u8>\<close> to \<open>[u8; n]\<close> panics on another length.\<close>

definition expect_array :: "nat \<Rightarrow> bytes \<Rightarrow> ('e, bytes) res" where
  "expect_array n bs = (if length bs = n then Ok bs else Panic)"

text \<open>\<open>xs[a..b]\<close>, \<open>xs[a..]\<close> and \<open>xs[..b]\<close> panic when the range is not within \<open>xs\<close>.\<close>

definition slice :: "nat \<Rightarrow> nat \<Rightarrow> 'a list \<Rightarrow> ('e, 'a list) res" where
  "slice a b xs = (if a \<le> b \<and> b \<le> length xs then Ok (take (b - a) (drop a xs)) else Panic)"

definition slice_from :: "nat \<Rightarrow> 'a list \<Rightarrow> ('e, 'a list) res" where
  "slice_from a xs = (if a \<le> length xs then Ok (drop a xs) else Panic)"

definition slice_to :: "nat \<Rightarrow> 'a list \<Rightarrow> ('e, 'a list) res" where
  "slice_to b xs = (if b \<le> length xs then Ok (take b xs) else Panic)"

section \<open>Little-endian byte strings\<close>

fun le_val :: "bytes \<Rightarrow> nat" where
  "le_val [] = 0"
| "le_val (b # bs) = unat b + 256 * le_val bs"

fun le_bytes :: "nat \<Rightarrow> nat \<Rightarrow> bytes" where
  "le_bytes 0 v = []"
| "le_bytes (Suc n) v = of_nat (v mod 256) # le_bytes n (v div 256)"

text \<open>\<open>u16::to_le_bytes\<close> and its kin, and \<open>u16::swap_bytes\<close>.\<close>

definition u16_le :: "u16 \<Rightarrow> bytes" where
  "u16_le w = le_bytes 2 (unat w)"

definition u32_le :: "u32 \<Rightarrow> bytes" where
  "u32_le w = le_bytes 4 (unat w)"

definition u64_le :: "u64 \<Rightarrow> bytes" where
  "u64_le w = le_bytes 8 (unat w)"

definition swap_bytes :: "u16 \<Rightarrow> u16" where
  "swap_bytes w = of_nat (le_val (rev (u16_le w)))"

text \<open>
  Addition of a build: with overflow checks it panics when the sum does not fit, without them
  it wraps.
\<close>

definition add_checked :: "bool \<Rightarrow> ('w :: len) word \<Rightarrow> 'w word \<Rightarrow> ('e, 'w word) res" where
  "add_checked chk a b =
     (if chk \<and> 2 ^ LENGTH('w) \<le> unat a + unat b then Panic else Ok (a + b))"

section \<open>Fallible computations\<close>

lemma res_bind_eq_Ok [res_simps]:
  "res_bind m f = Ok y \<longleftrightarrow> (\<exists>x. m = Ok x \<and> f x = Ok y)"
  by (cases m) auto

lemma res_bind_eq_Err [res_simps]:
  "res_bind m f = Err e \<longleftrightarrow> m = Err e \<or> (\<exists>x. m = Ok x \<and> f x = Err e)"
  by (cases m) auto

lemma res_bind_eq_Panic [res_simps]:
  "res_bind m f = Panic \<longleftrightarrow> m = Panic \<or> (\<exists>x. m = Ok x \<and> f x = Panic)"
  by (cases m) auto

lemma map_err_eq [simp]:
  "map_err f m = Ok x \<longleftrightarrow> m = Ok x"
  "map_err f m = Panic \<longleftrightarrow> m = Panic"
  "map_err f m = Err e \<longleftrightarrow> (\<exists>e'. m = Err e' \<and> e = f e')"
  by (cases m; auto)+

lemma res_bind_assoc:
  "res_bind (res_bind m f) g = res_bind m (\<lambda>x. res_bind (f x) g)"
  by (cases m) auto

lemma ok_or_simps [simp]: "ok_or e (Some v) = Ok v" "ok_or e None = Err e"
  by (simp_all add: ok_or_def)

lemma ok_or_eq [res_simps]:
  "ok_or e x = Ok v \<longleftrightarrow> x = Some v"
  "ok_or e x = Err e' \<longleftrightarrow> x = None \<and> e' = e"
  "ok_or e x \<noteq> Panic"
  by (auto simp: ok_or_def split: option.splits)

lemma expect_array_simps [simp]:
  "length bs = n \<Longrightarrow> expect_array n bs = Ok bs"
  "length bs \<noteq> n \<Longrightarrow> expect_array n bs = Panic"
  by (simp_all add: expect_array_def)

lemma expect_array_eq [res_simps]:
  "expect_array n bs = Ok xs \<longleftrightarrow> xs = bs \<and> length bs = n"
  "expect_array n bs \<noteq> Err e"
  "expect_array n bs = Panic \<longleftrightarrow> length bs \<noteq> n"
  by (auto simp: expect_array_def)

lemma slice_from_simps [simp]:
  "a \<le> length xs \<Longrightarrow> slice_from a xs = Ok (drop a xs)"
  "length xs < a \<Longrightarrow> slice_from a xs = Panic"
  by (simp_all add: slice_from_def)

lemma slice_to_simps [simp]:
  "b \<le> length xs \<Longrightarrow> slice_to b xs = Ok (take b xs)"
  "length xs < b \<Longrightarrow> slice_to b xs = Panic"
  by (simp_all add: slice_to_def)

section \<open>Bytes and numbers\<close>

lemma unat_u8_lt [simp]: "unat (b :: u8) < 256"
  using unsigned_less [where 'a = nat, of b] by simp

lemma length_le_bytes [simp, enc_simps]: "length (le_bytes n v) = n"
  by (induction n arbitrary: v) auto

lemma le_bytes_short:
  "le_bytes 2 v = [of_nat (v mod 256), of_nat (v div 256 mod 256)]"
  "le_bytes 4 v = [of_nat (v mod 256), of_nat (v div 256 mod 256), of_nat (v div 256 div 256 mod 256),
     of_nat (v div 256 div 256 div 256 mod 256)]"
proof -
  have "le_bytes (Suc (Suc 0)) v = [of_nat (v mod 256), of_nat (v div 256 mod 256)]" by simp
  then show "le_bytes 2 v = [of_nat (v mod 256), of_nat (v div 256 mod 256)]"
    by (simp only: numeral_2_eq_2)
  have "(4 :: nat) = Suc (Suc (Suc (Suc 0)))" by simp
  then show "le_bytes 4 v = [of_nat (v mod 256), of_nat (v div 256 mod 256),
     of_nat (v div 256 div 256 mod 256), of_nat (v div 256 div 256 div 256 mod 256)]"
    by (simp only: le_bytes.simps)
qed

lemma le_val_bound: "le_val bs < 256 ^ length bs"
proof (induction bs)
  case (Cons b bs)
  have "unat b + 256 * le_val bs < 256 + 256 * le_val bs" by simp
  also have "\<dots> \<le> 256 * 256 ^ length bs" using Cons.IH by simp
  finally show ?case by simp
qed simp

lemma le_val_replicate_0 [simp]: "le_val (replicate n 0) = 0"
  by (induction n) auto

lemma le_val_append: "le_val (xs @ ys) = le_val xs + 256 ^ length xs * le_val ys"
  by (induction xs) (auto simp: algebra_simps)

lemma le_val_le_bytes: "le_val (le_bytes n v) = v mod 256 ^ n"
proof (induction n arbitrary: v)
  case (Suc n)
  have "unat (of_nat (v mod 256) :: u8) = v mod 256"
    by (simp add: unat_of_nat)
  moreover have "v mod 256 ^ Suc n = v mod 256 + 256 * (v div 256 mod 256 ^ n)"
    using mod_mult2_eq [of v 256 "256 ^ n"] by simp
  ultimately show ?case using Suc by simp
qed simp

lemma le_bytes_le_val: "le_bytes (length bs) (le_val bs) = bs"
  by (induction bs) (auto simp: word_unat_eq_iff)

lemma le_val_inj: "length xs = length ys \<Longrightarrow> le_val xs = le_val ys \<Longrightarrow> xs = ys"
  by (metis le_bytes_le_val)

lemma length_uN_le [simp, enc_simps]:
  "length (u16_le a) = 2" "length (u32_le b) = 4" "length (u64_le c) = 8"
  by (simp_all add: u16_le_def u32_le_def u64_le_def)

lemma le_val_u16_le [simp]: "le_val (u16_le w) = unat w"
  using unsigned_less [where 'a = nat, of w] by (simp add: u16_le_def le_val_le_bytes)

lemma le_val_u32_le [simp]: "le_val (u32_le w) = unat w"
  using unsigned_less [where 'a = nat, of w] by (simp add: u32_le_def le_val_le_bytes)

lemma le_val_u64_le [simp]: "le_val (u64_le w) = unat w"
  using unsigned_less [where 'a = nat, of w] by (simp add: u64_le_def le_val_le_bytes)

lemma u16_le_of_le_val: "length bs = 2 \<Longrightarrow> u16_le (of_nat (le_val bs)) = bs"
  using le_val_bound [of bs] le_bytes_le_val [of bs]
  by (simp add: u16_le_def unat_of_nat)

lemma u32_le_of_le_val: "length bs = 4 \<Longrightarrow> u32_le (of_nat (le_val bs)) = bs"
  using le_val_bound [of bs] le_bytes_le_val [of bs]
  by (simp add: u32_le_def unat_of_nat)

lemma u64_le_of_le_val: "length bs = 8 \<Longrightarrow> u64_le (of_nat (le_val bs)) = bs"
  using le_val_bound [of bs] le_bytes_le_val [of bs]
  by (simp add: u64_le_def unat_of_nat)

lemma swap_bytes_involutive [simp]: "swap_bytes (swap_bytes w) = w"
proof -
  have "u16_le (swap_bytes w) = rev (u16_le w)"
    by (simp add: swap_bytes_def u16_le_of_le_val)
  then have "swap_bytes (swap_bytes w) = of_nat (le_val (u16_le w))"
    by (simp add: swap_bytes_def)
  then show ?thesis by simp
qed

end
