(* ===== verification/Rust_Str.thy ===== *)
theory Rust_Str
  imports Az_Prelude
begin

text \<open>
  Strings of the Rust standard library as the sources use them: a string is its UTF-8 bytes,
  \<open>str::from_utf8\<close> accepts exactly the well-formed byte sequences, the ASCII case conversions
  change ASCII letters only, and integers print in decimal.
\<close>

section \<open>Operations\<close>

definition ascii :: "string \<Rightarrow> rstr" where
  "ascii s = map of_char s"

definition utf8_cont :: "u8 \<Rightarrow> bool" where
  "utf8_cont b \<longleftrightarrow> 0x80 \<le> b \<and> b \<le> 0xBF"

text \<open>The second byte of a three- or four-byte sequence has a range of its own per first byte.\<close>

definition utf8_second3 :: "u8 \<Rightarrow> u8 \<Rightarrow> bool" where
  "utf8_second3 a b \<longleftrightarrow>
     (if a = 0xE0 then 0xA0 \<le> b \<and> b \<le> 0xBF
      else if a = 0xED then 0x80 \<le> b \<and> b \<le> 0x9F
      else utf8_cont b)"

definition utf8_second4 :: "u8 \<Rightarrow> u8 \<Rightarrow> bool" where
  "utf8_second4 a b \<longleftrightarrow>
     (if a = 0xF0 then 0x90 \<le> b \<and> b \<le> 0xBF
      else if a = 0xF4 then 0x80 \<le> b \<and> b \<le> 0x8F
      else utf8_cont b)"

fun utf8_valid :: "bytes \<Rightarrow> bool" where
  "utf8_valid [] = True"
| "utf8_valid (a # bs) =
     (if a < 0x80 then utf8_valid bs
      else if 0xC2 \<le> a \<and> a \<le> 0xDF then
        (case bs of b # cs \<Rightarrow> utf8_cont b \<and> utf8_valid cs | _ \<Rightarrow> False)
      else if 0xE0 \<le> a \<and> a \<le> 0xEF then
        (case bs of b # c # cs \<Rightarrow> utf8_second3 a b \<and> utf8_cont c \<and> utf8_valid cs | _ \<Rightarrow> False)
      else if 0xF0 \<le> a \<and> a \<le> 0xF4 then
        (case bs of b # c # d # cs \<Rightarrow>
            utf8_second4 a b \<and> utf8_cont c \<and> utf8_cont d \<and> utf8_valid cs
          | _ \<Rightarrow> False)
      else False)"

text \<open>\<open>str::from_utf8\<close>: the string is the bytes, or the error.\<close>

definition from_utf8 :: "bytes \<Rightarrow> rstr option" where
  "from_utf8 bs = (if utf8_valid bs then Some bs else None)"

definition u8_ascii_upper :: "u8 \<Rightarrow> u8" where
  "u8_ascii_upper b = (if 97 \<le> b \<and> b \<le> 122 then b - 32 else b)"

definition u8_ascii_lower :: "u8 \<Rightarrow> u8" where
  "u8_ascii_lower b = (if 65 \<le> b \<and> b \<le> 90 then b + 32 else b)"

definition to_ascii_uppercase :: "rstr \<Rightarrow> rstr" where
  "to_ascii_uppercase s = map u8_ascii_upper s"

definition to_ascii_lowercase :: "rstr \<Rightarrow> rstr" where
  "to_ascii_lowercase s = map u8_ascii_lower s"

text \<open>\<open>Display\<close> of an unsigned integer: its decimal digits.\<close>

fun dec_str :: "nat \<Rightarrow> rstr" where
  "dec_str n = (if n < 10 then [of_nat (48 + n)] else dec_str (n div 10) @ [of_nat (48 + n mod 10)])"

declare dec_str.simps [simp del]

section \<open>Lemmas\<close>

lemma length_to_ascii [simp]:
  "length (to_ascii_uppercase s) = length s" "length (to_ascii_lowercase s) = length s"
  by (simp_all add: to_ascii_uppercase_def to_ascii_lowercase_def)

lemma from_utf8_eq_Some [res_simps]: "from_utf8 bs = Some s \<longleftrightarrow> s = bs \<and> utf8_valid bs"
  by (auto simp: from_utf8_def)

lemma utf8_valid_ascii: "(\<forall>b \<in> set bs. b < 0x80) \<Longrightarrow> utf8_valid bs"
  by (induction bs) auto

text \<open>Induction over the characters of a well-formed string, one case per sequence length.\<close>

lemma utf8_valid_chars [consumes 1, case_names Nil One Two Three Four]:
  assumes "utf8_valid s" and "P []"
    and "\<And>a cs. a < 0x80 \<Longrightarrow> utf8_valid cs \<Longrightarrow> P cs \<Longrightarrow> P (a # cs)"
    and "\<And>a b cs. \<not> a < 0x80 \<Longrightarrow> 0xC2 \<le> a \<and> a \<le> 0xDF \<Longrightarrow> utf8_cont b \<Longrightarrow>
           utf8_valid cs \<Longrightarrow> P cs \<Longrightarrow> P (a # b # cs)"
    and "\<And>a b c cs. \<not> a < 0x80 \<Longrightarrow> \<not> (0xC2 \<le> a \<and> a \<le> 0xDF) \<Longrightarrow> 0xE0 \<le> a \<and> a \<le> 0xEF \<Longrightarrow>
           utf8_second3 a b \<Longrightarrow> utf8_cont c \<Longrightarrow> utf8_valid cs \<Longrightarrow> P cs \<Longrightarrow> P (a # b # c # cs)"
    and "\<And>a b c d cs. \<not> a < 0x80 \<Longrightarrow> \<not> (0xC2 \<le> a \<and> a \<le> 0xDF) \<Longrightarrow>
           \<not> (0xE0 \<le> a \<and> a \<le> 0xEF) \<Longrightarrow> 0xF0 \<le> a \<and> a \<le> 0xF4 \<Longrightarrow> utf8_second4 a b \<Longrightarrow>
           utf8_cont c \<Longrightarrow> utf8_cont d \<Longrightarrow> utf8_valid cs \<Longrightarrow> P cs \<Longrightarrow> P (a # b # c # d # cs)"
  shows "P s"
  using assms(1)
proof (induction "length s" arbitrary: s rule: less_induct)
  case less
  show ?case
  proof (cases s)
    case Nil
    with assms(2) show ?thesis by simp
  next
    case (Cons a bs)
    consider "a < 0x80" | "\<not> a < 0x80" "0xC2 \<le> a \<and> a \<le> 0xDF"
      | "\<not> a < 0x80" "\<not> (0xC2 \<le> a \<and> a \<le> 0xDF)" "0xE0 \<le> a \<and> a \<le> 0xEF"
      | "\<not> a < 0x80" "\<not> (0xC2 \<le> a \<and> a \<le> 0xDF)" "\<not> (0xE0 \<le> a \<and> a \<le> 0xEF)" "0xF0 \<le> a \<and> a \<le> 0xF4"
      using less.prems Cons by (simp only: utf8_valid.simps) (argo)
    then show ?thesis
    proof cases
      case 1
      with less Cons show ?thesis by (auto intro: assms(3))
    next
      case 2
      with less.prems Cons obtain b cs where "bs = b # cs" "utf8_cont b" "utf8_valid cs"
        by (cases bs) simp_all
      with 2 less.hyps Cons show ?thesis by (auto intro: assms(4))
    next
      case 3
      with less.prems Cons obtain b c cs where
        "bs = b # c # cs" "utf8_second3 a b" "utf8_cont c" "utf8_valid cs"
        by (simp split: list.splits)
      with 3 less.hyps Cons show ?thesis by (auto intro: assms(5))
    next
      case 4
      with less.prems Cons obtain b c d cs where
        "bs = b # c # d # cs" "utf8_second4 a b" "utf8_cont c" "utf8_cont d" "utf8_valid cs"
        by (simp split: list.splits)
      with 4 less.hyps Cons show ?thesis by (auto intro: assms(6))
    qed
  qed
qed

lemma utf8_valid_intros:
  "a < 0x80 \<Longrightarrow> utf8_valid cs \<Longrightarrow> utf8_valid (a # cs)"
  "\<not> a < 0x80 \<Longrightarrow> 0xC2 \<le> a \<and> a \<le> 0xDF \<Longrightarrow> utf8_cont b \<Longrightarrow> utf8_valid cs \<Longrightarrow>
     utf8_valid (a # b # cs)"
  "\<not> a < 0x80 \<Longrightarrow> \<not> (0xC2 \<le> a \<and> a \<le> 0xDF) \<Longrightarrow> 0xE0 \<le> a \<and> a \<le> 0xEF \<Longrightarrow> utf8_second3 a b \<Longrightarrow>
     utf8_cont c \<Longrightarrow> utf8_valid cs \<Longrightarrow> utf8_valid (a # b # c # cs)"
  "\<not> a < 0x80 \<Longrightarrow> \<not> (0xC2 \<le> a \<and> a \<le> 0xDF) \<Longrightarrow> \<not> (0xE0 \<le> a \<and> a \<le> 0xEF) \<Longrightarrow>
     0xF0 \<le> a \<and> a \<le> 0xF4 \<Longrightarrow> utf8_second4 a b \<Longrightarrow> utf8_cont c \<Longrightarrow> utf8_cont d \<Longrightarrow> utf8_valid cs \<Longrightarrow>
     utf8_valid (a # b # c # d # cs)"
  by (simp_all only: utf8_valid.simps(2) [of a] if_False if_True list.case simp_thms)

lemma utf8_valid_append: "utf8_valid xs \<Longrightarrow> utf8_valid ys \<Longrightarrow> utf8_valid (xs @ ys)"
  by (induction xs rule: utf8_valid_chars)
    (simp_all add: utf8_valid_intros del: utf8_valid.simps(2))

lemma u8_ascii_upper_high: "0x80 \<le> b \<Longrightarrow> u8_ascii_upper b = b"
  by (auto simp: u8_ascii_upper_def word_le_nat_alt)

lemma u8_ascii_upper_low: "b < 0x80 \<Longrightarrow> u8_ascii_upper b < 0x80"
  by (auto simp: u8_ascii_upper_def word_le_nat_alt word_less_nat_alt unat_sub_if')

lemma utf8_lead_high: "utf8_cont b \<Longrightarrow> u8_ascii_upper b = b"
  "utf8_second3 a b \<Longrightarrow> u8_ascii_upper b = b"
  "utf8_second4 a b \<Longrightarrow> u8_ascii_upper b = b"
  by (rule u8_ascii_upper_high,
      auto simp: utf8_cont_def utf8_second3_def utf8_second4_def word_le_nat_alt split: if_splits)+

lemma utf8_valid_uppercase: "utf8_valid s \<Longrightarrow> utf8_valid (to_ascii_uppercase s)"
  unfolding to_ascii_uppercase_def
proof (induction s rule: utf8_valid_chars)
  case (One a cs)
  then show ?case by (simp add: u8_ascii_upper_low)
qed (simp_all add: utf8_lead_high u8_ascii_upper_high utf8_valid_intros del: utf8_valid.simps(2))

lemma u8_ascii_upper_idem: "u8_ascii_upper (u8_ascii_upper b) = u8_ascii_upper b"
  by (auto simp: u8_ascii_upper_def word_le_nat_alt unat_sub_if')

lemma to_ascii_uppercase_idem [simp]:
  "to_ascii_uppercase (to_ascii_uppercase s) = to_ascii_uppercase s"
  by (simp add: to_ascii_uppercase_def u8_ascii_upper_idem)

lemma dec_str_digits: "set (dec_str n) \<subseteq> {48..57}"
proof (induction n rule: dec_str.induct)
  case (1 n)
  have d: "of_nat (48 + m) \<in> {48..57 :: u8}" if "m < 10" for m
    using that by (auto simp: word_le_nat_alt unat_word_ariths unat_of_nat simp flip: of_nat_Suc of_nat_add)
  show ?case
    using 1 d [of n] d [of "n mod 10"] by (subst dec_str.simps) auto
qed

lemma dec_str_nonempty [simp]: "dec_str n \<noteq> []"
  by (subst dec_str.simps) simp

end
