(* ===== verification/Serde.thy ===== *)
theory Serde
  imports Rust_Str
begin

text \<open>
  The serde data model as far as the sources use it, and the wire formats the bincode
  configurations of the sources document for it. A type's \<open>Serialize\<close> implementation is a
  function into \<open>sval\<close>; which bytes a value becomes is decided by the bincode configuration,
  a third-party package that the model takes as a parameter (theory \<open>Az_Lib\<close>). The functions
  here write out the documented formats that the parameter is assumed to follow: fixed-width
  little-endian integers with NUL-terminated strings (\<open>wow_bincode\<close>), and the variable-width
  integers of the default options.
\<close>

section \<open>Values, shapes and formats\<close>

text \<open>
  \<open>STup\<close> is a tuple, a struct or a fixed-size array (no length on the wire), \<open>SSeq\<close> a \<open>Vec\<close>
  (its length comes first). An \<open>f32\<close> is its bit pattern.
\<close>

datatype sval =
    SU8 u8
  | SU16 u16
  | SU32 u32
  | SU64 u64
  | SF32 u32
  | SBool bool
  | SStr rstr
  | STup "sval list"
  | SSeq "sval list"

abbreviation sbytes :: "bytes \<Rightarrow> sval" where
  "sbytes bs \<equiv> STup (map SU8 bs)"

text \<open>The shapes the sources deserialise.\<close>

datatype sty = TU8 | TU16 | TU32 | TU64 | TStr | TTup "sty list"

abbreviation tbytes :: "nat \<Rightarrow> sty" where
  "tbytes n \<equiv> TTup (replicate n TU8)"

fun fixint_bytes :: "sval \<Rightarrow> bytes" where
  "fixint_bytes (SU8 b) = [b]"
| "fixint_bytes (SU16 w) = u16_le w"
| "fixint_bytes (SU32 w) = u32_le w"
| "fixint_bytes (SU64 w) = u64_le w"
| "fixint_bytes (SF32 w) = u32_le w"
| "fixint_bytes (SBool b) = [if b then 1 else 0]"
| "fixint_bytes (SStr s) = s @ [0]"
| "fixint_bytes (STup vs) = concat (map fixint_bytes vs)"
| "fixint_bytes (SSeq vs) = le_bytes 8 (length vs) @ concat (map fixint_bytes vs)"

definition varint_nat :: "nat \<Rightarrow> bytes" where
  "varint_nat n =
     (if n < 251 then [of_nat n]
      else if n < 2 ^ 16 then 251 # le_bytes 2 n
      else if n < 2 ^ 32 then 252 # le_bytes 4 n
      else 253 # le_bytes 8 n)"

fun varint_bytes :: "sval \<Rightarrow> bytes" where
  "varint_bytes (SU8 b) = [b]"
| "varint_bytes (SU16 w) = varint_nat (unat w)"
| "varint_bytes (SU32 w) = varint_nat (unat w)"
| "varint_bytes (SU64 w) = varint_nat (unat w)"
| "varint_bytes (SF32 w) = u32_le w"
| "varint_bytes (SBool b) = [if b then 1 else 0]"
| "varint_bytes (SStr s) = s @ [0]"
| "varint_bytes (STup vs) = concat (map varint_bytes vs)"
| "varint_bytes (SSeq vs) = varint_nat (length vs) @ concat (map varint_bytes vs)"

text \<open>Values every string of which is UTF-8 without NUL, and values without strings.\<close>

fun str_ok :: "sval \<Rightarrow> bool" where
  "str_ok (SStr s) = (utf8_valid s \<and> 0 \<notin> set s)"
| "str_ok (STup vs) = list_all str_ok vs"
| "str_ok (SSeq vs) = list_all str_ok vs"
| "str_ok _ = True"

fun str_free :: "sval \<Rightarrow> bool" where
  "str_free (SStr s) = False"
| "str_free (STup vs) = list_all str_free vs"
| "str_free (SSeq vs) = list_all str_free vs"
| "str_free _ = True"

fun has_sty :: "sval \<Rightarrow> sty \<Rightarrow> bool"
  and has_stys :: "sval list \<Rightarrow> sty list \<Rightarrow> bool" where
  "has_sty (SU8 _) TU8 = True"
| "has_sty (SU16 _) TU16 = True"
| "has_sty (SU32 _) TU32 = True"
| "has_sty (SU64 _) TU64 = True"
| "has_sty (SStr _) TStr = True"
| "has_sty (STup vs) (TTup ts) = has_stys vs ts"
| "has_sty _ _ = False"
| "has_stys [] [] = True"
| "has_stys (v # vs) (t # ts) = (has_sty v t \<and> has_stys vs ts)"
| "has_stys _ _ = False"

text \<open>A decoder of the fixed-width format: the value at the front and the bytes behind it.\<close>

fun fixint_dec :: "sty \<Rightarrow> bytes \<Rightarrow> (sval \<times> bytes) option"
  and fixint_decs :: "sty list \<Rightarrow> bytes \<Rightarrow> (sval list \<times> bytes) option" where
  "fixint_dec TU8 bs = (case bs of [] \<Rightarrow> None | b # r \<Rightarrow> Some (SU8 b, r))"
| "fixint_dec TU16 bs =
     (if 2 \<le> length bs then Some (SU16 (of_nat (le_val (take 2 bs))), drop 2 bs) else None)"
| "fixint_dec TU32 bs =
     (if 4 \<le> length bs then Some (SU32 (of_nat (le_val (take 4 bs))), drop 4 bs) else None)"
| "fixint_dec TU64 bs =
     (if 8 \<le> length bs then Some (SU64 (of_nat (le_val (take 8 bs))), drop 8 bs) else None)"
| "fixint_dec TStr bs =
     (let s = takeWhile (\<lambda>b. b \<noteq> 0) bs in
      if length s < length bs \<and> utf8_valid s then Some (SStr s, drop (Suc (length s)) bs)
      else None)"
| "fixint_dec (TTup ts) bs =
     (case fixint_decs ts bs of None \<Rightarrow> None | Some (vs, r) \<Rightarrow> Some (STup vs, r))"
| "fixint_decs [] bs = Some ([], bs)"
| "fixint_decs (t # ts) bs =
     (case fixint_dec t bs of None \<Rightarrow> None
      | Some (v, r) \<Rightarrow>
          (case fixint_decs ts r of None \<Rightarrow> None | Some (vs, r') \<Rightarrow> Some (v # vs, r')))"

text \<open>Deserialising a whole buffer refuses trailing bytes.\<close>

definition fixint_de :: "sty \<Rightarrow> bytes \<Rightarrow> sval option" where
  "fixint_de t bs = (case fixint_dec t bs of Some (v, []) \<Rightarrow> Some v | _ \<Rightarrow> None)"

text \<open>\<open>serialize_into\<close> a buffer of zeros: an error when the bytes do not fit.\<close>

definition serialize_into :: "nat \<Rightarrow> bytes option \<Rightarrow> bytes option" where
  "serialize_into n ser =
     (case ser of
        Some bs \<Rightarrow> if length bs \<le> n then Some (bs @ replicate (n - length bs) 0) else None
      | None \<Rightarrow> None)"

section \<open>Lemmas\<close>

declare fixint_bytes.simps [enc_simps] varint_bytes.simps [enc_simps]

lemma serialize_into_fits [simp]: "length bs = n \<Longrightarrow> serialize_into n (Some bs) = Some bs"
  by (simp add: serialize_into_def)

lemma concat_map_SU8 [simp, enc_simps]:
  "concat (map (fixint_bytes \<circ> SU8) bs) = bs"
  "concat (map (varint_bytes \<circ> SU8) bs) = bs"
  by (induction bs) auto

lemma fixint_sbytes [simp, enc_simps]: "fixint_bytes (sbytes bs) = bs"
  by simp

lemma varint_sbytes [simp, enc_simps]: "varint_bytes (sbytes bs) = bs"
  by simp

lemma str_sbytes [simp]: "list_all str_free (map SU8 bs)" "list_all str_ok (map SU8 bs)"
  by (simp_all add: list_all_iff)

lemma str_free_str_ok: "str_free v \<Longrightarrow> str_ok v"
  by (induction v) (auto simp: list_all_iff)

lemma has_stys_replicate [simp]:
  "has_stys (map SU8 bs) (replicate n TU8) \<longleftrightarrow> length bs = n"
proof (induction bs arbitrary: n)
  case Nil
  then show ?case by (cases n) auto
next
  case (Cons b bs)
  then show ?case by (cases n) auto
qed

lemma has_sty_TU:
  "has_sty v TU8 \<longleftrightarrow> (\<exists>b. v = SU8 b)" "has_sty v TU16 \<longleftrightarrow> (\<exists>b. v = SU16 b)"
  "has_sty v TU32 \<longleftrightarrow> (\<exists>b. v = SU32 b)" "has_sty v TU64 \<longleftrightarrow> (\<exists>b. v = SU64 b)"
  "has_sty v TStr \<longleftrightarrow> (\<exists>b. v = SStr b)"
  "has_sty v (TTup ts) \<longleftrightarrow> (\<exists>vs. v = STup vs \<and> has_stys vs ts)"
  by (cases v; simp)+

lemma has_stys_cases [simp]:
  "has_stys vs [] \<longleftrightarrow> vs = []"
  "has_stys vs (t # ts) \<longleftrightarrow> (\<exists>w ws. vs = w # ws \<and> has_sty w t \<and> has_stys ws ts)"
  by (cases vs; simp)+

lemma has_stys_bytes: "has_stys vs (replicate n TU8) \<longleftrightarrow> (\<exists>bs. vs = map SU8 bs \<and> length bs = n)"
proof (induction n arbitrary: vs)
  case (Suc n)
  show ?case
  proof (cases vs)
    case (Cons v ws)
    have "(\<exists>bs. v # ws = map SU8 bs \<and> length bs = Suc n) \<longleftrightarrow>
          (\<exists>b. v = SU8 b) \<and> (\<exists>bs. ws = map SU8 bs \<and> length bs = n)"
      by (auto simp: length_Suc_conv map_eq_Cons_conv Cons_eq_map_conv)
    with Cons Suc show ?thesis by (simp add: has_sty_TU)
  qed auto
qed auto

lemma take_while_neq0: "0 \<notin> set s \<Longrightarrow> takeWhile (\<lambda>b. b \<noteq> 0) (s @ 0 # r) = (s :: bytes)"
  by (subst takeWhile_append2) auto

lemma split_at_nul:
  assumes "length (takeWhile (\<lambda>b. b \<noteq> 0) bs) < length (bs :: bytes)"
  shows "bs = takeWhile (\<lambda>b. b \<noteq> 0) bs @ 0 # drop (Suc (length (takeWhile (\<lambda>b. b \<noteq> 0) bs))) bs"
proof -
  let ?s = "takeWhile (\<lambda>b. b \<noteq> 0) bs"
  have "bs ! length ?s = 0" using nth_length_takeWhile [OF assms] by simp
  moreover have "bs = take (length ?s) bs @ bs ! length ?s # drop (Suc (length ?s)) bs"
    using assms by (rule id_take_nth_drop)
  ultimately show ?thesis by (metis takeWhile_eq_take)
qed

text \<open>The decoder undoes the format: it is the inverse on values of the shape.\<close>

lemma fixint_dec_complete:
  "has_sty v t \<Longrightarrow> str_ok v \<Longrightarrow> fixint_dec t (fixint_bytes v @ r) = Some (v, r)"
  "has_stys vs ts \<Longrightarrow> list_all str_ok vs \<Longrightarrow>
     fixint_decs ts (concat (map fixint_bytes vs) @ r) = Some (vs, r)"
  by (induction v t and vs ts arbitrary: r and r rule: has_sty_has_stys.induct)
    (auto simp: take_while_neq0)

lemma fixint_dec_sound:
  "fixint_dec t bs = Some (v, r) \<Longrightarrow> has_sty v t \<and> str_ok v \<and> bs = fixint_bytes v @ r"
  "fixint_decs ts bs = Some (vs, r) \<Longrightarrow>
     has_stys vs ts \<and> list_all str_ok vs \<and> bs = concat (map fixint_bytes vs) @ r"
proof (induction t bs and ts bs arbitrary: v r and vs r rule: fixint_dec_fixint_decs.induct)
  case (5 bs)
  let ?s = "takeWhile (\<lambda>b. b \<noteq> 0) bs"
  from 5 have "length ?s < length bs" and "utf8_valid ?s" and "v = SStr ?s"
    and "r = drop (Suc (length ?s)) bs"
    by (auto simp: Let_def split: if_splits)
  with split_at_nul [of bs] show ?case by (auto dest: set_takeWhileD)
qed (auto simp: u16_le_of_le_val u32_le_of_le_val u64_le_of_le_val
      split: list.splits if_splits option.splits)

lemma fixint_dec_iff:
  "fixint_dec t bs = Some (v, r) \<longleftrightarrow> has_sty v t \<and> str_ok v \<and> bs = fixint_bytes v @ r"
  using fixint_dec_sound fixint_dec_complete by blast

lemma fixint_de_iff:
  "fixint_de t bs = Some v \<longleftrightarrow> has_sty v t \<and> str_ok v \<and> bs = fixint_bytes v"
proof -
  have "fixint_de t bs = Some v \<longleftrightarrow> fixint_dec t bs = Some (v, [])"
    by (auto simp: fixint_de_def split: option.splits list.splits)
  then show ?thesis by (simp add: fixint_dec_iff)
qed

end
