(* ===== verification/Az_Lib.thy ===== *)
theory Az_Lib
  imports Serde
begin

text \<open>
  The third-party packages the sources call, as a record of functions every definition that
  uses them takes as its argument \<open>L\<close>: the SHA-1 digest (crate \<open>sha1\<close>; a digest fed by
  several \<open>update\<close> calls is the digest of their concatenation), the conversions and the
  modular power of \<open>num_bigint::BigUint\<close> (whose values are natural numbers), and the four
  bincode configurations. What the sources rely on is stated once, as locales: \<open>sha1_lib\<close>,
  \<open>bignum_lib\<close> and \<open>bincode_lib\<close>, joined in \<open>srp_libs\<close> and \<open>libs\<close>. The theory ends with
  reference implementations of the documented behaviour (SHA-1 of FIPS 180-4, square and
  multiply, the formats of theory \<open>Serde\<close>) on which the locales are interpreted, so that
  the assumptions hold together and the model can be run.
\<close>

section \<open>The parameter\<close>

record lib =
  sha1 :: "bytes \<Rightarrow> bytes"
  bn_from_bytes_le :: "bytes \<Rightarrow> nat"
  bn_from_bytes_be :: "bytes \<Rightarrow> nat"
  bn_to_bytes_le :: "nat \<Rightarrow> bytes"
  bn_modpow :: "nat \<Rightarrow> nat \<Rightarrow> nat \<Rightarrow> nat"
  ser_wow :: "sval \<Rightarrow> bytes option"
  ser_wow_varint :: "sval \<Rightarrow> bytes option"
  ser_options :: "sval \<Rightarrow> bytes option"
  ser_plain :: "sval \<Rightarrow> bytes option"
  size_wow :: "sval \<Rightarrow> u64 option"
  size_wow_varint :: "sval \<Rightarrow> u64 option"
  de_wow :: "sty \<Rightarrow> bytes \<Rightarrow> sval option"

section \<open>Reference implementations\<close>

definition rotl32 :: "nat \<Rightarrow> u32 \<Rightarrow> u32" where
  "rotl32 n w = push_bit n w OR drop_bit (32 - n) w"

definition sha1_pad :: "bytes \<Rightarrow> bytes" where
  "sha1_pad m =
     m @ 0x80 # replicate ((119 - length m mod 64) mod 64) 0 @ rev (le_bytes 8 (8 * length m))"

fun be_words :: "bytes \<Rightarrow> u32 list" where
  "be_words (a # b # c # d # bs) = of_nat (le_val [d, c, b, a]) # be_words bs"
| "be_words _ = []"

text \<open>The message schedule, newest word first, and one round of the compression function.\<close>

fun sha1_schedule :: "nat \<Rightarrow> u32 list \<Rightarrow> u32 list" where
  "sha1_schedule 0 ws = ws"
| "sha1_schedule (Suc n) ws =
     sha1_schedule n (rotl32 1 (ws ! 2 XOR ws ! 7 XOR ws ! 13 XOR ws ! 15) # ws)"

definition sha1_fk :: "nat \<Rightarrow> u32 \<Rightarrow> u32 \<Rightarrow> u32 \<Rightarrow> u32" where
  "sha1_fk t b c d =
     (if t < 20 then ((b AND c) OR (NOT b AND d)) + 0x5A827999
      else if t < 40 then (b XOR c XOR d) + 0x6ED9EBA1
      else if t < 60 then ((b AND c) OR (b AND d) OR (c AND d)) + 0x8F1BBCDC
      else (b XOR c XOR d) + 0xCA62C1D6)"

type_synonym sha1_state = "u32 \<times> u32 \<times> u32 \<times> u32 \<times> u32"

fun sha1_rounds :: "nat \<Rightarrow> u32 list \<Rightarrow> sha1_state \<Rightarrow> sha1_state" where
  "sha1_rounds t [] s = s"
| "sha1_rounds t (w # ws) (a, b, c, d, e) =
     sha1_rounds (Suc t) ws (rotl32 5 a + sha1_fk t b c d + e + w, a, rotl32 30 b, c, d)"

fun sha1_add :: "sha1_state \<Rightarrow> sha1_state \<Rightarrow> sha1_state" where
  "sha1_add (a, b, c, d, e) (a', b', c', d', e') = (a + a', b + b', c + c', d + d', e + e')"

fun sha1_blocks :: "nat \<Rightarrow> bytes \<Rightarrow> sha1_state \<Rightarrow> sha1_state" where
  "sha1_blocks 0 bs s = s"
| "sha1_blocks (Suc n) bs s =
     sha1_blocks n (drop 64 bs)
       (sha1_add s (sha1_rounds 0 (rev (sha1_schedule 64 (rev (be_words (take 64 bs))))) s))"

fun sha1_out :: "sha1_state \<Rightarrow> bytes" where
  "sha1_out (a, b, c, d, e) =
     rev (u32_le a) @ rev (u32_le b) @ rev (u32_le c) @ rev (u32_le d) @ rev (u32_le e)"

definition sha1_ref :: "bytes \<Rightarrow> bytes" where
  "sha1_ref m =
     (let p = sha1_pad m in
      sha1_out (sha1_blocks (length p div 64) p
        (0x67452301, 0xEFCDAB89, 0x98BADCFE, 0x10325476, 0xC3D2E1F0)))"

fun nat_bytes_le :: "nat \<Rightarrow> bytes" where
  "nat_bytes_le n = (if n < 256 then [of_nat n] else of_nat (n mod 256) # nat_bytes_le (n div 256))"

declare nat_bytes_le.simps [simp del]

fun pow_mod :: "nat \<Rightarrow> nat \<Rightarrow> nat \<Rightarrow> nat" where
  "pow_mod b e m =
     (if e = 0 then 1 mod m
      else let r = pow_mod (b * b mod m) (e div 2) m in if even e then r else b * r mod m)"

declare pow_mod.simps [simp del]

definition fixint_ser :: "sval \<Rightarrow> bytes option" where
  "fixint_ser v = (if str_ok v then Some (fixint_bytes v) else None)"

definition ref_lib :: lib where
  "ref_lib = \<lparr>
     sha1 = sha1_ref,
     bn_from_bytes_le = le_val,
     bn_from_bytes_be = (\<lambda>bs. le_val (rev bs)),
     bn_to_bytes_le = nat_bytes_le,
     bn_modpow = pow_mod,
     ser_wow = fixint_ser,
     ser_wow_varint = (\<lambda>v. Some (varint_bytes v)),
     ser_options = (\<lambda>v. Some (varint_bytes v)),
     ser_plain = (\<lambda>v. Some (fixint_bytes v)),
     size_wow = (\<lambda>v. map_option (\<lambda>bs. of_nat (length bs)) (fixint_ser v)),
     size_wow_varint = (\<lambda>v. Some (of_nat (length (varint_bytes v)))),
     de_wow = fixint_de\<rparr>"

section \<open>The contracts\<close>

locale sha1_lib =
  fixes L :: lib
  assumes sha1_length: "length (sha1 L m) = 20"

text \<open>
  \<open>BigUint::from_bytes_le\<close>, \<open>from_bytes_be\<close>, \<open>to_bytes_le\<close> (the shortest representation, one
  zero byte for zero) and \<open>modpow\<close>.
\<close>

locale bignum_lib =
  fixes L :: lib
  assumes from_bytes_le: "bn_from_bytes_le L bs = le_val bs"
    and from_bytes_be: "bn_from_bytes_be L bs = le_val (rev bs)"
    and to_bytes_le_val: "le_val (bn_to_bytes_le L n) = n"
    and to_bytes_le_min: "bn_to_bytes_le L n \<noteq> [] \<and> (n \<noteq> 0 \<longrightarrow> last (bn_to_bytes_le L n) \<noteq> 0)"
    and to_bytes_le_zero: "bn_to_bytes_le L 0 = [0]"
    and modpow: "0 < m \<Longrightarrow> bn_modpow L b e m = b ^ e mod m"
begin

text \<open>The shortest representation of a number has \<open>Suc k\<close> bytes exactly in its range.\<close>

lemma length_to_bytes_le:
  assumes "0 < k"
  shows "length (bn_to_bytes_le L n) = Suc k \<longleftrightarrow> 256 ^ k \<le> n \<and> n < 256 ^ Suc k"
proof -
  let ?bs = "bn_to_bytes_le L n"
  obtain l where l: "length ?bs = Suc l"
    using to_bytes_le_min [of n] by (cases ?bs) auto
  have ub: "n < 256 ^ Suc l"
    using le_val_bound [of ?bs] by (simp add: l to_bytes_le_val)
  show ?thesis
  proof (cases "n = 0")
    case True
    then have "length ?bs = 1" by (simp add: to_bytes_le_zero)
    with True assms show ?thesis by simp
  next
    case False
    have "?bs = butlast ?bs @ [last ?bs]" using to_bytes_le_min [of n] by simp
    then have "n = le_val (butlast ?bs) + 256 ^ l * unat (last ?bs)"
      using le_val_append [of "butlast ?bs" "[last ?bs]"] by (simp add: to_bytes_le_val l)
    moreover have "0 < unat (last ?bs)"
      using to_bytes_le_min [of n] False by (simp add: unat_gt_0)
    ultimately have lb: "256 ^ l \<le> n"
      by (metis le_add2 mult.right_neutral mult_le_mono2 order_trans Suc_leI One_nat_def)
    show ?thesis
    proof
      assume "length ?bs = Suc k"
      with l lb ub show "256 ^ k \<le> n \<and> n < 256 ^ Suc k" by simp
    next
      assume n: "256 ^ k \<le> n \<and> n < 256 ^ Suc k"
      have "l \<le> k"
      proof (rule ccontr)
        assume "\<not> l \<le> k"
        then have "(256 :: nat) ^ Suc k \<le> 256 ^ l" by (intro power_increasing) auto
        with n lb show False by simp
      qed
      moreover have "k \<le> l"
      proof (rule ccontr)
        assume "\<not> k \<le> l"
        then have "(256 :: nat) ^ Suc l \<le> 256 ^ k" by (intro power_increasing) auto
        with n ub show False by simp
      qed
      ultimately show "length ?bs = Suc k" using l by simp
    qed
  qed
qed

end

locale srp_libs = sha1_lib L + bignum_lib L for L

locale bincode_lib =
  fixes L :: lib
  assumes ser_wow: "str_ok v \<Longrightarrow> ser_wow L v = Some (fixint_bytes v)"
    and ser_wow_varint: "str_free v \<Longrightarrow> ser_wow_varint L v = Some (varint_bytes v)"
    and ser_options: "str_free v \<Longrightarrow> ser_options L v = Some (varint_bytes v)"
    and ser_plain: "str_free v \<Longrightarrow> ser_plain L v = Some (fixint_bytes v)"
    and size_wow: "str_ok v \<Longrightarrow> size_wow L v = Some (of_nat (length (fixint_bytes v)))"
    and size_wow_varint:
      "str_free v \<Longrightarrow> size_wow_varint L v = Some (of_nat (length (varint_bytes v)))"
    and de_wow: "de_wow L t bs = Some v \<longleftrightarrow> has_sty v t \<and> str_ok v \<and> bs = fixint_bytes v"
begin

lemma de_ser_wow: "has_sty v t \<Longrightarrow> str_ok v \<Longrightarrow> de_wow L t (the (ser_wow L v)) = Some v"
  by (simp add: ser_wow de_wow)

lemma de_wow_eq: "de_wow L t bs = fixint_de t bs"
  by (cases "de_wow L t bs"; cases "fixint_de t bs") (metis de_wow fixint_de_iff option.distinct(1))+

end

locale libs = srp_libs L + bincode_lib L for L

section \<open>The reference implementations meet the contracts\<close>

lemma nat_bytes_le_val: "le_val (nat_bytes_le n) = n"
proof (induction n rule: nat_bytes_le.induct)
  case (1 n)
  then show ?case by (subst nat_bytes_le.simps) (simp add: unat_of_nat)
qed

lemma nat_bytes_le_min: "nat_bytes_le n \<noteq> [] \<and> (n \<noteq> 0 \<longrightarrow> last (nat_bytes_le n) \<noteq> 0)"
proof (induction n rule: nat_bytes_le.induct)
  case (1 n)
  have "(of_nat n :: u8) \<noteq> 0" if "n < 256" "n \<noteq> 0"
    using that by (simp add: word_unat_eq_iff unat_of_nat)
  with 1 show ?case by (subst (1 2) nat_bytes_le.simps) auto
qed

lemma pow_mod_correct: "pow_mod b e m = b ^ e mod m"
proof (induction b e m rule: pow_mod.induct)
  case (1 b e m)
  show ?case
  proof (cases "e = 0")
    case True
    then show ?thesis by (subst pow_mod.simps) simp
  next
    case False
    have IH: "pow_mod (b * b mod m) (e div 2) m = (b * b) ^ (e div 2) mod m"
      using 1 False by (simp add: power_mod)
    have sq: "(b * b) ^ (e div 2) = b ^ (2 * (e div 2))"
      by (simp add: power_mult power2_eq_square)
    show ?thesis
    proof (cases "even e")
      case True
      with False IH sq show ?thesis by (subst pow_mod.simps) simp
    next
      case odd: False
      then have "b ^ e = b * b ^ (2 * (e div 2))"
        by (metis odd_two_times_div_two_succ power_Suc Suc_eq_plus1)
      with False odd IH sq show ?thesis
        by (subst pow_mod.simps) (simp add: mod_mult_right_eq)
    qed
  qed
qed

lemma length_sha1_out: "length (sha1_out s) = 20"
  by (cases s) simp

lemma nat_bytes_le_0: "nat_bytes_le 0 = [0]"
  by (subst nat_bytes_le.simps) simp

interpretation ref_libs: libs ref_lib
  by unfold_locales
    (auto simp: ref_lib_def sha1_ref_def Let_def length_sha1_out nat_bytes_le_val nat_bytes_le_min
      nat_bytes_le_0 pow_mod_correct fixint_ser_def fixint_de_iff str_free_str_ok)

end
