(* ===== verification/Wow_Srp.thy ===== *)
theory Wow_Srp
  imports Az_Lib
begin

text \<open>
  The crate \<open>wow-srp\<close>: the server side of the SRP6 variant of the login protocol. The state of
  a server (\<open>WowSRPServer\<close>), registration, the server's public key, the SHA-1 interleave that
  derives the session key, and the verification of a client's proof. Byte arrays are lists;
  \<open>srp_wf\<close> carries the lengths Rust's array types fix. The lemmas show that the interleave is
  the textbook one, that verification decides exactly the textbook proof and panics exactly
  when the shared secret has fewer than 32 significant bytes, and that a client who knows the
  password is accepted with the key it derived itself.
\<close>

section \<open>Constants and operations\<close>

definition N_bytes_be :: bytes where
  "N_bytes_be =
     [0x89, 0x4B, 0x64, 0x5E, 0x89, 0xE1, 0x53, 0x5B, 0xBD, 0xAD, 0x5B, 0x8B, 0x29, 0x06, 0x50,
      0x53, 0x08, 0x01, 0xB1, 0x8E, 0xBF, 0xBF, 0x5E, 0x8F, 0xAB, 0x3C, 0x82, 0x87, 0x2A, 0x3E,
      0x9B, 0xB7]"

definition srp_G :: "lib \<Rightarrow> nat" where
  "srp_G L = bn_from_bytes_be L [7]"

definition srp_N :: "lib \<Rightarrow> nat" where
  "srp_N L = bn_from_bytes_be L N_bytes_be"

text \<open>\<open>Salt\<close> and \<open>Verifier\<close> wrap 32 bytes.\<close>

type_synonym salt = bytes
type_synonym verifier = bytes

definition from_credentials :: "lib \<Rightarrow> rstr \<Rightarrow> rstr \<Rightarrow> salt \<Rightarrow> ('e, verifier) res" where
  "from_credentials L username password s =
     (let inner = sha1 L (username @ ascii '':'' @ password);
          hash = bn_from_bytes_le L (sha1 L (s @ inner))
      in expect_array 32 (bn_to_bytes_le L (bn_modpow L (srp_G L) hash (srp_N L))))"

record WowSRPServer =
  srp_salt :: salt
  srp_verifier :: verifier
  srp_identity_hash :: bytes
  srp_b :: bytes
  srp_b_pub :: bytes

definition calculate_b_pub :: "lib \<Rightarrow> bytes \<Rightarrow> verifier \<Rightarrow> ('e, bytes) res" where
  "calculate_b_pub L b v =
     (let fst = bn_modpow L (srp_G L) (bn_from_bytes_be L b) (srp_N L);
          snd = bn_from_bytes_le L v * 3
      in expect_array 32 (bn_to_bytes_le L ((fst + snd) mod srp_N L)))"

definition new_with_b :: "lib \<Rightarrow> rstr \<Rightarrow> salt \<Rightarrow> verifier \<Rightarrow> bytes \<Rightarrow> ('e, WowSRPServer) res" where
  "new_with_b L username s v b =
     res_bind (calculate_b_pub L b v) (\<lambda>b_pub.
     res_bind (expect_array 20 (sha1 L username)) (\<lambda>identity_hash.
     Ok \<lparr>srp_salt = s, srp_verifier = v, srp_identity_hash = identity_hash, srp_b = b,
         srp_b_pub = b_pub\<rparr>))"

text \<open>\<open>new\<close> and \<open>register\<close> draw 32 random bytes, which are an argument of the model.\<close>

definition srp_new :: "lib \<Rightarrow> bytes \<Rightarrow> rstr \<Rightarrow> salt \<Rightarrow> verifier \<Rightarrow> ('e, WowSRPServer) res" where
  "srp_new L rng username s v = new_with_b L username s v rng"

definition srp_register :: "lib \<Rightarrow> bytes \<Rightarrow> rstr \<Rightarrow> rstr \<Rightarrow> ('e, verifier \<times> salt) res" where
  "srp_register L rng username password =
     res_bind (from_credentials L username password rng) (\<lambda>v. Ok (v, rng))"

definition get_g :: "lib \<Rightarrow> WowSRPServer \<Rightarrow> bytes" where
  "get_g L s = bn_to_bytes_le L (srp_G L)"

definition get_n :: "lib \<Rightarrow> WowSRPServer \<Rightarrow> bytes" where
  "get_n L s = bn_to_bytes_le L (srp_N L)"

definition get_salt :: "WowSRPServer \<Rightarrow> salt" where
  [simp]: "get_salt s = srp_salt s"

definition get_b_pub :: "WowSRPServer \<Rightarrow> bytes" where
  [simp]: "get_b_pub s = srp_b_pub s"

definition get_server_proof :: "lib \<Rightarrow> bytes \<Rightarrow> bytes \<Rightarrow> bytes \<Rightarrow> ('e, bytes) res" where
  "get_server_proof L a_pub client_proof session_key =
     expect_array 20 (sha1 L (a_pub @ client_proof @ session_key))"

text \<open>\<open>slice::chunks(2)\<close>.\<close>

fun chunks2 :: "'a list \<Rightarrow> 'a list list" where
  "chunks2 (x # y # r) = [x, y] # chunks2 r"
| "chunks2 [x] = [[x]]"
| "chunks2 [] = []"

definition interleave_start :: "bytes \<Rightarrow> nat" where
  "interleave_start s =
     (case find (\<lambda>(_, v). v \<noteq> 0) (enumerate 0 s) of
        Some (i, v) \<Rightarrow> if v = 0 then i else i + 1
      | None \<Rightarrow> length s) div 2"

definition derive_session_key :: "lib \<Rightarrow> bytes \<Rightarrow> ('e, bytes) res" where
  "derive_session_key L premaster_secret =
     (let left = map (\<lambda>split. split ! 0) (chunks2 premaster_secret);
          right = map (\<lambda>split. split ! 1) (chunks2 premaster_secret);
          start = interleave_start premaster_secret
      in res_bind (slice_from start left) (\<lambda>l.
         res_bind (slice_from start right) (\<lambda>r.
         let hl = sha1 L l; hr = sha1 L r
         in Ok (concat (map (\<lambda>i. [hl ! i, hr ! i]) [0..<20])))))"

definition hn_xor_hg :: "lib \<Rightarrow> bytes" where
  "hn_xor_hg L =
     map2 (\<lambda>f s. f XOR s) (sha1 L (bn_to_bytes_le L (srp_N L))) (sha1 L (bn_to_bytes_le L (srp_G L)))"

definition verify_challenge_response ::
  "lib \<Rightarrow> WowSRPServer \<Rightarrow> bytes \<Rightarrow> bytes \<Rightarrow> ('e, bytes option) res" where
  "verify_challenge_response L self a_pub client_m =
     (let a_pub_num = bn_from_bytes_le L a_pub;
          v = bn_from_bytes_le L (srp_verifier self);
          b = bn_from_bytes_be L (srp_b self)
      in if a_pub_num mod srp_N L = 0 then Ok None
         else
           let u = bn_from_bytes_le L (sha1 L (a_pub @ srp_b_pub self));
               premaster_secret = bn_modpow L (a_pub_num * bn_modpow L v u (srp_N L)) b (srp_N L)
           in res_bind (expect_array 32 (bn_to_bytes_le L premaster_secret)) (\<lambda>ps.
              res_bind (derive_session_key L ps) (\<lambda>session_key.
              let server_m = sha1 L (hn_xor_hg L @ srp_identity_hash self @ srp_salt self @ a_pub
                    @ srp_b_pub self @ session_key)
              in if server_m = client_m then Ok (Some session_key) else Ok None)))"

section \<open>Reference definitions\<close>

text \<open>
  The lengths the array types give, and the textbook protocol: the SHA-1 interleave of
  RFC 2945 (leading zero bytes go, and one more byte when an odd number is left), the proof
  both sides compute, and the shared secret as each side computes it.
\<close>

definition srp_wf :: "WowSRPServer \<Rightarrow> bool" where
  "srp_wf s \<longleftrightarrow> length (srp_salt s) = 32 \<and> length (srp_verifier s) = 32 \<and>
     length (srp_identity_hash s) = 20 \<and> length (srp_b s) = 32 \<and> length (srp_b_pub s) = 32"

fun evens :: "'a list \<Rightarrow> 'a list" where
  "evens (x # y # r) = x # evens r"
| "evens xs = xs"

fun interleave :: "'a list \<Rightarrow> 'a list \<Rightarrow> 'a list" where
  "interleave (x # xs) (y # ys) = x # y # interleave xs ys"
| "interleave _ _ = []"

definition sha_interleave :: "lib \<Rightarrow> bytes \<Rightarrow> bytes" where
  "sha_interleave L s =
     (let t = dropWhile (\<lambda>b. b = 0) s; t' = (if odd (length t) then tl t else t)
      in interleave (sha1 L (evens t')) (sha1 L (evens (tl t'))))"

definition server_secret :: "lib \<Rightarrow> WowSRPServer \<Rightarrow> bytes \<Rightarrow> nat" where
  "server_secret L s a_pub =
     (le_val a_pub * le_val (srp_verifier s) ^ le_val (sha1 L (a_pub @ srp_b_pub s)))
       ^ le_val (rev (srp_b s)) mod srp_N L"

definition srp_proof :: "lib \<Rightarrow> bytes \<Rightarrow> salt \<Rightarrow> bytes \<Rightarrow> bytes \<Rightarrow> bytes \<Rightarrow> bytes" where
  "srp_proof L identity_hash s a_pub b_pub k =
     sha1 L (map (\<lambda>i. sha1 L (rev N_bytes_be) ! i XOR sha1 L [7] ! i) [0..<20]
       @ identity_hash @ s @ a_pub @ b_pub @ k)"

text \<open>
  The client: from the password it has the private key \<open>x\<close>; with its secret exponent \<open>a\<close> and
  the server's public key it computes the secret as a number modulo \<open>N\<close>.
\<close>

definition client_x :: "lib \<Rightarrow> rstr \<Rightarrow> rstr \<Rightarrow> salt \<Rightarrow> nat" where
  "client_x L username password s = le_val (sha1 L (s @ sha1 L (username @ ascii '':'' @ password)))"

definition client_a_pub :: "lib \<Rightarrow> nat \<Rightarrow> bytes" where
  "client_a_pub L a = le_bytes 32 (srp_G L ^ a mod srp_N L)"

definition client_secret :: "lib \<Rightarrow> nat \<Rightarrow> nat \<Rightarrow> nat \<Rightarrow> nat \<Rightarrow> nat" where
  "client_secret L x a u bpub =
     nat ((int bpub - 3 * int (srp_G L ^ x)) ^ (a + u * x) mod int (srp_N L))"

section \<open>Lemmas on the interleave\<close>

lemma find_enumerate_nonzero:
  "find (\<lambda>(_, v). v \<noteq> 0) (enumerate n s) =
     (if dropWhile (\<lambda>b. b = 0) s = [] then None
      else Some (n + length (takeWhile (\<lambda>b. b = 0) s), hd (dropWhile (\<lambda>b. b = 0) s)))"
  by (induction s arbitrary: n) auto

lemma interleave_start_eq:
  "even (length s) \<Longrightarrow> interleave_start s = Suc (length (takeWhile (\<lambda>b. b = 0) s)) div 2"
proof (cases "dropWhile (\<lambda>b. b = 0) s = []")
  case True
  assume "even (length s)"
  moreover from True have "length (takeWhile (\<lambda>b. b = 0) s) = length s"
    by (metis append.right_neutral takeWhile_dropWhile_id)
  ultimately show ?thesis
    using True by (simp only: interleave_start_def find_enumerate_nonzero) simp
next
  case False
  then have "hd (dropWhile (\<lambda>b. b = 0) s) \<noteq> 0" by (rule hd_dropWhile)
  with False show ?thesis by (auto simp: interleave_start_def find_enumerate_nonzero)
qed

lemma evens_Cons: "evens (x # r) = x # evens (tl r)"
  by (cases r) simp_all

lemma chunks2_columns:
  "even (length s) \<Longrightarrow> map (\<lambda>c. c ! 0) (chunks2 s) = evens s"
  "even (length s) \<Longrightarrow> map (\<lambda>c. c ! 1) (chunks2 s) = evens (tl s)"
  by (induction s rule: chunks2.induct) (auto simp: evens_Cons)

lemma length_evens: "length (evens s) = Suc (length s) div 2"
  by (induction s rule: evens.induct) auto

lemma drop_evens: "drop k (evens s) = evens (drop (2 * k) s)"
proof (induction k arbitrary: s)
  case (Suc k)
  then show ?case by (cases s rule: evens.cases) auto
qed simp

lemma interleave_nth:
  "length xs = n \<Longrightarrow> length ys = n \<Longrightarrow> concat (map (\<lambda>i. [xs ! i, ys ! i]) [0..<n]) = interleave xs ys"
proof (induction n arbitrary: xs ys)
  case (Suc n)
  then obtain x xs' y ys' where "xs = x # xs'" "ys = y # ys'" "length xs' = n" "length ys' = n"
    by (auto simp: length_Suc_conv)
  with Suc.IH [of xs' ys'] show ?case
    by (simp add: map_upt_Suc del: upt_Suc)
qed simp

lemma length_interleave: "length xs = length ys \<Longrightarrow> length (interleave xs ys) = 2 * length xs"
  by (induction xs ys rule: interleave.induct) auto

lemma strip_leading_zeros:
  assumes "even (length s)"
  shows "(if odd (length (dropWhile (\<lambda>b. b = 0) s)) then tl (dropWhile (\<lambda>b. b = 0) s)
          else dropWhile (\<lambda>b. b = 0) s) = drop (2 * interleave_start s) s"
proof -
  let ?z = "length (takeWhile (\<lambda>b. b = 0) s)"
  have d: "dropWhile (\<lambda>b. b = 0) s = drop ?z s" by (rule dropWhile_eq_drop)
  have "?z \<le> length s" by (rule length_takeWhile_le)
  with assms have "odd (length (drop ?z s)) \<longleftrightarrow> odd ?z" by simp
  then show ?thesis
    unfolding d interleave_start_eq [OF assms]
    by (cases "even ?z") (auto simp: tl_drop drop_Suc elim!: evenE oddE)
qed

text \<open>The derived key is the RFC 2945 interleave, and slicing never panics.\<close>

lemma derive_session_key_eq:
  assumes "sha1_lib L" and s: "length s = 32"
  shows "derive_session_key L s = Ok (sha_interleave L s)"
proof -
  let ?k = "interleave_start s" and ?t = "drop (2 * interleave_start s) s"
  have len: "length (sha1 L m) = 20" for m using assms(1) by (rule sha1_lib.sha1_length)
  have "length (takeWhile (\<lambda>b. b = 0) s) \<le> length s" by (rule length_takeWhile_le)
  then have k: "?k \<le> 16" using s by (simp add: interleave_start_eq)
  have left: "slice_from ?k (evens s) = Ok (evens ?t)"
    using k s by (simp add: length_evens drop_evens)
  have right: "slice_from ?k (evens (tl s)) = Ok (evens (tl ?t))"
    using k s by (simp add: length_evens drop_evens tl_drop)
  have zip: "concat (map (\<lambda>i. [sha1 L a ! i, sha1 L b ! i]) [0..<20]) =
      interleave (sha1 L a) (sha1 L b)" for a b
    by (rule interleave_nth) (rule len)+
  have cols: "map (\<lambda>c. c ! 0) (chunks2 s) = evens s" "map (\<lambda>c. c ! 1) (chunks2 s) = evens (tl s)"
    using s by (simp_all only: chunks2_columns even_numeral)
  have "derive_session_key L s = Ok (interleave (sha1 L (evens ?t)) (sha1 L (evens (tl ?t))))"
    by (simp only: derive_session_key_def Let_def cols left right zip res_bind.simps)
  then show ?thesis
    using s strip_leading_zeros [of s] by (simp add: sha_interleave_def Let_def)
qed

section \<open>Consequences of the library contracts\<close>

context bignum_lib
begin

lemma srp_G_val: "srp_G L = 7"
  by (simp add: srp_G_def from_bytes_be)

lemma srp_N_val:
  "srp_N L = 62100066509156017342069496140902949863249758336000796928566441170293728648119"
  by (simp add: srp_N_def from_bytes_be N_bytes_be_def)

lemma srp_N_bounds: "256 ^ 31 \<le> srp_N L" "srp_N L < 256 ^ 32" "1 < srp_N L"
  by (simp_all add: srp_N_val)

lemma to_bytes_le_32:
  "length (bn_to_bytes_le L n) = 32 \<longleftrightarrow> 256 ^ 31 \<le> n \<and> n < 256 ^ 32"
  using length_to_bytes_le [of 31 n] by simp

lemma expect_array_32:
  assumes "n < 256 ^ 32"
  shows "expect_array 32 (bn_to_bytes_le L n) = (if n < 256 ^ 31 then Panic else Ok (le_bytes 32 n))"
proof (cases "n < 256 ^ 31")
  case True
  then have "length (bn_to_bytes_le L n) \<noteq> 32" by (simp only: to_bytes_le_32) simp
  with True show ?thesis by simp
next
  case False
  with assms have len: "length (bn_to_bytes_le L n) = 32" by (simp only: to_bytes_le_32) simp
  have "bn_to_bytes_le L n = le_bytes 32 n"
    using le_bytes_le_val [of "bn_to_bytes_le L n"] by (simp only: len to_bytes_le_val)
  with len False show ?thesis by simp
qed

lemma expect_mod_N:
  "expect_array 32 (bn_to_bytes_le L (n mod srp_N L)) =
     (if n mod srp_N L < 256 ^ 31 then Panic else Ok (le_bytes 32 (n mod srp_N L)))"
  by (rule expect_array_32) (use srp_N_bounds in \<open>meson mod_less_divisor less_trans zero_less_one\<close>)

lemma get_n_bytes: "bn_to_bytes_le L (srp_N L) = rev N_bytes_be"
proof (rule le_val_inj)
  show "length (bn_to_bytes_le L (srp_N L)) = length (rev N_bytes_be)"
    using to_bytes_le_32 [of "srp_N L"] srp_N_bounds by (simp add: N_bytes_be_def)
  show "le_val (bn_to_bytes_le L (srp_N L)) = le_val (rev N_bytes_be)"
    by (simp only: to_bytes_le_val srp_N_def from_bytes_be)
qed

end

text \<open>Modular arithmetic of the exchange, on integers.\<close>

lemma power_mod_cong: "(x :: int) mod n = y mod n \<Longrightarrow> x ^ k mod n = y ^ k mod n"
  by (metis power_mod)

lemma srp_blind_cong: "((c :: int) + 3 * (d mod n)) mod n = (c + 3 * d) mod n"
  by (metis mod_add_right_eq mod_mult_right_eq)

lemma srp_unblind: "B mod n = ((c :: int) + 3 * d) mod n \<Longrightarrow> (B - 3 * d) mod n = c mod n"
  by (metis add_diff_cancel_right' mod_diff_left_eq)

lemma srp_exponents: "((g :: int) ^ b) ^ (a + u * x) = (g ^ a * (g ^ x) ^ u) ^ b"
proof -
  have "g ^ a * (g ^ x) ^ u = g ^ (a + u * x)"
    by (simp add: power_add power_mult mult.commute [of u x])
  then show ?thesis by (simp flip: power_mult add: mult.commute)
qed

lemma srp_reduce: "((a :: int) mod n * (v mod n) ^ u) ^ b mod n = (a * v ^ u) ^ b mod n"
proof (rule power_mod_cong)
  have "(v mod n) ^ u mod n = v ^ u mod n" by (rule power_mod)
  then show "a mod n * (v mod n) ^ u mod n = a * v ^ u mod n" by (metis mod_mult_eq mod_mod_trivial)
qed

context srp_libs
begin

lemma get_g_bytes: "bn_to_bytes_le L (srp_G L) = [7]"
proof -
  have "length (bn_to_bytes_le L 7) = 1"
  proof (rule ccontr)
    assume "length (bn_to_bytes_le L 7) \<noteq> 1"
    with to_bytes_le_min [of 7] obtain k where "0 < k" "length (bn_to_bytes_le L 7) = Suc k"
      by (cases "bn_to_bytes_le L 7") auto
    then have "256 ^ k \<le> (7 :: nat)" using length_to_bytes_le by blast
    moreover have "(256 :: nat) ^ 1 \<le> 256 ^ k" using \<open>0 < k\<close> by (intro power_increasing) auto
    ultimately show False by simp
  qed
  then have "bn_to_bytes_le L 7 = [7]" by (intro le_val_inj) (simp_all add: to_bytes_le_val)
  then show ?thesis by (simp add: srp_G_val)
qed

lemma from_credentials_eq:
  "from_credentials L username password s =
     (let v = 7 ^ client_x L username password s mod srp_N L
      in if v < 256 ^ 31 then Panic else Ok (le_bytes 32 v))"
  using srp_N_bounds
  by (simp only: from_credentials_def Let_def modpow expect_mod_N srp_G_val from_bytes_le
      client_x_def)

lemma calculate_b_pub_eq:
  "calculate_b_pub L b v =
     (let p = (7 ^ le_val (rev b) + 3 * le_val v) mod srp_N L
      in if p < 256 ^ 31 then Panic else Ok (le_bytes 32 p))"
  using srp_N_bounds
  by (simp only: calculate_b_pub_def Let_def modpow expect_mod_N srp_G_val from_bytes_le
      from_bytes_be mod_add_left_eq mult.commute [of _ "3 :: nat"])

lemma new_with_b_eq:
  "new_with_b L username s v b =
     res_bind (calculate_b_pub L b v) (\<lambda>p. Ok \<lparr>srp_salt = s, srp_verifier = v,
       srp_identity_hash = sha1 L username, srp_b = b, srp_b_pub = p\<rparr>)"
  by (simp add: new_with_b_def sha1_length)

lemma server_secret_modpow:
  "bn_modpow L (le_val a_pub * bn_modpow L (le_val (srp_verifier s))
     (le_val (sha1 L (a_pub @ srp_b_pub s))) (srp_N L)) (le_val (rev (srp_b s))) (srp_N L)
   = server_secret L s a_pub"
proof -
  have "(a * (v ^ u mod srp_N L)) ^ b mod srp_N L = (a * v ^ u) ^ b mod srp_N L" for a v u b
    by (metis mod_mult_right_eq power_mod)
  then show ?thesis using srp_N_bounds by (simp add: modpow server_secret_def)
qed

lemma expect_server_secret:
  "expect_array 32 (bn_to_bytes_le L (server_secret L s a_pub)) =
     (if server_secret L s a_pub < 256 ^ 31 then Panic
      else Ok (le_bytes 32 (server_secret L s a_pub)))"
  unfolding server_secret_def by (rule expect_mod_N)

lemma derive_le_bytes:
  "derive_session_key L (le_bytes 32 n) = Ok (sha_interleave L (le_bytes 32 n))"
  by (rule derive_session_key_eq) (unfold_locales, simp)

lemma hn_xor_hg_eq: "hn_xor_hg L = map (\<lambda>i. sha1 L (rev N_bytes_be) ! i XOR sha1 L [7] ! i) [0..<20]"
  by (simp add: hn_xor_hg_def get_g_bytes get_n_bytes list_eq_iff_nth_eq sha1_length)

lemma verify_eq:
  "verify_challenge_response L s a_pub m =
     (if le_val a_pub mod srp_N L = 0 then Ok None
      else if server_secret L s a_pub < 256 ^ 31 then Panic
      else let k = sha_interleave L (le_bytes 32 (server_secret L s a_pub))
           in if srp_proof L (srp_identity_hash s) (srp_salt s) a_pub (srp_b_pub s) k = m
              then Ok (Some k) else Ok None)"
  by (simp add: verify_challenge_response_def Let_def from_bytes_le from_bytes_be srp_proof_def
      hn_xor_hg_eq server_secret_modpow expect_server_secret derive_le_bytes)

lemma length_sha_interleave: "length (sha_interleave L s) = 40"
  by (simp add: sha_interleave_def Let_def length_interleave sha1_length)

text \<open>The generator has no power divisible by the modulus.\<close>

lemma G_power_nonzero: "7 ^ a mod srp_N L \<noteq> 0"
proof
  assume "7 ^ a mod srp_N L = 0"
  then have "srp_N L dvd 7 ^ a" by (rule mod_0_imp_dvd)
  moreover have "coprime (srp_N L) (7 ^ a)"
  proof -
    have "srp_N L mod 7 = 4" by (simp add: srp_N_val)
    then have "gcd (srp_N L) 7 = gcd 7 4" using gcd_red_nat [of "srp_N L" 7] by simp
    also have "\<dots> = (1 :: nat)" by code_simp
    finally have "coprime (srp_N L) 7" by (simp only: coprime_iff_gcd_eq_1)
    then show ?thesis by simp
  qed
  ultimately have "srp_N L dvd 1" by (meson coprime_common_divisor dvd_refl)
  with srp_N_bounds show False by simp
qed

text \<open>Both sides arrive at the same secret.\<close>

lemma secrets_agree:
  assumes v: "le_val (srp_verifier s) = 7 ^ x mod srp_N L"
    and B: "bpub = (7 ^ le_val (rev (srp_b s)) + 3 * le_val (srp_verifier s)) mod srp_N L"
    and A: "le_val a_pub = 7 ^ a mod srp_N L"
    and u: "u = le_val (sha1 L (a_pub @ srp_b_pub s))"
  shows "client_secret L x a u bpub = server_secret L s a_pub"
proof -
  let ?n = "int (srp_N L)" and ?b = "le_val (rev (srp_b s))"
  have "int bpub mod ?n = (7 ^ ?b + 3 * 7 ^ x) mod ?n"
    by (simp add: B v zmod_int srp_blind_cong)
  then have "(int bpub - 3 * 7 ^ x) ^ (a + u * x) mod ?n = (7 ^ ?b) ^ (a + u * x) mod ?n"
    by (intro power_mod_cong srp_unblind)
  also have "\<dots> = (7 ^ a mod ?n * (7 ^ x mod ?n) ^ u) ^ ?b mod ?n"
    by (simp only: srp_exponents srp_reduce)
  also have "\<dots> = int (server_secret L s a_pub)"
    by (simp add: server_secret_def v A u zmod_int)
  finally show ?thesis by (simp add: client_secret_def srp_G_val)
qed

end

section \<open>An honest client\<close>

lemma honest_client_verified:
  assumes "srp_libs L"
    and "from_credentials L username password s = Ok v"
    and "(new_with_b L username s v b :: ('e, WowSRPServer) res) = Ok srv"
    and "a_pub = client_a_pub L a"
    and "secret = client_secret L (client_x L username password s) a
           (le_val (sha1 L (a_pub @ srp_b_pub srv))) (le_val (srp_b_pub srv))"
    and "256 ^ 31 \<le> secret"
    and "k = sha_interleave L (le_bytes 32 secret)"
  shows "verify_challenge_response L srv a_pub
           (srp_proof L (sha1 L username) s a_pub (srp_b_pub srv) k) = Ok (Some k)"
proof -
  note lib = assms(1)
  let ?x = "client_x L username password s" and ?n = "srp_N L"
  have n: "1 < ?n" "?n < 256 ^ 32"
    using bignum_lib.srp_N_bounds [of L] lib by (simp_all add: srp_libs_def)
  have g: "srp_G L = 7" using bignum_lib.srp_G_val lib by (simp add: srp_libs_def)
  have lt: "m mod ?n < 256 ^ 32" for m
    using n by (meson less_trans mod_less_divisor zero_less_one)
  have v: "le_val v = 7 ^ ?x mod ?n"
    using assms(2) lt by (auto simp: srp_libs.from_credentials_eq [OF lib] Let_def le_val_le_bytes
        split: if_splits)
  from assms(3) obtain p where p: "(calculate_b_pub L b v :: ('e, bytes) res) = Ok p"
    and srv: "srv = \<lparr>srp_salt = s, srp_verifier = v, srp_identity_hash = sha1 L username,
                srp_b = b, srp_b_pub = p\<rparr>"
    by (auto simp: srp_libs.new_with_b_eq [OF lib] res_simps)
  have B: "le_val p = (7 ^ le_val (rev b) + 3 * le_val v) mod ?n"
    using p lt by (auto simp: srp_libs.calculate_b_pub_eq [OF lib] Let_def le_val_le_bytes
        split: if_splits)
  have A: "le_val a_pub = 7 ^ a mod ?n"
    using lt by (simp add: assms(4) client_a_pub_def le_val_le_bytes g)
  have S: "secret = server_secret L srv a_pub"
    unfolding assms(5) by (rule srp_libs.secrets_agree [OF lib]) (simp_all add: srv v B A)
  have "le_val a_pub mod ?n \<noteq> 0"
    using srp_libs.G_power_nonzero [OF lib, of a] by (simp add: A)
  with assms(6) show ?thesis
    by (simp add: srp_libs.verify_eq [OF lib] S assms(7) Let_def) (simp add: srv)
qed

section \<open>Properties\<close>

text \<open>
  C1. A client that knows the password is let in. Let the account be registered with a user
  name, a password and a salt, and let the server answer with the public key of its secret
  \<open>b\<close>. A client that raises the generator to its own secret \<open>a\<close>, computes the shared secret
  from the password, derives the key from it with the SHA-1 interleave and sends the proof of
  that key is accepted, and the key the server returns is the key the client derived. The one
  condition is that the shared secret has 32 significant bytes.
\<close>

theorem honest_client_accepted:
  assumes "srp_libs L"
    and "from_credentials L username password s = Ok v"
    and "(new_with_b L username s v b :: ('e, WowSRPServer) res) = Ok srv"
    and "a_pub = client_a_pub L a"
    and "secret = client_secret L (client_x L username password s) a
           (le_val (sha1 L (a_pub @ srp_b_pub srv))) (le_val (srp_b_pub srv))"
    and "256 ^ 31 \<le> secret"
    and "k = sha_interleave L (le_bytes 32 secret)"
  shows "verify_challenge_response L srv a_pub
           (srp_proof L (sha1 L username) s a_pub (srp_b_pub srv) k) = Ok (Some k)"
  using assms by (rule honest_client_verified)

text \<open>
  A library whose digest is small enough to run the protocol in the kernel: 1 for messages of
  64 bytes (the two public keys), 90 for every other message.
\<close>

definition fixed_digest_lib :: lib where
  "fixed_digest_lib = ref_lib\<lparr>sha1 := (\<lambda>m. (if length m = 64 then 1 else 90) # replicate 19 0)\<rparr>"

interpretation fixed_digest: libs fixed_digest_lib
  by unfold_locales
    (auto simp: fixed_digest_lib_def ref_lib_def nat_bytes_le_val nat_bytes_le_min nat_bytes_le_0
      pow_mod_correct fixint_ser_def fixint_de_iff str_free_str_ok)

lemma fixed_digest_sha1:
  "sha1 fixed_digest_lib m = (if length m = 64 then 1 else 90) # replicate 19 0"
  by (simp add: fixed_digest_lib_def)

lemma fixed_digest_x: "length s \<noteq> 44 \<Longrightarrow> client_x fixed_digest_lib (ascii ''AR'') (ascii ''T'') s = 90"
  by (simp add: client_x_def fixed_digest_sha1 ascii_def)

definition fixed_digest_server :: WowSRPServer where
  "fixed_digest_server = \<lparr>srp_salt = replicate 32 0, srp_verifier = le_bytes 32 (7 ^ 90),
     srp_identity_hash = 90 # replicate 19 0, srp_b = replicate 31 0 @ [1],
     srp_b_pub = le_bytes 32 (7 + 3 * 7 ^ 90)\<rparr>"

lemma fixed_digest_credentials:
  "from_credentials fixed_digest_lib (ascii ''AR'') (ascii ''T'') (replicate 32 0)
     = Ok (le_bytes 32 (7 ^ 90))"
  by (simp add: fixed_digest.from_credentials_eq fixed_digest_x fixed_digest.srp_N_val Let_def)

lemma fixed_digest_new:
  "new_with_b fixed_digest_lib (ascii ''AR'') (replicate 32 0) (le_bytes 32 (7 ^ 90))
     (replicate 31 0 @ [1]) = Ok fixed_digest_server"
  by (simp add: fixed_digest.new_with_b_eq fixed_digest.calculate_b_pub_eq fixed_digest.srp_N_val
      Let_def fixed_digest_sha1 le_val_le_bytes fixed_digest_server_def ascii_def)

lemma fixed_digest_secret:
  "client_secret fixed_digest_lib 90 0 1 (le_val (srp_b_pub fixed_digest_server)) = 7 ^ 90"
  by (simp add: client_secret_def fixed_digest.srp_N_val fixed_digest.srp_G_val le_val_le_bytes
      fixed_digest_server_def)

theorem honest_client_accepted_witness:
  "\<exists>k. verify_challenge_response fixed_digest_lib fixed_digest_server
      (client_a_pub fixed_digest_lib 0)
      (srp_proof fixed_digest_lib (sha1 fixed_digest_lib (ascii ''AR'')) (replicate 32 0)
        (client_a_pub fixed_digest_lib 0) (srp_b_pub fixed_digest_server) k) = Ok (Some k)"
proof -
  have secret: "256 ^ 31 \<le> client_secret fixed_digest_lib
      (client_x fixed_digest_lib (ascii ''AR'') (ascii ''T'') (replicate 32 0)) 0
      (le_val (sha1 fixed_digest_lib (client_a_pub fixed_digest_lib 0 @ srp_b_pub fixed_digest_server)))
      (le_val (srp_b_pub fixed_digest_server))"
    using fixed_digest_secret
    by (simp add: fixed_digest_x fixed_digest_sha1 client_a_pub_def fixed_digest_server_def)
  show ?thesis
    using honest_client_accepted [OF fixed_digest.srp_libs_axioms fixed_digest_credentials
        fixed_digest_new refl refl secret refl] by blast
qed

text \<open>
  C9. What \<open>verify_challenge_response\<close> decides, on every branch. A public key divisible by the
  modulus is refused; a shared secret with fewer than 32 significant bytes makes the server
  panic; otherwise the key is returned exactly when the client's proof is the proof of that key
  over the server's identity hash, salt and both public keys.
\<close>

theorem verify_challenge_response_decides:
  assumes "srp_libs L"
  shows "verify_challenge_response L s a_pub client_m =
    (if le_val a_pub mod srp_N L = 0 then Ok None
     else if server_secret L s a_pub < 256 ^ 31 then Panic
     else let k = sha_interleave L (le_bytes 32 (server_secret L s a_pub))
          in if client_m = srp_proof L (srp_identity_hash s) (srp_salt s) a_pub (srp_b_pub s) k
             then Ok (Some k) else Ok None)"
  unfolding srp_libs.verify_eq [OF assms] Let_def by (simp only: eq_commute [of client_m])

theorem verify_challenge_response_decides_witness:
  "verify_challenge_response fixed_digest_lib fixed_digest_server (replicate 32 0) (replicate 20 0)
     = Ok None"
  unfolding verify_challenge_response_decides [OF fixed_digest.srp_libs_axioms] by simp

text \<open>
  C10. The session key is the SHA-1 interleave of RFC 2945: the index arithmetic with which the
  code skips leading zero bytes keeps exactly the bytes the RFC keeps, its slices never panic,
  and the key has 40 bytes.
\<close>

theorem derive_session_key_interleave:
  assumes "srp_libs L" and "length premaster_secret = 32"
  shows "derive_session_key L premaster_secret = Ok (sha_interleave L premaster_secret) \<and>
    length (sha_interleave L premaster_secret) = 40"
proof -
  have "sha1_lib L" using assms(1) by (simp add: srp_libs_def)
  with assms show ?thesis
    by (simp add: derive_session_key_eq srp_libs.length_sha_interleave)
qed

theorem derive_session_key_interleave_witness:
  "derive_session_key ref_lib (replicate 32 5) = Ok (sha_interleave ref_lib (replicate 32 5))"
  by (rule derive_session_key_interleave [OF ref_libs.srp_libs_axioms, THEN conjunct1]) simp

text \<open>
  C22. Registration returns the salt it drew and a 32-byte verifier that reads back as
  \<open>g ^ x mod N\<close>, and panics exactly when that number needs fewer than 32 bytes.
\<close>

theorem srp_register_result:
  assumes "srp_libs L"
  shows "srp_register L rng username password =
    (let v = srp_G L ^ client_x L username password rng mod srp_N L
     in if v < 256 ^ 31 then Panic else Ok (le_bytes 32 v, rng)) \<and>
    le_val (le_bytes 32 (srp_G L ^ client_x L username password rng mod srp_N L)) =
      srp_G L ^ client_x L username password rng mod srp_N L"
proof
  have g: "srp_G L = 7" and n: "srp_N L < 256 ^ 32" "1 < srp_N L"
    using bignum_lib.srp_G_val [of L] bignum_lib.srp_N_bounds [of L] assms
    by (simp_all add: srp_libs_def)
  show "srp_register L rng username password =
    (let v = srp_G L ^ client_x L username password rng mod srp_N L
     in if v < 256 ^ 31 then Panic else Ok (le_bytes 32 v, rng))"
    by (simp add: srp_register_def srp_libs.from_credentials_eq [OF assms] g Let_def)
  have "m mod srp_N L < 256 ^ 32" for m
    using n by (meson less_trans mod_less_divisor zero_less_one)
  then show "le_val (le_bytes 32 (srp_G L ^ client_x L username password rng mod srp_N L)) =
      srp_G L ^ client_x L username password rng mod srp_N L"
    by (simp add: le_val_le_bytes)
qed

theorem srp_register_result_witness:
  "srp_register fixed_digest_lib (replicate 32 0) (ascii ''AR'') (ascii ''T'')
     = Ok (le_bytes 32 (7 ^ 90), replicate 32 0)"
  by (subst srp_register_result [OF fixed_digest.srp_libs_axioms, THEN conjunct1])
    (simp add: fixed_digest_x fixed_digest.srp_N_val fixed_digest.srp_G_val Let_def)

text \<open>
  C23. A server that starts is well formed: every field has the length of its array type, and the
  public key it announces is the residue \<open>g ^ b + 3 v\<close> modulo \<open>N\<close>, in 32 bytes.
\<close>

theorem new_with_b_wf:
  assumes "srp_libs L" and "length s = 32" "length v = 32" "length b = 32"
    and "new_with_b L username s v b = Ok srv"
  shows "srp_wf srv \<and> srp_verifier srv = v \<and> srp_salt srv = s \<and> srp_b srv = b \<and>
    le_val (srp_b_pub srv) = (srp_G L ^ le_val (rev b) + 3 * le_val v) mod srp_N L"
proof -
  have g: "srp_G L = 7" and n: "srp_N L < 256 ^ 32" "1 < srp_N L"
    and sha: "length (sha1 L m) = 20" for m
    using bignum_lib.srp_G_val [of L] bignum_lib.srp_N_bounds [of L] sha1_lib.sha1_length [of L] assms(1)
    by (simp_all add: srp_libs_def)
  have lt: "m mod srp_N L < 256 ^ 32" for m
    using n by (meson less_trans mod_less_divisor zero_less_one)
  show ?thesis
    using assms(2-) lt
    by (auto simp: srp_libs.new_with_b_eq [OF assms(1)] srp_libs.calculate_b_pub_eq [OF assms(1)]
        res_simps Let_def srp_wf_def sha le_val_le_bytes g split: if_splits)
qed

theorem new_with_b_wf_witness: "srp_wf fixed_digest_server"
  using new_with_b_wf [OF fixed_digest.srp_libs_axioms _ _ _ fixed_digest_new] by simp

end
