(* ===== verification/Game_Types.thy ===== *)
theory Game_Types
  imports Wow_Srp
begin

text \<open>
  The crate \<open>game\<close>: identifiers of entities, locales, realms and accounts, with the tokens of
  the two login protocols. Instants are nanoseconds since the Unix epoch, \<open>f32\<close> values are
  their bit patterns. The tokens' \<open>accept\<close> functions decide a login; the lemmas describe them
  on every branch, and that the type tag of an entity identifier survives its packing.
\<close>

section \<open>Entities (game/src/lib.rs, game/src/characters.rs)\<close>

type_synonym WowId = u64

datatype EntityType =
    Player | ItemOrContainer | GameObject | Transport | Unit | Pet | Vehicle | DynamicObject
  | Corpse | MoTransport | Group | Instance

fun entity_code :: "EntityType \<Rightarrow> u64" where
  "entity_code Player = 0x0000"
| "entity_code ItemOrContainer = 0x4000"
| "entity_code GameObject = 0xF110"
| "entity_code Transport = 0xF120"
| "entity_code Unit = 0xF130"
| "entity_code Pet = 0xF140"
| "entity_code Vehicle = 0xF150"
| "entity_code DynamicObject = 0xF100"
| "entity_code Corpse = 0xF101"
| "entity_code MoTransport = 0x1FC0"
| "entity_code Group = 0x1F50"
| "entity_code Instance = 0x1F42"

definition WowId_new :: "EntityType \<Rightarrow> u32 \<Rightarrow> u32 \<Rightarrow> WowId" where
  "WowId_new t low mid = (ucast low OR push_bit 24 (ucast mid)) OR push_bit 48 (entity_code t)"

datatype TryFromWowIdError = InvalidEntityType u16

type_synonym CharacterId = u64

definition CharacterId_try_from :: "WowId \<Rightarrow> (TryFromWowIdError, CharacterId) res" where
  "CharacterId_try_from value =
     (let e_type = (ucast (drop_bit 48 value) :: u16)
      in if e_type = ucast (entity_code Player) then Ok value else Err (InvalidEntityType e_type))"

section \<open>Locales (game/src/types.rs)\<close>

datatype Locale = enUS | koKR | frFR | deDE | zhCN | esES | esMX | ruRU

fun Locale_u8 :: "Locale \<Rightarrow> u8" where
  "Locale_u8 enUS = 0"
| "Locale_u8 koKR = 1"
| "Locale_u8 frFR = 2"
| "Locale_u8 deDE = 3"
| "Locale_u8 zhCN = 4"
| "Locale_u8 esES = 5"
| "Locale_u8 esMX = 6"
| "Locale_u8 ruRU = 7"

section \<open>Realms (game/src/realms.rs)\<close>

datatype RealmFlags =
  RF_Invalid | RF_Offline | RF_SpecifyBuild | RF_Unknown1 | RF_Unknown2 | RF_Recommended | RF_New | RF_Full

fun RealmFlags_u8 :: "RealmFlags \<Rightarrow> u8" where
  "RealmFlags_u8 RF_Invalid = 1"
| "RealmFlags_u8 RF_Offline = 2"
| "RealmFlags_u8 RF_SpecifyBuild = 4"
| "RealmFlags_u8 RF_Unknown1 = 8"
| "RealmFlags_u8 RF_Unknown2 = 16"
| "RealmFlags_u8 RF_Recommended = 32"
| "RealmFlags_u8 RF_New = 64"
| "RealmFlags_u8 RF_Full = 128"

datatype RealmType = RT_Normal | RT_PVP | RT_RP | RT_RPPvP

fun RealmType_u8 :: "RealmType \<Rightarrow> u8" where
  "RealmType_u8 RT_Normal = 0"
| "RealmType_u8 RT_PVP = 1"
| "RealmType_u8 RT_RP = 6"
| "RealmType_u8 RT_RPPvP = 8"

type_synonym RealmId = u32

record Realm =
  rl_id :: RealmId
  rl_name :: rstr
  rl_realm_type :: RealmType
  rl_build :: u32
  rl_external_address :: rstr
  rl_local_address :: rstr
  rl_local_subnet_mask :: rstr
  rl_port :: u16
  rl_flags :: u8
  rl_timezone :: u8
  rl_population :: u32

datatype RealmListError = StartTimeInFuture | StartTimeTooLarge | RL_PersistError rstr

section \<open>Accounts (game/src/accounts.rs)\<close>

type_synonym AccountId = u32

datatype BanStatus = Temporary | Permanent

record Account =
  ac_id :: AccountId
  ac_username :: rstr
  ac_email :: rstr
  ac_ban_status :: "BanStatus option"
  ac_salt :: salt
  ac_verifier :: verifier
  ac_session_key :: "bytes option"
  ac_joindate :: int
  ac_last_login :: "int option"
  ac_online :: u8

datatype AccountOpError =
  UsernameTooLong | PasswordTooLong | PersistError rstr | InvalidAccount AccountId

datatype AccountFetchError = FetchIO rstr

datatype LoginFailure =
  LF_Suspended | LF_Banned | LF_UnknownAccount | LF_IncorrectPassword | LF_DatabaseError

record ConnectToken =
  ct_server :: WowSRPServer
  ct_security_flags :: u8

definition ConnectToken_new :: "lib \<Rightarrow> bytes \<Rightarrow> rstr \<Rightarrow> salt \<Rightarrow> verifier \<Rightarrow> ('e, ConnectToken) res" where
  "ConnectToken_new L rng username s v =
     res_bind (srp_new L rng username s v) (\<lambda>srv. Ok \<lparr>ct_server = srv, ct_security_flags = 0\<rparr>)"

definition token_get_g :: "lib \<Rightarrow> ConnectToken \<Rightarrow> bytes" where
  [simp]: "token_get_g L self = get_g L (ct_server self)"

definition token_get_n :: "lib \<Rightarrow> ConnectToken \<Rightarrow> bytes" where
  [simp]: "token_get_n L self = get_n L (ct_server self)"

definition token_get_salt :: "ConnectToken \<Rightarrow> salt" where
  [simp]: "token_get_salt self = get_salt (ct_server self)"

definition token_get_b_pub :: "ConnectToken \<Rightarrow> bytes" where
  [simp]: "token_get_b_pub self = get_b_pub (ct_server self)"

definition token_get_security_flags :: "ConnectToken \<Rightarrow> u8" where
  [simp]: "token_get_security_flags self = ct_security_flags self"

definition connect_accept ::
  "lib \<Rightarrow> ConnectToken \<Rightarrow> bytes \<Rightarrow> bytes \<Rightarrow> (LoginFailure, bytes \<times> bytes) res" where
  "connect_accept L self public_key client_proof =
     res_bind (verify_challenge_response L (ct_server self) public_key client_proof) (\<lambda>r.
       case r of
         Some session_key \<Rightarrow>
           res_bind (get_server_proof L public_key client_proof session_key) (\<lambda>p.
             Ok (p, session_key))
       | None \<Rightarrow> Err LF_IncorrectPassword)"

record ReconnectToken =
  rt_reconnect_proof :: bytes
  rt_account :: Account
  rt_session_key :: bytes

definition ReconnectToken_new :: "bytes \<Rightarrow> Account \<Rightarrow> bytes \<Rightarrow> ReconnectToken" where
  "ReconnectToken_new rng account session_key =
     \<lparr>rt_reconnect_proof = rng, rt_account = account, rt_session_key = session_key\<rparr>"

definition reconnect_accept ::
  "lib \<Rightarrow> ReconnectToken \<Rightarrow> bytes \<Rightarrow> bytes \<Rightarrow> (LoginFailure, unit) res" where
  "reconnect_accept L self proof_data client_proof =
     (let server_proof = sha1 L (ac_username (rt_account self) @ proof_data
            @ rt_reconnect_proof self @ rt_session_key self)
      in if server_proof = client_proof then Ok () else Err LF_IncorrectPassword)"

section \<open>Lemmas\<close>

lemma connect_accept_Ok [res_simps]:
  "connect_accept L t pk pr = Ok (m, k) \<longleftrightarrow>
     (verify_challenge_response L (ct_server t) pk pr :: (LoginFailure, bytes option) res) = Ok (Some k) \<and>
     (get_server_proof L pk pr k :: (LoginFailure, bytes) res) = Ok m"
  by (auto simp: connect_accept_def res_bind_eq_Ok split: option.splits)

lemma accepted_key_length:
  assumes "srp_libs L" and "connect_accept L t pk pr = Ok (m, k)"
  shows "length k = 40"
  using assms(2)
  by (auto simp: connect_accept_Ok srp_libs.verify_eq [OF assms(1)] Let_def
      srp_libs.length_sha_interleave [OF assms(1)] split: if_splits)

lemma reconnect_accept_Ok [res_simps]:
  "reconnect_accept L t pd pr = Ok u \<longleftrightarrow>
     pr = sha1 L (ac_username (rt_account t) @ pd @ rt_reconnect_proof t @ rt_session_key t)"
  by (auto simp: reconnect_accept_def Let_def)

lemma reconnect_accept_no_panic [simp]: "reconnect_accept L t pd pr \<noteq> Panic"
  by (simp add: reconnect_accept_def Let_def)

lemma entity_code_bound: "entity_code t = ucast (ucast (entity_code t) :: u16)"
  by (cases t) simp_all

lemma entity_code_Player: "entity_code t = 0 \<longleftrightarrow> t = Player"
  by (cases t) simp_all

text \<open>The tag of an identifier whose middle part fits its 24 bits is the entity's code.\<close>

lemma WowId_tag:
  assumes "mid < 2 ^ 24"
  shows "(ucast (drop_bit 48 (WowId_new t low mid)) :: u16) = ucast (entity_code t)"
proof (rule bit_word_eqI)
  fix n :: nat
  assume n: "n < LENGTH(16)"
  have low: "\<not> bit low (48 + n)" using bit_imp_le_length [of low "48 + n"] by auto
  have "\<not> bit mid (24 + n)"
  proof -
    have "unat mid < 2 ^ 24" using assms by (simp add: word_less_nat_alt)
    also have "(2 :: nat) ^ 24 \<le> 2 ^ (24 + n)" by (intro power_increasing) auto
    finally have "unat mid div 2 ^ (24 + n) = 0" by (rule div_less)
    then have "\<not> bit (unat mid) (24 + n)" by (simp add: bit_iff_odd)
    then show ?thesis using bit_imp_le_length [of mid "24 + n"] by (auto simp: bit_simps)
  qed
  with n low show "bit (ucast (drop_bit 48 (WowId_new t low mid)) :: u16) n =
      bit (ucast (entity_code t) :: u16) n"
    by (auto simp: WowId_new_def bit_simps)
qed

section \<open>Properties\<close>

text \<open>
  The type tag of an entity identifier: an identifier built from a middle part below
  \<open>2 ^ 24\<close> converts to a character identifier exactly when it was built for a player, and the
  error otherwise names the entity's code.
\<close>

lemma CharacterId_of_new:
  assumes "mid < 2 ^ 24"
  shows "CharacterId_try_from (WowId_new t low mid) =
    (if t = Player then Ok (WowId_new t low mid) else Err (InvalidEntityType (ucast (entity_code t))))"
proof -
  have "(ucast (entity_code t) :: u16) = 0 \<longleftrightarrow> t = Player" by (cases t) simp_all
  then show ?thesis by (simp add: CharacterId_try_from_def WowId_tag [OF assms] Let_def)
qed

lemma CharacterId_of_new_witness:
  "CharacterId_try_from (WowId_new Pet 7 5) = Err (InvalidEntityType 0xF140)"
  using CharacterId_of_new [of 5 Pet 7] by simp

end
