(* ===== verification/Auth_Proto.thy ===== *)
theory Auth_Proto
  imports Game_Types
begin

text \<open>
  The command and return codes of the authentication protocol (protocol/src/auth.rs). Both
  enums are serialised as their \<open>u8\<close> value; only commands are read back.
\<close>

datatype AuthCommand = Connect | Proof | ReConnect | ReProof | RealmList

fun AuthCommand_u8 :: "AuthCommand \<Rightarrow> u8" where
  "AuthCommand_u8 Connect = 0x00"
| "AuthCommand_u8 Proof = 0x01"
| "AuthCommand_u8 ReConnect = 0x02"
| "AuthCommand_u8 ReProof = 0x03"
| "AuthCommand_u8 RealmList = 0x10"

definition AuthCommand_try_from :: "u8 \<Rightarrow> AuthCommand option" where
  "AuthCommand_try_from b =
     (if b = 0x00 then Some Connect else if b = 0x01 then Some Proof
      else if b = 0x02 then Some ReConnect else if b = 0x03 then Some ReProof
      else if b = 0x10 then Some RealmList else None)"

datatype ReturnCode =
    RC_Success | RC_Failed | RC_Failed2 | RC_Banned | RC_UnknownAccount | RC_IncorrectPassword
  | RC_AlreadyOnline | RC_NoTime | RC_DbBusy | RC_VersionInvalid | RC_VersionUpdate
  | RC_InvalidServer | RC_Suspended | RC_NoAccess | RC_SuccessSurvey | RC_ParentControl
  | RC_LockedEnforced | RC_TrialEnded | RC_UseBattlenet | RC_AntiIndulgence | RC_Expired
  | RC_NoGameAccount | RC_Chargeback | RC_InternetGameRoomWithoutBnet | RC_GameAccountLocked
  | RC_UnlockableLock | RC_ConversionRequired | RC_Disconnected

fun ReturnCode_u8 :: "ReturnCode \<Rightarrow> u8" where
  "ReturnCode_u8 RC_Success = 0x00"
| "ReturnCode_u8 RC_Failed = 0x01"
| "ReturnCode_u8 RC_Failed2 = 0x02"
| "ReturnCode_u8 RC_Banned = 0x03"
| "ReturnCode_u8 RC_UnknownAccount = 0x04"
| "ReturnCode_u8 RC_IncorrectPassword = 0x05"
| "ReturnCode_u8 RC_AlreadyOnline = 0x06"
| "ReturnCode_u8 RC_NoTime = 0x07"
| "ReturnCode_u8 RC_DbBusy = 0x08"
| "ReturnCode_u8 RC_VersionInvalid = 0x09"
| "ReturnCode_u8 RC_VersionUpdate = 0x0A"
| "ReturnCode_u8 RC_InvalidServer = 0x0B"
| "ReturnCode_u8 RC_Suspended = 0x0C"
| "ReturnCode_u8 RC_NoAccess = 0x0D"
| "ReturnCode_u8 RC_SuccessSurvey = 0x0E"
| "ReturnCode_u8 RC_ParentControl = 0x0F"
| "ReturnCode_u8 RC_LockedEnforced = 0x10"
| "ReturnCode_u8 RC_TrialEnded = 0x11"
| "ReturnCode_u8 RC_UseBattlenet = 0x12"
| "ReturnCode_u8 RC_AntiIndulgence = 0x13"
| "ReturnCode_u8 RC_Expired = 0x14"
| "ReturnCode_u8 RC_NoGameAccount = 0x15"
| "ReturnCode_u8 RC_Chargeback = 0x16"
| "ReturnCode_u8 RC_InternetGameRoomWithoutBnet = 0x17"
| "ReturnCode_u8 RC_GameAccountLocked = 0x18"
| "ReturnCode_u8 RC_UnlockableLock = 0x19"
| "ReturnCode_u8 RC_ConversionRequired = 0x20"
| "ReturnCode_u8 RC_Disconnected = 0xFF"

fun ReturnCode_from :: "LoginFailure \<Rightarrow> ReturnCode" where
  "ReturnCode_from LF_Suspended = RC_Suspended"
| "ReturnCode_from LF_Banned = RC_Banned"
| "ReturnCode_from LF_UnknownAccount = RC_UnknownAccount"
| "ReturnCode_from LF_IncorrectPassword = RC_IncorrectPassword"
| "ReturnCode_from LF_DatabaseError = RC_Failed"

section \<open>Lemmas\<close>

lemma AuthCommand_try_from_u8 [simp]: "AuthCommand_try_from (AuthCommand_u8 c) = Some c"
  by (cases c) (simp_all add: AuthCommand_try_from_def)

lemma AuthCommand_try_from_eq: "AuthCommand_try_from b = Some c \<longleftrightarrow> b = AuthCommand_u8 c"
  by (cases c) (auto simp: AuthCommand_try_from_def)

lemma ReturnCode_u8_inj: "ReturnCode_u8 a = ReturnCode_u8 b \<Longrightarrow> a = b"
  by (cases a; cases b; simp)

lemma ReturnCode_from_inj: "ReturnCode_from a = ReturnCode_from b \<Longrightarrow> a = b"
  by (cases a; cases b; simp)

lemma ReturnCode_from_not_success [simp]: "ReturnCode_from f \<noteq> RC_Success"
  by (cases f) simp_all

end
