(* ===== verification/Account_Service.thy ===== *)
theory Account_Service
  imports Auth_Proto
begin

text \<open>
  The service traits of the crate \<open>game\<close> that the authentication server is generic over:
  \<open>AccountService\<close> (the four login operations) and \<open>RealmList\<close>. A service is a record of
  operations on a state of its own; the random bytes an operation draws are its first argument.
  The locales state what an implementation promises. The theory of each implementation
  interprets them, and the server's lemmas rest on the locale alone.
\<close>

record 'd account_ops =
  as_initiate_login :: "bytes \<Rightarrow> rstr \<Rightarrow> 'd \<Rightarrow> (LoginFailure, ConnectToken) res \<times> 'd"
  as_complete_login :: "ConnectToken \<Rightarrow> bytes \<Rightarrow> bytes \<Rightarrow> 'd \<Rightarrow> (LoginFailure, bytes) res \<times> 'd"
  as_initiate_relogin :: "bytes \<Rightarrow> rstr \<Rightarrow> 'd \<Rightarrow> (LoginFailure, ReconnectToken) res \<times> 'd"
  as_complete_relogin :: "ReconnectToken \<Rightarrow> bytes \<Rightarrow> bytes \<Rightarrow> 'd \<Rightarrow> (LoginFailure, bytes) res \<times> 'd"

record 'r realm_ops =
  rs_realms :: "'r \<Rightarrow> Realm list \<times> 'r"
  rs_update_status :: "(u8 \<times> RealmFlags) list \<Rightarrow> 'r \<Rightarrow> (RealmListError, unit) res \<times> 'r"
  rs_set_uptime :: "RealmId \<Rightarrow> int \<Rightarrow> u32 \<Rightarrow> 'r \<Rightarrow> (RealmListError, unit) res \<times> 'r"

text \<open>
  A login completes only for a proof the token accepts, a token is a fresh one for some
  account's salt and verifier, and no token is handed to a name the service holds to be barred.
\<close>

locale account_service =
  fixes L :: lib
    and svc :: "'d account_ops"
    and barred :: "rstr \<Rightarrow> 'd \<Rightarrow> bool"
  assumes complete_login_accepts:
      "fst (as_complete_login svc t pk pr d) = Ok m \<Longrightarrow> \<exists>k. connect_accept L t pk pr = Ok (m, k)"
    and complete_relogin_accepts:
      "fst (as_complete_relogin svc rt pd pr d) = Ok m \<Longrightarrow> reconnect_accept L rt pd pr = Ok ()"
    and initiate_login_token:
      "fst (as_initiate_login svc rng u d) = Ok t \<Longrightarrow>
         \<exists>name s v. (ConnectToken_new L rng name s v :: (LoginFailure, ConnectToken) res) = Ok t"
    and initiate_login_barred:
      "barred u d \<Longrightarrow> fst (as_initiate_login svc rng u d) \<noteq> Ok t"
    and initiate_relogin_nonce:
      "fst (as_initiate_relogin svc rng u d) = Ok rt \<Longrightarrow> rt_reconnect_proof rt = rng"
begin

lemma login_proof:
  assumes "fst (as_complete_login svc t pk pr d) = Ok m"
  shows "\<exists>k. (verify_challenge_response L (ct_server t) pk pr :: (LoginFailure, bytes option) res)
     = Ok (Some k)"
  using complete_login_accepts [OF assms] by (auto simp: connect_accept_Ok)

lemma relogin_proof:
  assumes "fst (as_complete_relogin svc rt pd pr d) = Ok m"
  shows "pr = sha1 L (ac_username (rt_account rt) @ pd @ rt_reconnect_proof rt @ rt_session_key rt)"
  using complete_relogin_accepts [OF assms] by (simp add: reconnect_accept_Ok)

lemma initiate_login_flags:
  "fst (as_initiate_login svc rng u d) = Ok t \<Longrightarrow> ct_security_flags t = 0"
  by (drule initiate_login_token) (auto simp: ConnectToken_new_def res_simps)

end

text \<open>
  A realm list comes sorted by the identifier of the realm (the order the trait documents), in
  every state the implementation reaches.
\<close>

locale realm_list =
  fixes rs :: "'r realm_ops"
    and rinv :: "'r \<Rightarrow> bool"
  assumes realms_sorted:
      "rinv r \<Longrightarrow> sorted (map (\<lambda>x. unat (rl_id x)) (fst (rs_realms rs r)))"
    and realms_inv: "rinv r \<Longrightarrow> rinv (snd (rs_realms rs r))"
    and update_status_inv: "rinv r \<Longrightarrow> rinv (snd (rs_update_status rs upd r))"
    and set_uptime_inv: "rinv r \<Longrightarrow> rinv (snd (rs_set_uptime rs i start pop r))"

end
