(* ===== verification/Mysql_Auth.thy ===== *)
theory Mysql_Auth
  imports Account_Service
begin

text \<open>
  The crate \<open>mysql-auth\<close>, accounts (accounts.rs): the account service over the authentication
  database. The tables are lists of rows with the columns the queries name, in the order in
  which the database returns them, and each function runs the queries of its source on them.
  What is not in the sources is an argument, the record \<open>db_env\<close>: the error a query gives
  when the pool reports one, the equality of text columns (the collation of the schema), the
  two clocks, the row a new account takes its other columns from and the identifier the
  database assigns to it, the range checks of chrono, and which of several bans a query without an
  order gives first. A function returns its result and the tables.
\<close>

section \<open>Tables and environment\<close>

record account_row =
  ar_id :: AccountId
  ar_username :: rstr
  ar_salt :: bytes
  ar_verifier :: bytes
  ar_session_key_auth :: "bytes option"
  ar_reg_mail :: rstr
  ar_email :: rstr
  ar_joindate :: int
  ar_last_login :: "int option"
  ar_online :: u8
  ar_last_ip :: rstr
  ar_locale :: u8
  ar_failed_logins :: u32
  ar_os :: rstr

record ban_row =
  br_id :: AccountId
  br_bandate :: int
  br_unbandate :: int
  br_bannedby :: rstr
  br_banreason :: rstr
  br_active :: u8

record realmchar_row =
  rc_realmid :: u32
  rc_acctid :: AccountId
  rc_numchars :: u8

record realm_row =
  rr_id :: u32
  rr_name :: rstr
  rr_icon :: u8
  rr_gamebuild :: u32
  rr_address :: rstr
  rr_localAddress :: rstr
  rr_localSubnetMask :: rstr
  rr_port :: u16
  rr_flag :: u8
  rr_timezone :: u8
  rr_population :: u32

record uptime_row =
  ur_realmid :: u32
  ur_starttime :: u32
  ur_uptime :: u32
  ur_maxplayers :: u32
  ur_revision :: rstr

record auth_db =
  db_account :: "account_row list"
  db_account_banned :: "ban_row list"
  db_realmcharacters :: "realmchar_row list"
  db_realmlist :: "realm_row list"
  db_uptime :: "uptime_row list"

datatype query =
    Q_list_account | Q_insert_account | Q_insert_realmcharacters | Q_select_id | Q_get
  | Q_get_by_username | Q_get_ban | Q_relogin | Q_update_session | Q_insert_ban
  | Q_realms | Q_update_status nat | Q_set_uptime

record db_env =
  ev_fault :: "query \<Rightarrow> rstr option"
  ev_decode_error :: rstr
  ev_text_eq :: "rstr \<Rightarrow> rstr \<Rightarrow> bool"
  ev_db_time :: int
  ev_utc_now :: int
  ev_account_defaults :: account_row
  ev_ban_active :: u8
  ev_realm_defaults :: realm_row
  ev_last_insert_id :: u64
  ev_chrono_from_std :: "nat \<Rightarrow> int option"
  ev_chrono_add :: "int \<Rightarrow> int \<Rightarrow> int option"
  ev_pick :: "ban_row list \<Rightarrow> nat"

text \<open>A query of the pool: its rows, or the error the pool reports.\<close>

definition run_query :: "db_env \<Rightarrow> query \<Rightarrow> 'a \<Rightarrow> (rstr, 'a) res" where
  "run_query E q rows = (case ev_fault E q of Some e \<Rightarrow> Err e | None \<Rightarrow> Ok rows)"

section \<open>The account service (mysql-auth/src/accounts.rs)\<close>

text \<open>
  The columns selected as an \<open>Account\<close>; fixed-size arrays decode only from values of their
  size. \<open>ban_status\<close> is selected as NULL.
\<close>

definition row_account :: "db_env \<Rightarrow> account_row \<Rightarrow> (rstr, Account) res" where
  "row_account E r =
     (if length (ar_salt r) = 32 \<and> length (ar_verifier r) = 32 \<and>
         (case ar_session_key_auth r of Some k \<Rightarrow> length k = 40 | None \<Rightarrow> True)
      then Ok \<lparr>ac_id = ar_id r, ac_username = ar_username r, ac_email = ar_email r,
               ac_ban_status = None, ac_salt = ar_salt r, ac_verifier = ar_verifier r,
               ac_session_key = ar_session_key_auth r, ac_joindate = ar_joindate r,
               ac_last_login = ar_last_login r, ac_online = ar_online r\<rparr>
      else Err (ev_decode_error E))"

fun row_accounts :: "db_env \<Rightarrow> account_row list \<Rightarrow> (rstr, Account list) res" where
  "row_accounts E [] = Ok []"
| "row_accounts E (r # rs) =
     res_bind (row_account E r) (\<lambda>a. res_bind (row_accounts E rs) (\<lambda>as. Ok (a # as)))"

definition list_account :: "db_env \<Rightarrow> auth_db \<Rightarrow> (AccountFetchError, Account list) res" where
  "list_account E db =
     map_err FetchIO (res_bind (run_query E Q_list_account (db_account db)) (row_accounts E))"

text \<open>
  The second insert gives every realm a row for every account that has none yet: the join keeps
  the accounts without a row.
\<close>

definition missing_realmcharacters :: "auth_db \<Rightarrow> realmchar_row list" where
  "missing_realmcharacters db =
     concat (map (\<lambda>r.
       map (\<lambda>a. \<lparr>rc_realmid = rr_id r, rc_acctid = ar_id a, rc_numchars = 0\<rparr>)
         (filter (\<lambda>a. \<not> list_ex (\<lambda>c. rc_acctid c = ar_id a) (db_realmcharacters db)) (db_account db)))
       (db_realmlist db))"

definition create_account ::
  "lib \<Rightarrow> db_env \<Rightarrow> bytes \<Rightarrow> rstr \<Rightarrow> rstr \<Rightarrow> rstr \<Rightarrow> auth_db \<Rightarrow> (AccountOpError, AccountId) res \<times> auth_db" where
  "create_account L E rng username password email db =
     (if length username > 16 then (Err UsernameTooLong, db)
      else if length password > 16 then (Err PasswordTooLong, db)
      else
        let username = to_ascii_uppercase username;
            password = to_ascii_uppercase password
        in case srp_register L rng username password of
             Panic \<Rightarrow> (Panic, db)
           | Err e \<Rightarrow> (Err e, db)
           | Ok (v, s) \<Rightarrow>
               (case ev_fault E Q_insert_account of
                  Some e \<Rightarrow> (Err (PersistError e), db)
                | None \<Rightarrow>
                    let row = (ev_account_defaults E)\<lparr>ar_id := ucast (ev_last_insert_id E),
                          ar_username := username, ar_salt := s, ar_verifier := v,
                          ar_reg_mail := email, ar_email := email, ar_joindate := ev_db_time E\<rparr>;
                        db1 = db\<lparr>db_account := db_account db @ [row]\<rparr>;
                        account_id = (ucast (ev_last_insert_id E) :: AccountId)
                    in (case ev_fault E Q_insert_realmcharacters of
                          Some e \<Rightarrow> (Err (PersistError e), db1)
                        | None \<Rightarrow>
                            (Ok account_id,
                             db1\<lparr>db_realmcharacters :=
                                db_realmcharacters db1 @ missing_realmcharacters db1\<rparr>))))"

text \<open>The body of \<open>delete_account\<close> stops after the existence check; the rest is comments.\<close>

definition delete_account :: "db_env \<Rightarrow> AccountId \<Rightarrow> auth_db \<Rightarrow> (AccountOpError, unit) res \<times> auth_db" where
  "delete_account E account db =
     (case run_query E Q_select_id (find (\<lambda>r. ar_id r = account) (db_account db)) of
        Ok found \<Rightarrow>
          let present = (found \<noteq> None)
          in if \<not> present then (Err (InvalidAccount account), db) else (Ok (), db)
      | Err e \<Rightarrow> (Err (PersistError e), db)
      | Panic \<Rightarrow> (Panic, db))"

text \<open>\<open>fetch_one\<close> gives an error when there is no row.\<close>

definition row_not_found :: rstr where
  "row_not_found = ascii ''no rows returned by a query that expected to return at least one row''"

definition get_account :: "db_env \<Rightarrow> AccountId \<Rightarrow> auth_db \<Rightarrow> (AccountOpError, Account) res" where
  "get_account E account db =
     map_err PersistError
       (res_bind (run_query E Q_get (find (\<lambda>r. ar_id r = account) (db_account db))) (\<lambda>row.
        res_bind (ok_or row_not_found row) (row_account E)))"

text \<open>
  The two columns of the ban query: \<open>unbandate > UNIX_TIMESTAMP() OR unbandate = bandate\<close> and
  \<open>unbandate = bandate\<close>.
\<close>

definition ban_is_banned :: "db_env \<Rightarrow> ban_row \<Rightarrow> bool" where
  "ban_is_banned E b \<longleftrightarrow> br_unbandate b > ev_db_time E \<or> br_unbandate b = br_bandate b"

definition ban_is_permabanned :: "ban_row \<Rightarrow> bool" where
  "ban_is_permabanned b \<longleftrightarrow> br_unbandate b = br_bandate b"

definition ban_status_of :: "bool \<Rightarrow> bool \<Rightarrow> BanStatus option" where
  "ban_status_of is_banned is_permabanned =
     (if is_permabanned then Some Permanent else if is_banned then Some Temporary else None)"

definition apply_ban :: "db_env \<Rightarrow> ban_row option \<Rightarrow> Account \<Rightarrow> Account" where
  "apply_ban E ban account =
     (case ban of
        Some b \<Rightarrow> account\<lparr>ac_ban_status := ban_status_of (ban_is_banned E b) (ban_is_permabanned b)\<rparr>
      | None \<Rightarrow> account)"

text \<open>
  The bans of an account. The query has no order, so that any of them may be the first row, which
  \<open>fetch_optional\<close> takes.
\<close>

definition account_bans :: "AccountId \<Rightarrow> auth_db \<Rightarrow> ban_row list" where
  "account_bans i db = filter (\<lambda>b. br_id b = i) (db_account_banned db)"

definition fetch_ban :: "db_env \<Rightarrow> ban_row list \<Rightarrow> ban_row option" where
  "fetch_ban E rows = (if rows = [] then None else Some (rows ! (ev_pick E rows mod length rows)))"

definition get_by_username ::
  "db_env \<Rightarrow> rstr \<Rightarrow> auth_db \<Rightarrow> (AccountOpError, Account option) res" where
  "get_by_username E username db =
     map_err PersistError
       (res_bind (run_query E Q_get_by_username
                    (find (\<lambda>r. ev_text_eq E (ar_username r) username) (db_account db))) (\<lambda>row.
        case row of
          None \<Rightarrow> Ok None
        | Some r \<Rightarrow>
            res_bind (row_account E r) (\<lambda>account.
            res_bind (run_query E Q_get_ban
                       (fetch_ban E (account_bans (ac_id account) db))) (\<lambda>ban.
            Ok (Some (apply_ban E ban account))))))"

definition initiate_login ::
  "lib \<Rightarrow> db_env \<Rightarrow> bytes \<Rightarrow> rstr \<Rightarrow> auth_db \<Rightarrow> (LoginFailure, ConnectToken) res" where
  "initiate_login L E rng username db =
     res_bind (map_err (\<lambda>_. LF_DatabaseError) (get_by_username E username db)) (\<lambda>found.
     res_bind (ok_or LF_UnknownAccount found) (\<lambda>account.
     case ac_ban_status account of
       Some Permanent \<Rightarrow> Err LF_Banned
     | Some Temporary \<Rightarrow> Err LF_Suspended
     | None \<Rightarrow> ConnectToken_new L rng (ac_username account) (ac_salt account) (ac_verifier account)))"

text \<open>
  The query of \<open>initiate_relogin\<close>: accounts of the name with a session key, joined with their
  active bans (the other joined columns are not used). The ban columns are NULL when no ban
  joins.
\<close>

definition relogin_rows :: "db_env \<Rightarrow> rstr \<Rightarrow> auth_db \<Rightarrow> (account_row \<times> ban_row option) list" where
  "relogin_rows E username db =
     concat (map (\<lambda>a.
       let bans = filter (\<lambda>b. br_id b = ar_id a \<and> br_active b = 1) (db_account_banned db)
       in if bans = [] then [(a, None)] else map (\<lambda>b. (a, Some b)) bans)
       (filter (\<lambda>a. ev_text_eq E (ar_username a) username \<and> ar_session_key_auth a \<noteq> None)
         (db_account db)))"

definition relogin_account :: "db_env \<Rightarrow> account_row \<Rightarrow> ban_row option \<Rightarrow> Account" where
  "relogin_account E a ban =
     \<lparr>ac_id = ar_id a, ac_username = ar_username a, ac_email = [],
      ac_ban_status = (case ban of
          Some b \<Rightarrow> ban_status_of (ban_is_banned E b) (ban_is_permabanned b)
        | None \<Rightarrow> None),
      ac_salt = replicate 32 0, ac_verifier = replicate 32 0, ac_session_key = None,
      ac_joindate = ev_utc_now E, ac_last_login = None, ac_online = 0\<rparr>"

definition initiate_relogin ::
  "db_env \<Rightarrow> bytes \<Rightarrow> rstr \<Rightarrow> auth_db \<Rightarrow> (LoginFailure, ReconnectToken) res" where
  "initiate_relogin E rng username db =
     res_bind (map_err (\<lambda>_. LF_DatabaseError) (run_query E Q_relogin (relogin_rows E username db)))
       (\<lambda>rows. case rows of
          [] \<Rightarrow> Err LF_DatabaseError
        | (a, ban) # _ \<Rightarrow>
            (case ar_session_key_auth a of
               Some k \<Rightarrow>
                 if length k = 40 then Ok (ReconnectToken_new rng (relogin_account E a ban) k)
                 else Err LF_DatabaseError
             | None \<Rightarrow> Err LF_DatabaseError))"

text \<open>\<open>complete_login\<close> writes the session of the account named in its source.\<close>

definition session_username :: rstr where
  "session_username = ascii ''ARLYON''"

definition update_session :: "db_env \<Rightarrow> rstr \<Rightarrow> bytes \<Rightarrow> auth_db \<Rightarrow> auth_db" where
  "update_session E username session_key db =
     db\<lparr>db_account := map (\<lambda>r.
       if ev_text_eq E (ar_username r) username
       then r\<lparr>ar_session_key_auth := Some session_key, ar_last_ip := ascii ''0.0.0.0'',
              ar_last_login := Some (ev_db_time E), ar_locale := Locale_u8 enUS,
              ar_failed_logins := 0, ar_os := ascii ''Win''\<rparr>
       else r) (db_account db)\<rparr>"

definition complete_login ::
  "lib \<Rightarrow> db_env \<Rightarrow> ConnectToken \<Rightarrow> bytes \<Rightarrow> bytes \<Rightarrow> auth_db \<Rightarrow> (LoginFailure, bytes) res \<times> auth_db" where
  "complete_login L E token public_key client_proof db =
     (case connect_accept L token public_key client_proof of
        Panic \<Rightarrow> (Panic, db)
      | Err e \<Rightarrow> (Err e, db)
      | Ok (server_proof, session_key) \<Rightarrow>
          (case ev_fault E Q_update_session of
             Some _ \<Rightarrow> (Err LF_DatabaseError, db)
           | None \<Rightarrow> (Ok server_proof, update_session E session_username session_key db)))"

definition complete_relogin ::
  "lib \<Rightarrow> ReconnectToken \<Rightarrow> bytes \<Rightarrow> bytes \<Rightarrow> (LoginFailure, bytes) res" where
  "complete_relogin L token proof_data client_proof =
     res_bind (reconnect_accept L token proof_data client_proof) (\<lambda>_. Ok client_proof)"

text \<open>
  A duration is a number of nanoseconds; timestamps are whole seconds. A timestamp that does not
  fit the column is one of the faults of the query.
\<close>

definition timestamp :: "int \<Rightarrow> int" where
  "timestamp t = t div 1000000000"

definition set_ban ::
  "db_env \<Rightarrow> AccountId \<Rightarrow> rstr \<Rightarrow> nat option \<Rightarrow> rstr option \<Rightarrow> auth_db \<Rightarrow>
     (AccountOpError, unit) res \<times> auth_db" where
  "set_ban E account author duration reason db =
     (let bandate = ev_utc_now E;
          unbandate =
            (case duration of
               Some d \<Rightarrow> (case ev_chrono_from_std E d of
                   Some cd \<Rightarrow> ev_chrono_add E bandate cd
                 | None \<Rightarrow> None)
             | None \<Rightarrow> Some bandate)
      in case unbandate of
           None \<Rightarrow> (Panic, db)
         | Some u \<Rightarrow>
             (case ev_fault E Q_insert_ban of
                Some e \<Rightarrow> (Err (PersistError e), db)
              | None \<Rightarrow>
                  (Ok (), db\<lparr>db_account_banned := db_account_banned db @
                     [\<lparr>br_id = account, br_bandate = timestamp bandate, br_unbandate = timestamp u,
                       br_bannedby = author, br_banreason = (case reason of Some r \<Rightarrow> r | None \<Rightarrow> []),
                       br_active = ev_ban_active E\<rparr>]\<rparr>)))"

text \<open>The service as the authentication server calls it.\<close>

definition mysql_accounts :: "lib \<Rightarrow> db_env \<Rightarrow> auth_db account_ops" where
  "mysql_accounts L E = \<lparr>
     as_initiate_login = (\<lambda>rng username db. (initiate_login L E rng username db, db)),
     as_complete_login = complete_login L E,
     as_initiate_relogin = (\<lambda>rng username db. (initiate_relogin E rng username db, db)),
     as_complete_relogin = (\<lambda>t pd pr db. (complete_relogin L t pd pr, db))\<rparr>"

section \<open>Lemmas\<close>

lemma fetch_ban_mem: "fetch_ban E rows = Some b \<Longrightarrow> b \<in> set rows"
  by (auto simp: fetch_ban_def split: if_splits)

lemma fetch_ban_None [simp]: "fetch_ban E rows = None \<longleftrightarrow> rows = []"
  by (simp add: fetch_ban_def)

lemma account_bans_none [simp]: "db_account_banned db = [] \<Longrightarrow> account_bans i db = []"
  by (simp add: account_bans_def)

lemma fetch_ban_Nil [simp]: "fetch_ban E [] = None"
  by simp

lemma fetch_ban_single [simp]: "fetch_ban E [b] = Some b"
  by (simp add: fetch_ban_def)

text \<open>
  A name is barred when its account has been banned and every one of its ban rows is permanent or
  still runs, so that it does not matter which of them the service reads.
\<close>

definition name_barred :: "db_env \<Rightarrow> rstr \<Rightarrow> auth_db \<Rightarrow> bool" where
  "name_barred E username db \<longleftrightarrow>
     (\<exists>r. find (\<lambda>r. ev_text_eq E (ar_username r) username) (db_account db) = Some r \<and>
        account_bans (ar_id r) db \<noteq> [] \<and> (\<forall>b \<in> set (account_bans (ar_id r) db). ban_is_banned E b))"

lemma run_query_eq [res_simps]:
  "run_query E q rows = Ok x \<longleftrightarrow> ev_fault E q = None \<and> x = rows"
  "run_query E q rows = Err e \<longleftrightarrow> ev_fault E q = Some e"
  "run_query E q rows \<noteq> Panic"
  by (auto simp: run_query_def split: option.splits)

lemma run_query_ok [simp]: "ev_fault E q = None \<Longrightarrow> run_query E q rows = Ok rows"
  by (simp add: run_query_def)

lemma row_account_Ok: "row_account E r = Ok a \<Longrightarrow>
    ac_id a = ar_id r \<and> ac_username a = ar_username r \<and> ac_salt a = ar_salt r \<and>
    ac_verifier a = ar_verifier r \<and> ac_session_key a = ar_session_key_auth r \<and>
    ac_ban_status a = None \<and> length (ar_salt r) = 32 \<and> length (ar_verifier r) = 32"
  by (auto simp: row_account_def split: if_splits)

lemma ban_status_of_None [simp]: "ban_status_of b p = None \<longleftrightarrow> \<not> b \<and> \<not> p"
  by (simp add: ban_status_of_def)

lemma ban_perma_banned: "ban_is_permabanned b \<Longrightarrow> ban_is_banned E b"
  by (simp add: ban_is_permabanned_def ban_is_banned_def)

text \<open>What a found account tells: its row, and the ban the service saw.\<close>

lemma get_by_username_Some:
  "get_by_username E u db = Ok (Some a) \<longleftrightarrow>
     ev_fault E Q_get_by_username = None \<and> ev_fault E Q_get_ban = None \<and>
     (\<exists>r a'. find (\<lambda>r. ev_text_eq E (ar_username r) u) (db_account db) = Some r \<and>
        row_account E r = Ok a' \<and>
        a = apply_ban E (fetch_ban E (account_bans (ar_id r) db)) a')"
proof (cases "find (\<lambda>r. ev_text_eq E (ar_username r) u) (db_account db)")
  case None
  then show ?thesis by (auto simp: get_by_username_def res_bind_eq_Ok run_query_eq)
next
  case (Some r)
  have "row_account E r = Ok a' \<Longrightarrow> ac_id a' = ar_id r" for a' by (drule row_account_Ok) simp
  with Some show ?thesis
    by (auto simp: get_by_username_def res_bind_eq_Ok run_query_eq)
qed

lemma apply_ban_free:
  assumes "row_account E r = Ok a'"
  shows "ac_ban_status (apply_ban E ban a') = None \<longleftrightarrow> (\<forall>b. ban = Some b \<longrightarrow> \<not> ban_is_banned E b)"
  using row_account_Ok [OF assms] ban_perma_banned by (cases ban) (auto simp: apply_ban_def)

lemma apply_ban_fields [simp]:
  "ac_id (apply_ban E ban a) = ac_id a" "ac_username (apply_ban E ban a) = ac_username a"
  "ac_salt (apply_ban E ban a) = ac_salt a" "ac_verifier (apply_ban E ban a) = ac_verifier a"
  "ac_session_key (apply_ban E ban a) = ac_session_key a"
  by (simp_all add: apply_ban_def split: option.splits)

lemma initiate_login_Ok:
  "initiate_login L E rng u db = Ok t \<longleftrightarrow>
     (\<exists>a. get_by_username E u db = Ok (Some a) \<and> ac_ban_status a = None \<and>
        (ConnectToken_new L rng (ac_username a) (ac_salt a) (ac_verifier a)
           :: (LoginFailure, ConnectToken) res) = Ok t)" (is "?l \<longleftrightarrow> ?r")
proof
  assume ?l
  then obtain a where "get_by_username E u db = Ok (Some a)"
    and "(case ac_ban_status a of Some Permanent \<Rightarrow> Err LF_Banned | Some Temporary \<Rightarrow> Err LF_Suspended
       | None \<Rightarrow> ConnectToken_new L rng (ac_username a) (ac_salt a) (ac_verifier a)) = Ok t"
    by (auto simp: initiate_login_def res_bind_eq_Ok ok_or_eq)
  then show ?r by (auto split: option.splits BanStatus.splits)
qed (auto simp: initiate_login_def)

lemma initiate_login_not_barred:
  assumes "initiate_login L E rng u db = Ok t"
  shows "\<not> name_barred E u db"
proof
  assume "name_barred E u db"
  then obtain r where r: "find (\<lambda>r. ev_text_eq E (ar_username r) u) (db_account db) = Some r"
    "account_bans (ar_id r) db \<noteq> []" "\<forall>b \<in> set (account_bans (ar_id r) db). ban_is_banned E b"
    by (auto simp: name_barred_def)
  then obtain b where b: "fetch_ban E (account_bans (ar_id r) db) = Some b" "ban_is_banned E b"
    by (metis fetch_ban_None fetch_ban_mem not_None_eq)
  from assms r(1) obtain a' where "row_account E r = Ok a'"
    "ac_ban_status (apply_ban E (fetch_ban E (account_bans (ar_id r) db)) a') = None"
    by (auto simp: initiate_login_Ok get_by_username_Some)
  with b show False by (simp add: apply_ban_free)
qed

interpretation mysql: account_service L "mysql_accounts L E" "name_barred E" for L E
proof
  show "fst (as_complete_login (mysql_accounts L E) t pk pr d) = Ok m \<Longrightarrow>
      \<exists>k. connect_accept L t pk pr = Ok (m, k)" for t pk pr d m
    by (auto simp: mysql_accounts_def complete_login_def split: res.splits option.splits)
  show "fst (as_complete_relogin (mysql_accounts L E) rt pd pr d) = Ok m \<Longrightarrow>
      reconnect_accept L rt pd pr = Ok ()" for rt pd pr d m
    by (auto simp: mysql_accounts_def complete_relogin_def res_bind_eq_Ok)
  show "fst (as_initiate_login (mysql_accounts L E) rng u d) = Ok t \<Longrightarrow>
      \<exists>name s v. (ConnectToken_new L rng name s v :: (LoginFailure, ConnectToken) res) = Ok t"
    for rng u d t
    by (auto simp: mysql_accounts_def initiate_login_Ok)
  show "fst (as_initiate_login (mysql_accounts L E) rng u d) \<noteq> Ok t" if "name_barred E u d"
    for rng u d t
    using that initiate_login_not_barred by (auto simp: mysql_accounts_def)
  show "fst (as_initiate_relogin (mysql_accounts L E) rng u d) = Ok rt \<Longrightarrow>
      rt_reconnect_proof rt = rng" for rng u d rt
    by (auto simp: mysql_accounts_def initiate_relogin_def res_simps ReconnectToken_new_def
        split: list.splits option.splits if_splits)
qed

lemma find_append: "find P (xs @ ys) = (case find P xs of Some x \<Rightarrow> Some x | None \<Rightarrow> find P ys)"
  by (induction xs) auto

lemma find_none: "\<forall>x \<in> set xs. \<not> P x \<Longrightarrow> find P xs = None"
  by (simp add: find_None_iff)

lemma create_account_Ok:
  assumes "create_account L E rng username password email db = (Ok account, db')"
  obtains v where "(srp_register L rng (to_ascii_uppercase username) (to_ascii_uppercase password)
          :: (AccountOpError, verifier \<times> salt) res) = Ok (v, rng)"
    and "length username \<le> 16" "length password \<le> 16"
    and "account = ucast (ev_last_insert_id E)"
    and "db_account db' = db_account db @ [(ev_account_defaults E)\<lparr>ar_id := account,
           ar_username := to_ascii_uppercase username, ar_salt := rng, ar_verifier := v,
           ar_reg_mail := email, ar_email := email, ar_joindate := ev_db_time E\<rparr>]"
    and "db_realmcharacters db' = db_realmcharacters db @
           missing_realmcharacters (db\<lparr>db_account := db_account db'\<rparr>)"
    and "db_account_banned db' = db_account_banned db" "db_realmlist db' = db_realmlist db"
  using assms
  by (auto simp: create_account_def Let_def srp_register_def res_bind_eq_Ok missing_realmcharacters_def
      split: if_splits res.splits option.splits)

end
