(* ===== verification/Auth_Demo.thy ===== *)
theory Auth_Demo
  imports Mysql_Auth
begin

text \<open>
  A small database, its environment and one registered account, with the fixed digest of theory
  \<open>Wow_Srp\<close>: the concrete inputs on which the properties of the authentication side are
  instantiated.
\<close>

section \<open>A small database\<close>

definition demo_row :: account_row where
  "demo_row = \<lparr>ar_id = 1, ar_username = ascii ''AR'', ar_salt = replicate 32 0,
     ar_verifier = le_bytes 32 (7 ^ 90), ar_session_key_auth = None, ar_reg_mail = [],
     ar_email = [], ar_joindate = 100, ar_last_login = None, ar_online = 0, ar_last_ip = [],
     ar_locale = 0, ar_failed_logins = 0, ar_os = []\<rparr>"

definition demo_realm :: realm_row where
  "demo_realm = \<lparr>rr_id = 1, rr_name = ascii ''R'', rr_icon = 1, rr_gamebuild = 12340,
     rr_address = ascii ''a'', rr_localAddress = [], rr_localSubnetMask = [], rr_port = 80,
     rr_flag = 0, rr_timezone = 1, rr_population = 0\<rparr>"

definition demo_env :: db_env where
  "demo_env = \<lparr>ev_fault = (\<lambda>_. None), ev_decode_error = [], ev_text_eq = (=), ev_db_time = 100,
     ev_utc_now = 100000000000, ev_account_defaults = demo_row, ev_ban_active = 1,
     ev_realm_defaults = demo_realm, ev_last_insert_id = 1,
     ev_chrono_from_std = (\<lambda>d. Some (int d)), ev_chrono_add = (\<lambda>a b. Some (a + b)), ev_pick = (\<lambda>_. 0)\<rparr>"

definition demo_db :: auth_db where
  "demo_db = \<lparr>db_account = [], db_account_banned = [], db_realmcharacters = [],
     db_realmlist = [demo_realm], db_uptime = []\<rparr>"

definition demo_ban :: ban_row where
  "demo_ban = \<lparr>br_id = 1, br_bandate = 90, br_unbandate = 200, br_bannedby = [], br_banreason = [],
     br_active = 1\<rparr>"

lemma demo_created:
  "create_account fixed_digest_lib demo_env (replicate 32 0) (ascii ''ar'') (ascii ''t'') [] demo_db
     = (Ok 1, demo_db\<lparr>db_account := [demo_row],
         db_realmcharacters := [\<lparr>rc_realmid = 1, rc_acctid = 1, rc_numchars = 0\<rparr>]\<rparr>)"
proof -
  have up: "to_ascii_uppercase (ascii ''ar'') = ascii ''AR''" "to_ascii_uppercase (ascii ''t'') = ascii ''T''"
    by (simp_all add: to_ascii_uppercase_def ascii_def u8_ascii_upper_def)
  have "length (ascii ''ar'') = 2" "length (ascii ''t'') = 1" by (simp_all add: ascii_def)
  then show ?thesis
    by (simp add: create_account_def Let_def srp_register_def fixed_digest_credentials up
        demo_env_def demo_row_def demo_realm_def demo_db_def missing_realmcharacters_def)
qed

lemma demo_login:
  "initiate_login fixed_digest_lib demo_env (replicate 31 0 @ [1]) (ascii ''AR'')
     (demo_db\<lparr>db_account := [demo_row], db_realmcharacters := cs\<rparr>) = Ok \<lparr>ct_server = fixed_digest_server, ct_security_flags = 0\<rparr>"
  unfolding initiate_login_Ok get_by_username_Some
  by (rule exI [of _ "\<lparr>ac_id = 1, ac_username = ascii ''AR'', ac_email = [], ac_ban_status = None,
        ac_salt = replicate 32 0, ac_verifier = le_bytes 32 (7 ^ 90), ac_session_key = None,
        ac_joindate = 100, ac_last_login = None, ac_online = 0\<rparr>"])
    (simp add: demo_db_def demo_env_def demo_row_def row_account_def apply_ban_def
      ConnectToken_new_def srp_new_def fixed_digest_new [simplified])

lemma fixed_digest_accepts:
  "\<exists>m k. connect_accept fixed_digest_lib \<lparr>ct_server = fixed_digest_server, ct_security_flags = 0\<rparr>
     (client_a_pub fixed_digest_lib 0) (90 # replicate 19 0) = Ok (m, k)"
proof -
  let ?k = "sha_interleave fixed_digest_lib (le_bytes 32
      (server_secret fixed_digest_lib fixed_digest_server (client_a_pub fixed_digest_lib 0)))"
  have a: "le_val (client_a_pub fixed_digest_lib 0) = 1"
    by (simp add: client_a_pub_def fixed_digest.srp_N_val le_val_le_bytes)
  have u: "le_val (sha1 fixed_digest_lib (client_a_pub fixed_digest_lib 0 @ srp_b_pub fixed_digest_server)) = 1"
    by (simp add: fixed_digest_sha1 client_a_pub_def fixed_digest_server_def)
  have s: "server_secret fixed_digest_lib fixed_digest_server (client_a_pub fixed_digest_lib 0) = 7 ^ 90"
    unfolding server_secret_def a u
    by (simp add: fixed_digest_server_def fixed_digest.srp_N_val le_val_le_bytes)
  have p: "srp_proof fixed_digest_lib i sa ap bp k = 90 # replicate 19 0" if "length ap = 32" "length bp = 32" for i sa ap bp k
    using that by (simp add: srp_proof_def fixed_digest_sha1 hn_xor_hg_def)
  have "(verify_challenge_response fixed_digest_lib fixed_digest_server (client_a_pub fixed_digest_lib 0)
      (90 # replicate 19 0) :: (LoginFailure, bytes option) res) = Ok (Some ?k)"
    unfolding fixed_digest.verify_eq Let_def s
    by (simp add: a fixed_digest.srp_N_val p client_a_pub_def fixed_digest_server_def le_val_le_bytes)
  then have "connect_accept fixed_digest_lib \<lparr>ct_server = fixed_digest_server, ct_security_flags = 0\<rparr>
     (client_a_pub fixed_digest_lib 0) (90 # replicate 19 0) =
     Ok (sha1 fixed_digest_lib (client_a_pub fixed_digest_lib 0 @ (90 # replicate 19 0) @ ?k), ?k)"
    by (simp add: connect_accept_Ok get_server_proof_def fixed_digest.sha1_length)
  then show ?thesis by blast
qed

end
