(* ===== verification/Login_Props.thy ===== *)
theory Login_Props
  imports Auth_Demo
begin

text \<open>
  Properties of the account service: registration followed by a login, bans, the session the
  service stores, and the invariant of the tables. The witnesses run on the small database
  of theory \<open>Auth_Demo\<close>.
\<close>

section \<open>Registration and login\<close>

lemma registered_row:
  assumes created: "create_account L E rng username password email db = (Ok account, db')"
    and fresh: "\<forall>r \<in> set (db_account db). \<not> ev_text_eq E (ar_username r) (to_ascii_uppercase username)"
    and same: "ev_text_eq E (to_ascii_uppercase username) (to_ascii_uppercase username)"
  obtains v where "(from_credentials L (to_ascii_uppercase username) (to_ascii_uppercase password) rng
        :: (AccountOpError, verifier) res) = Ok v"
    and "find (\<lambda>r. ev_text_eq E (ar_username r) (to_ascii_uppercase username)) (db_account db') =
      Some ((ev_account_defaults E)\<lparr>ar_id := account, ar_username := to_ascii_uppercase username, ar_salt := rng,
        ar_verifier := v, ar_reg_mail := email, ar_email := email, ar_joindate := ev_db_time E\<rparr>)"
  using created
proof (rule create_account_Ok)
  fix v
  assume "(srp_register L rng (to_ascii_uppercase username) (to_ascii_uppercase password)
        :: (AccountOpError, verifier \<times> salt) res) = Ok (v, rng)"
    and rows: "db_account db' = db_account db @ [(ev_account_defaults E)\<lparr>ar_id := account,
           ar_username := to_ascii_uppercase username, ar_salt := rng, ar_verifier := v, ar_reg_mail := email,
           ar_email := email, ar_joindate := ev_db_time E\<rparr>]"
  then show thesis
    using that [of v] fresh same by (simp add: srp_register_def res_bind_eq_Ok rows find_append find_none)
qed

lemma create_account_unbanned:
  "create_account L E rng username password email db = (Ok account, db') \<Longrightarrow> db_account_banned db' = db_account_banned db"
  by (elim create_account_Ok)

text \<open>
  The server's public key for secret \<open>b\<close> and the verifier \<open>v\<close>, and the login of a freshly
  registered account: the challenge is handed out, and the proof of the password is accepted.
\<close>

definition server_key :: "lib \<Rightarrow> bytes \<Rightarrow> nat \<Rightarrow> nat" where
  "server_key L b x = (7 ^ le_val (rev b) + 3 * (7 ^ x mod srp_N L)) mod srp_N L"

lemma registered_login:
  assumes "srp_libs L"
    and created: "create_account L E rng username password email db = (Ok account, db')"
    and fresh: "\<forall>r \<in> set (db_account db). \<not> ev_text_eq E (ar_username r) (to_ascii_uppercase username)"
    and same: "ev_text_eq E (to_ascii_uppercase username) (to_ascii_uppercase username)"
    and "\<forall>b \<in> set (db_account_banned db). br_id b \<noteq> account"
    and "ev_fault E Q_get_by_username = None" and "ev_fault E Q_get_ban = None"
    and "length rng = 32" and "ar_session_key_auth (ev_account_defaults E) = None"
    and "x = client_x L (to_ascii_uppercase username) (to_ascii_uppercase password) rng"
    and "B = server_key L b x" and "256 ^ 31 \<le> B"
    and "a_pub = client_a_pub L a"
    and "secret = client_secret L x a (le_val (sha1 L (a_pub @ le_bytes 32 B))) B"
    and "256 ^ 31 \<le> secret" and "k = sha_interleave L (le_bytes 32 secret)"
    and "m1 = srp_proof L (sha1 L (to_ascii_uppercase username)) rng a_pub (le_bytes 32 B) k"
  shows "\<exists>t. initiate_login L E b (to_ascii_uppercase username) db' = Ok t \<and>
    srp_salt (ct_server t) = rng \<and> srp_b_pub (ct_server t) = le_bytes 32 B \<and>
    connect_accept L t a_pub m1 = Ok (sha1 L (a_pub @ m1 @ k), k)"
proof -
  let ?u = "to_ascii_uppercase username"
  have big: "bignum_lib L" and sh: "sha1_lib L" using assms(1) by (simp_all add: srp_libs_def)
  have n: "m mod srp_N L < 256 ^ 32" for m
    using bignum_lib.srp_N_bounds [OF big] by (meson less_trans mod_less_divisor zero_less_one)
  from registered_row [OF created fresh same] obtain v where
    cred: "(from_credentials L ?u (to_ascii_uppercase password) rng :: (AccountOpError, verifier) res) = Ok v"
    and row: "find (\<lambda>r. ev_text_eq E (ar_username r) ?u) (db_account db') =
      Some ((ev_account_defaults E)\<lparr>ar_id := account, ar_username := ?u, ar_salt := rng, ar_verifier := v,
        ar_reg_mail := email, ar_email := email, ar_joindate := ev_db_time E\<rparr>)" (is "_ = Some ?row") .
  have v: "v = le_bytes 32 (7 ^ x mod srp_N L)"
    using cred by (auto simp: srp_libs.from_credentials_eq [OF assms(1)] Let_def assms(10) split: if_splits)
  have B: "le_val (le_bytes 32 B) = B" using n by (simp add: assms(11) server_key_def le_val_le_bytes)
  have "(calculate_b_pub L b v :: (LoginFailure, bytes) res) = Ok (le_bytes 32 B)"
    using assms(12) n
    by (simp add: srp_libs.calculate_b_pub_eq [OF assms(1)] v le_val_le_bytes assms(11) server_key_def)
  then obtain srv where srv: "(new_with_b L ?u rng v b :: (LoginFailure, WowSRPServer) res) = Ok srv"
    and pub: "srp_b_pub srv = le_bytes 32 B" "srp_salt srv = rng"
    by (auto simp: srp_libs.new_with_b_eq [OF assms(1)])
  obtain a' where a': "row_account E ?row = Ok a'"
    using assms(8,9) v by (simp add: row_account_def)
  have bans: "account_bans account db' = []"
    using assms(5) by (auto simp: account_bans_def create_account_unbanned [OF created])
  define t where "t = \<lparr>ct_server = srv, ct_security_flags = 0\<rparr>"
  have login: "initiate_login L E b ?u db' = Ok t"
    unfolding initiate_login_Ok get_by_username_Some
    using row a' srv assms(6,7) bans row_account_Ok [OF a']
    by (auto simp: apply_ban_def fetch_ban_def ConnectToken_new_def srp_new_def t_def)
  have "(verify_challenge_response L srv a_pub m1 :: (LoginFailure, bytes option) res) = Ok (Some k)"
    unfolding assms(17) pub(1) [symmetric]
    by (rule honest_client_verified [OF assms(1) cred srv assms(13) _ assms(15,16)])
      (simp only: assms(10,14) pub(1) B)
  moreover have "length (sha1 L m) = 20" for m using sh by (simp add: sha1_lib.sha1_length)
  ultimately have "connect_accept L t a_pub m1 = Ok (sha1 L (a_pub @ m1 @ k), k)"
    by (simp add: connect_accept_Ok get_server_proof_def t_def)
  with login pub show ?thesis by (intro exI [of _ t]) (simp add: t_def)
qed

text \<open>
  C8. A registered account can log in. After \<open>create_account\<close> succeeds under a name no other
  account has, and with no ban for its identifier, \<open>initiate_login\<close> for the upper-case name hands out a
  token with the stored salt and the public key of the server's secret and the stored verifier, and
  the proof of a client that knows the password (in upper case) is accepted: the answer is the server
  proof over the client's own session key. The database must answer, and the public key and the
  shared secret must have 32 significant bytes.
\<close>

theorem register_then_login:
  assumes "srp_libs L"
    and "create_account L E rng username password email db = (Ok account, db')"
    and "\<forall>r \<in> set (db_account db). \<not> ev_text_eq E (ar_username r) (to_ascii_uppercase username)"
    and "ev_text_eq E (to_ascii_uppercase username) (to_ascii_uppercase username)"
    and "\<forall>b \<in> set (db_account_banned db). br_id b \<noteq> account"
    and "ev_fault E Q_get_by_username = None" and "ev_fault E Q_get_ban = None"
    and "length rng = 32" and "ar_session_key_auth (ev_account_defaults E) = None"
    and "x = client_x L (to_ascii_uppercase username) (to_ascii_uppercase password) rng"
    and "B = (7 ^ le_val (rev b) + 3 * (7 ^ x mod srp_N L)) mod srp_N L" and "256 ^ 31 \<le> B"
    and "a_pub = client_a_pub L a"
    and "secret = client_secret L x a (le_val (sha1 L (a_pub @ le_bytes 32 B))) B"
    and "256 ^ 31 \<le> secret" and "k = sha_interleave L (le_bytes 32 secret)"
    and "m1 = srp_proof L (sha1 L (to_ascii_uppercase username)) rng a_pub (le_bytes 32 B) k"
  shows "\<exists>t. initiate_login L E b (to_ascii_uppercase username) db' = Ok t \<and>
    srp_salt (ct_server t) = rng \<and> srp_b_pub (ct_server t) = le_bytes 32 B \<and>
    connect_accept L t a_pub m1 = Ok (sha1 L (a_pub @ m1 @ k), k)"
  using assms by (intro registered_login) (simp_all add: server_key_def)

theorem register_then_login_witness:
  "\<exists>t m1 m2 k. initiate_login fixed_digest_lib demo_env (replicate 31 0 @ [1]) (ascii ''AR'')
       (snd (create_account fixed_digest_lib demo_env (replicate 32 0) (ascii ''ar'') (ascii ''t'') [] demo_db)) = Ok t \<and>
     connect_accept fixed_digest_lib t (client_a_pub fixed_digest_lib 0) m1 = Ok (m2, k)"
proof -
  have up: "to_ascii_uppercase (ascii ''ar'') = ascii ''AR''" "to_ascii_uppercase (ascii ''t'') = ascii ''T''"
    by (simp_all add: to_ascii_uppercase_def ascii_def u8_ascii_upper_def)
  have x: "90 = client_x fixed_digest_lib (to_ascii_uppercase (ascii ''ar'')) (to_ascii_uppercase (ascii ''t'')) (replicate 32 0)"
    by (simp add: up fixed_digest_x)
  let ?B = "7 + 3 * 7 ^ 90 :: nat"
  have B: "?B = (7 ^ le_val (rev (replicate 31 0 @ [1])) + 3 * (7 ^ 90 mod srp_N fixed_digest_lib)) mod srp_N fixed_digest_lib"
    by (simp add: fixed_digest.srp_N_val)
  have s: "7 ^ 90 = client_secret fixed_digest_lib 90 0
      (le_val (sha1 fixed_digest_lib (client_a_pub fixed_digest_lib 0 @ le_bytes 32 ?B))) ?B"
    using fixed_digest_secret
    by (simp add: fixed_digest_sha1 client_a_pub_def fixed_digest_server_def le_val_le_bytes)
  from register_then_login [OF fixed_digest.srp_libs_axioms demo_created _ _ _ _ _ _ _ x B _ refl s _ refl refl]
  obtain t where "initiate_login fixed_digest_lib demo_env (replicate 31 0 @ [1]) (to_ascii_uppercase (ascii ''ar''))
      (snd (create_account fixed_digest_lib demo_env (replicate 32 0) (ascii ''ar'') (ascii ''t'') [] demo_db)) = Ok t"
    "\<exists>m1 m2 k. connect_accept fixed_digest_lib t (client_a_pub fixed_digest_lib 0) m1 = Ok (m2, k)"
    by (simp add: demo_created) (fastforce simp: demo_db_def demo_env_def demo_row_def)
  then show ?thesis unfolding up by blast
qed

section \<open>Bans\<close>

text \<open>
  C13. A ban stops a login. For an account that has been banned, and all of whose ban rows are in force (a
  single one, most often), \<open>initiate_login\<close> answers \<open>Banned\<close> or \<open>Suspended\<close>, by whether the row it
  reads is permanent, and never hands out a token. The query asks for the rows of the account in no order and
  reads one of them: with a row that is over beside one that runs there is no such promise.
\<close>

theorem barred_name_cannot_login:
  assumes "find (\<lambda>r. ev_text_eq E (ar_username r) username) (db_account db) = Some r"
    and "row_account E r = Ok a"
    and "account_bans (ar_id r) db \<noteq> []" and "\<forall>b \<in> set (account_bans (ar_id r) db). ban_is_banned E b"
    and "ev_fault E Q_get_by_username = None" "ev_fault E Q_get_ban = None"
  shows "\<exists>b \<in> set (db_account_banned db). br_id b = ar_id r \<and> initiate_login L E rng username db =
    Err (if br_unbandate b = br_bandate b then LF_Banned else LF_Suspended)"
proof -
  obtain b where b: "fetch_ban E (account_bans (ar_id r) db) = Some b"
    using assms(3) by (metis fetch_ban_None not_None_eq)
  then have mem: "b \<in> set (account_bans (ar_id r) db)" by (rule fetch_ban_mem)
  have "get_by_username E username db = Ok (Some (apply_ban E (Some b) a))"
    using assms(1,2,5,6) b by (auto simp: get_by_username_Some)
  then have "initiate_login L E rng username db =
      Err (if br_unbandate b = br_bandate b then LF_Banned else LF_Suspended)"
    using assms(4) mem
    by (simp add: initiate_login_def apply_ban_def ban_status_of_def ban_is_permabanned_def)
  with mem show ?thesis by (auto simp: account_bans_def)
qed

theorem barred_name_cannot_login_witness:
  "initiate_login fixed_digest_lib demo_env (replicate 32 0) (ascii ''AR'')
     (demo_db\<lparr>db_account := [demo_row], db_account_banned := [demo_ban]\<rparr>) = Err LF_Suspended"
proof -
  let ?db = "demo_db\<lparr>db_account := [demo_row], db_account_banned := [demo_ban]\<rparr>"
  obtain a where a: "row_account demo_env demo_row = Ok a" by (simp add: row_account_def demo_row_def)
  have "find (\<lambda>r. ev_text_eq demo_env (ar_username r) (ascii ''AR'')) (db_account ?db) = Some demo_row"
    by (simp add: demo_env_def demo_row_def)
  from barred_name_cannot_login [OF this a, of fixed_digest_lib "replicate 32 0"] show ?thesis
    by (simp add: account_bans_def demo_env_def demo_row_def demo_ban_def ban_is_banned_def)
qed

text \<open>
  Where a ban of the account is over, whatever the others say, the database may give that row first,
  and the login goes on as if there were no ban.
\<close>

lemma running_ban_missed:
  assumes "find (\<lambda>r. ev_text_eq E (ar_username r) username) (db_account db) = Some r"
    and "row_account E r = Ok a" and "b \<in> set (account_bans (ar_id r) db)" and "\<not> ban_is_banned E b"
    and "ev_fault E Q_get_by_username = None" "ev_fault E Q_get_ban = None"
  shows "\<exists>pick. initiate_login L (E\<lparr>ev_pick := pick\<rparr>) rng username db =
    ConnectToken_new L rng (ac_username a) (ac_salt a) (ac_verifier a)"
proof -
  let ?bs = "account_bans (ar_id r) db"
  from assms(3) obtain i where i: "i < length ?bs" "?bs ! i = b" by (auto simp: in_set_conv_nth)
  let ?E = "E\<lparr>ev_pick := \<lambda>_. i\<rparr>"
  have "fetch_ban ?E ?bs = Some b" using i assms(3) by (auto simp: fetch_ban_def)
  moreover have "row_account ?E r = row_account E r" by (simp add: row_account_def)
  then have "row_account ?E r = Ok a" using assms(2) by simp
  ultimately have "get_by_username ?E username db = Ok (Some (apply_ban ?E (Some b) a))"
    using assms(1,5,6) by (auto simp: get_by_username_Some)
  moreover have "ac_ban_status (apply_ban ?E (Some b) a) = None"
    using assms(4) by (auto simp: apply_ban_def ban_is_banned_def ban_is_permabanned_def)
  ultimately have "initiate_login L ?E rng username db = ConnectToken_new L rng (ac_username a) (ac_salt a) (ac_verifier a)"
    by (simp add: initiate_login_def)
  then show ?thesis by blast
qed

lemma relogin_rows_first:
  "(\<exists>a ban rest. relogin_rows E username d = (a, ban) # rest \<and> P a) \<longleftrightarrow>
     (\<exists>a rest. filter (\<lambda>a. ev_text_eq E (ar_username a) username \<and> ar_session_key_auth a \<noteq> None)
        (db_account d) = a # rest \<and> P a)"
proof (cases "filter (\<lambda>a. ev_text_eq E (ar_username a) username \<and> ar_session_key_auth a \<noteq> None)
    (db_account d)")
  case Nil
  then show ?thesis unfolding relogin_rows_def Nil by simp
next
  case (Cons a as)
  obtain ban rest where "relogin_rows E username d = (a, ban) # rest"
    unfolding relogin_rows_def Cons
    by (cases "filter (\<lambda>b. br_id b = ar_id a \<and> br_active b = 1) (db_account_banned d)")
      (simp_all add: Let_def)
  with Cons show ?thesis by simp
qed

text \<open>
  C21. A ban does not stop a reconnect: whether \<open>initiate_relogin\<close> hands out a token does not
  depend on the table of bans at all, because the ban status it computes is never looked at.
\<close>

theorem relogin_ignores_bans:
  "(\<exists>t. initiate_relogin E rng username (db\<lparr>db_account_banned := bans\<rparr>) = Ok t) \<longleftrightarrow>
   (\<exists>t. initiate_relogin E rng username db = Ok t)"
proof -
  have first: "(\<exists>a ban rest. relogin_rows E username d = (a, ban) # rest \<and> P a) \<longleftrightarrow>
     (\<exists>a rest. filter (\<lambda>a. ev_text_eq E (ar_username a) username \<and> ar_session_key_auth a \<noteq> None)
        (db_account d) = a # rest \<and> P a)" for d P
    by (rule relogin_rows_first)
  have "(\<exists>t. initiate_relogin E rng username d = Ok t) \<longleftrightarrow>
     ev_fault E Q_relogin = None \<and>
     (\<exists>a ban rest. relogin_rows E username d = (a, ban) # rest \<and>
        (\<exists>k. ar_session_key_auth a = Some k \<and> length k = 40))" for d
    by (auto simp: initiate_relogin_def res_bind_eq_Ok run_query_eq
        split: list.splits option.splits)
  then show ?thesis unfolding first by simp
qed

text \<open>What a later lookup sees of a ban set for an account that had none.\<close>

lemma set_ban_seen:
  assumes "set_ban E account author duration reason db = (Ok (), db')"
    and "\<And>d. duration = Some d \<Longrightarrow> ev_chrono_from_std E d = Some (int d) \<and>
      ev_chrono_add E (ev_utc_now E) (int d) = Some (ev_utc_now E + int d)"
    and "\<forall>b \<in> set (db_account_banned db). br_id b \<noteq> account"
    and "get_by_username E' username db' = Ok (Some a)" and "ac_id a = account"
  shows "ac_ban_status a =
    (case duration of
       None \<Rightarrow> Some Permanent
     | Some d \<Rightarrow>
         if timestamp (ev_utc_now E + int d) = timestamp (ev_utc_now E) then Some Permanent
         else if ev_db_time E' < timestamp (ev_utc_now E + int d) then Some Temporary
         else None)"
proof -
  define u where "u = (case duration of None \<Rightarrow> ev_utc_now E | Some d \<Rightarrow> ev_utc_now E + int d)"
  define new where "new = \<lparr>br_id = account, br_bandate = timestamp (ev_utc_now E),
     br_unbandate = timestamp u, br_bannedby = author,
     br_banreason = (case reason of Some r \<Rightarrow> r | None \<Rightarrow> []), br_active = ev_ban_active E\<rparr>"
  have bans: "db_account_banned db' = db_account_banned db @ [new]"
    using assms(1,2)
    by (auto simp: set_ban_def Let_def u_def new_def split: option.splits)
  then have ban: "account_bans account db' = [new]"
    using assms(3) by (simp add: account_bans_def filter_empty_conv new_def)
  from assms(4) obtain r a' where "row_account E' r = Ok a'"
    and "a = apply_ban E' (fetch_ban E' (account_bans (ar_id r) db')) a'"
    by (auto simp: get_by_username_Some)
  moreover from this assms(5) have "ar_id r = account" by (auto dest!: row_account_Ok)
  ultimately have "ac_ban_status a = ban_status_of (ban_is_banned E' new) (ban_is_permabanned new)"
    using ban by (simp add: apply_ban_def)
  then show ?thesis
    by (simp add: ban_status_of_def ban_is_banned_def ban_is_permabanned_def new_def u_def
        split: option.splits)
qed

text \<open>
  What a ban set through \<open>set_ban\<close> means to a later login. For an account without an
  earlier ban row: without a duration it is permanent; with one it is temporary and runs out
  when the database clock reaches its end, except that a ban whose end falls into the second in
  which it starts is stored as a permanent one, since timestamps are whole seconds and equal
  dates mark a permanent ban.
\<close>

lemma set_ban_effect:
  assumes "set_ban E account author duration reason db = (Ok (), db')"
    and "\<And>d. duration = Some d \<Longrightarrow> ev_chrono_from_std E d = Some (int d) \<and>
      ev_chrono_add E (ev_utc_now E) (int d) = Some (ev_utc_now E + int d)"
    and "\<forall>b \<in> set (db_account_banned db). br_id b \<noteq> account"
    and "get_by_username E' username db' = Ok (Some a)" and "ac_id a = account"
  shows "ac_ban_status a =
    (case duration of
       None \<Rightarrow> Some Permanent
     | Some d \<Rightarrow>
         if timestamp (ev_utc_now E + int d) = timestamp (ev_utc_now E) then Some Permanent
         else if ev_db_time E' < timestamp (ev_utc_now E + int d) then Some Temporary
         else None)"
  using assms by (rule set_ban_seen)

lemma set_ban_effect_witness:
  "\<exists>a. get_by_username demo_env (ascii ''AR'')
     (snd (set_ban demo_env 1 [] (Some 0) None (demo_db\<lparr>db_account := [demo_row]\<rparr>))) = Ok (Some a) \<and>
     ac_ban_status a = Some Permanent"
proof -
  let ?db = "demo_db\<lparr>db_account := [demo_row]\<rparr>"
  have banned: "set_ban demo_env 1 [] (Some 0) None ?db = (Ok (), snd (set_ban demo_env 1 [] (Some 0) None ?db))"
    by (simp add: set_ban_def demo_env_def)
  obtain a where a: "get_by_username demo_env (ascii ''AR'')
     (snd (set_ban demo_env 1 [] (Some 0) None ?db)) = Ok (Some a)" and "ac_id a = 1"
    by (simp add: set_ban_def demo_env_def demo_db_def demo_row_def get_by_username_def row_account_def)
  with set_ban_effect [OF banned _ _ a] show ?thesis
    by (auto simp: demo_env_def demo_db_def)
qed

section \<open>Sessions and tables\<close>

text \<open>
  C20. The session a login stores. A completed login gives the server proof of an accepted
  client proof, and stores the session key (with the login's other columns) in the rows whose
  name equals the constant \<open>ARLYON\<close>, whichever account the token was made for: every other
  row, that of the account logging in included, is left as it was.
\<close>

theorem login_session_row:
  assumes "complete_login L E token public_key client_proof db = (Ok server_proof, db')"
  shows "\<exists>k. connect_accept L token public_key client_proof = Ok (server_proof, k) \<and>
    length (db_account db') = length (db_account db) \<and>
    (\<forall>i < length (db_account db).
       (ev_text_eq E (ar_username (db_account db ! i)) (ascii ''ARLYON'') \<longrightarrow>
          ar_session_key_auth (db_account db' ! i) = Some k) \<and>
       (\<not> ev_text_eq E (ar_username (db_account db ! i)) (ascii ''ARLYON'') \<longrightarrow>
          db_account db' ! i = db_account db ! i)) \<and>
    db_account_banned db' = db_account_banned db"
  using assms
  by (auto simp: complete_login_def update_session_def session_username_def
      split: res.splits option.splits)

theorem login_session_row_witness:
  "db_account (snd (complete_login fixed_digest_lib demo_env
     \<lparr>ct_server = fixed_digest_server, ct_security_flags = 0\<rparr> (client_a_pub fixed_digest_lib 0)
     (90 # replicate 19 0) (demo_db\<lparr>db_account := [demo_row]\<rparr>))) = [demo_row]"
proof -
  obtain m k where acc: "connect_accept fixed_digest_lib
      \<lparr>ct_server = fixed_digest_server, ct_security_flags = 0\<rparr> (client_a_pub fixed_digest_lib 0)
      (90 # replicate 19 0) = Ok (m, k)" using fixed_digest_accepts by blast
  let ?r = "complete_login fixed_digest_lib demo_env
     \<lparr>ct_server = fixed_digest_server, ct_security_flags = 0\<rparr> (client_a_pub fixed_digest_lib 0)
     (90 # replicate 19 0) (demo_db\<lparr>db_account := [demo_row]\<rparr>)"
  have "?r = (Ok m, snd ?r)" by (simp add: complete_login_def acc demo_env_def)
  from login_session_row [OF this] have "length (db_account (snd ?r)) = 1"
    and "db_account (snd ?r) ! 0 = demo_row"
    by (auto simp: demo_env_def demo_row_def ascii_def)
  then show ?thesis by (cases "db_account (snd ?r)") auto
qed

text \<open>
  Creating an account. It succeeds only for names and passwords of at most 16 bytes. The
  identifier is then the one the database gave, the one new row carries the upper-case name and the salt and verifier of the upper-case credentials, and every realm has a
  character-count row for the new account (whose identifier had none before).
\<close>

lemma create_account_rows:
  assumes "create_account L E rng username password email db = (Ok account, db')"
    and "\<forall>c \<in> set (db_realmcharacters db). rc_acctid c \<noteq> account"
  shows "length username \<le> 16 \<and> length password \<le> 16 \<and>
    account = ucast (ev_last_insert_id E) \<and>
    (\<exists>r. db_account db' = db_account db @ [r] \<and> ar_id r = account \<and>
    ar_username r = to_ascii_uppercase username \<and>
    (srp_register L rng (to_ascii_uppercase username) (to_ascii_uppercase password)
       :: (AccountOpError, verifier \<times> salt) res) = Ok (ar_verifier r, ar_salt r) \<and>
    (\<forall>q \<in> set (db_realmlist db). \<lparr>rc_realmid = rr_id q, rc_acctid = account, rc_numchars = 0\<rparr>
       \<in> set (db_realmcharacters db')))"
proof -
  from assms(1) obtain v where reg: "(srp_register L rng (to_ascii_uppercase username)
        (to_ascii_uppercase password) :: (AccountOpError, verifier \<times> salt) res) = Ok (v, rng)"
    and len: "length username \<le> 16" "length password \<le> 16"
    and acct: "account = ucast (ev_last_insert_id E)"
    and rows: "db_account db' = db_account db @ [(ev_account_defaults E)\<lparr>ar_id := account,
           ar_username := to_ascii_uppercase username, ar_salt := rng, ar_verifier := v,
           ar_reg_mail := email, ar_email := email, ar_joindate := ev_db_time E\<rparr>]"
    and chars: "db_realmcharacters db' = db_realmcharacters db @
           missing_realmcharacters (db\<lparr>db_account := db_account db'\<rparr>)"
    by (rule create_account_Ok)
  have "\<lparr>rc_realmid = rr_id q, rc_acctid = account, rc_numchars = 0\<rparr> \<in> set (db_realmcharacters db')"
    if "q \<in> set (db_realmlist db)" for q
    using that assms(2)
    by (auto simp: chars missing_realmcharacters_def rows list_ex_iff intro!: bexI [of _ q])
  with reg len acct rows show ?thesis by simp
qed

lemma create_account_rows_witness:
  "\<exists>r. db_account (snd (create_account fixed_digest_lib demo_env (replicate 32 0) (ascii ''ar'')
     (ascii ''t'') [] demo_db)) = [r] \<and> ar_id r = 1"
  using create_account_rows [OF demo_created] unfolding demo_created by (auto simp: demo_db_def)

text \<open>
  The tables stay well formed: salts and verifiers of 32 bytes and session keys of 40, the
  sizes the decoding of an account asks for. Every operation of the service keeps that, on its
  error paths too, so every stored account can be read back.
\<close>

definition account_row_wf :: "account_row \<Rightarrow> bool" where
  "account_row_wf r \<longleftrightarrow> length (ar_salt r) = 32 \<and> length (ar_verifier r) = 32 \<and>
     (\<forall>k. ar_session_key_auth r = Some k \<longrightarrow> length k = 40)"

definition accounts_wf :: "auth_db \<Rightarrow> bool" where
  "accounts_wf db \<longleftrightarrow> (\<forall>r \<in> set (db_account db). account_row_wf r)"

lemma row_account_wf: "account_row_wf r \<Longrightarrow> \<exists>a. row_account E r = Ok a"
  by (auto simp: row_account_def account_row_wf_def split: option.splits)

lemma create_account_wf:
  assumes "srp_libs L" "length rng = 32" "\<forall>k. ar_session_key_auth (ev_account_defaults E) = Some k \<longrightarrow> length k = 40"
    and "accounts_wf db"
  shows "accounts_wf (snd (create_account L E rng username password email db))"
proof -
  have "length v = 32 \<and> length s = 32"
    if "(srp_register L rng u p :: (AccountOpError, verifier \<times> salt) res) = Ok (v, s)" for u p v s
    using that assms(2)
    by (auto simp: srp_register_def srp_libs.from_credentials_eq [OF assms(1)] res_bind_eq_Ok Let_def
        split: if_splits)
  with assms(3,4) show ?thesis
    by (auto simp: create_account_def accounts_wf_def account_row_wf_def Let_def
        split: res.splits option.splits)
qed

lemma complete_login_wf:
  assumes "srp_libs L" and "accounts_wf db"
  shows "accounts_wf (snd (complete_login L E t pk pr db))"
  using assms(2) accepted_key_length [OF assms(1)]
  by (fastforce simp: complete_login_def update_session_def accounts_wf_def account_row_wf_def
      split: res.splits option.splits)

lemma account_operations_keep_wf:
  assumes "srp_libs L" and "accounts_wf db" and "length rng = 32"
    and "\<forall>k. ar_session_key_auth (ev_account_defaults E) = Some k \<longrightarrow> length k = 40"
  shows "accounts_wf (snd (create_account L E rng username password email db)) \<and>
    accounts_wf (snd (complete_login L E t pk pr db)) \<and>
    accounts_wf (snd (set_ban E account author duration reason db)) \<and>
    accounts_wf (snd (delete_account E account db)) \<and>
    (\<forall>r \<in> set (db_account db). \<exists>a. row_account E r = Ok a)"
proof (intro conjI ballI)
  show "accounts_wf (snd (create_account L E rng username password email db))"
    using assms by (intro create_account_wf)
  show "accounts_wf (snd (complete_login L E t pk pr db))"
    using assms by (intro complete_login_wf)
  show "accounts_wf (snd (set_ban E account author duration reason db))"
    using assms(2) by (auto simp: set_ban_def accounts_wf_def Let_def split: option.splits)
  show "accounts_wf (snd (delete_account E account db))"
    using assms(2) by (auto simp: delete_account_def Let_def split: res.splits)
  show "\<exists>a. row_account E r = Ok a" if "r \<in> set (db_account db)" for r
    using that assms(2) by (auto simp: accounts_wf_def intro: row_account_wf)
qed

lemma account_operations_keep_wf_witness:
  "accounts_wf (snd (create_account ref_lib demo_env (replicate 32 3) (ascii ''a'') (ascii ''b'') [] demo_db))"
  using account_operations_keep_wf [OF ref_libs.srp_libs_axioms, of demo_db "replicate 32 3" demo_env]
  by (simp add: demo_db_def demo_env_def demo_row_def accounts_wf_def)

end
