(* ===== verification/Mysql_Realms.thy ===== *)
theory Mysql_Realms
  imports Auth_Demo
begin

text \<open>
  The crate \<open>mysql-auth\<close>, realms (realms.rs): the realm list over the authentication database
  with its cache. The state holds the tables and the fields of \<open>MySQLRealmList\<close>; since the
  account service and the realm list of a server share one database, the account operations
  are lifted to this state here. Times are nanoseconds since the epoch, unbounded where
  \<open>SystemTime\<close> holds \<open>2 ^ 63\<close> seconds. The primary keys the two upserts rely on are those of
  the tables: \<open>id\<close> for realmlist, \<open>realmid\<close> with \<open>starttime\<close> for uptime.
\<close>

section \<open>State and operations (mysql-auth/src/realms.rs)\<close>

record mysql_state =
  my_db :: auth_db
  my_next_update :: int
  my_update_interval :: nat
  my_realms :: "Realm list"

definition MySQLRealmList_new :: "db_env \<Rightarrow> auth_db \<Rightarrow> nat \<Rightarrow> mysql_state" where
  "MySQLRealmList_new E db update_interval =
     \<lparr>my_db = db, my_next_update = ev_utc_now E, my_update_interval = update_interval, my_realms = []\<rparr>"

text \<open>The derived decoding of \<open>RealmType\<close> refuses a column that holds none of its values.\<close>

definition RealmType_decode :: "db_env \<Rightarrow> u8 \<Rightarrow> (rstr, RealmType) res" where
  "RealmType_decode E icon =
     (if icon = 0 then Ok RT_Normal else if icon = 1 then Ok RT_PVP else if icon = 6 then Ok RT_RP
      else if icon = 8 then Ok RT_RPPvP else Err (ev_decode_error E))"

definition row_realm :: "db_env \<Rightarrow> realm_row \<Rightarrow> (rstr, Realm) res" where
  "row_realm E r =
     res_bind (RealmType_decode E (rr_icon r)) (\<lambda>ty.
     Ok \<lparr>rl_id = rr_id r, rl_name = rr_name r, rl_realm_type = ty, rl_build = rr_gamebuild r,
         rl_external_address = rr_address r, rl_local_address = rr_localAddress r,
         rl_local_subnet_mask = rr_localSubnetMask r, rl_port = rr_port r, rl_flags = rr_flag r,
         rl_timezone = rr_timezone r, rl_population = rr_population r\<rparr>)"

fun row_realms :: "db_env \<Rightarrow> realm_row list \<Rightarrow> (rstr, Realm list) res" where
  "row_realms E [] = Ok []"
| "row_realms E (r # rs) =
     res_bind (row_realm E r) (\<lambda>x. res_bind (row_realms E rs) (\<lambda>xs. Ok (x # xs)))"

text \<open>\<open>SELECT .. FROM realmlist WHERE flag <> 3 ORDER BY id\<close>.\<close>

definition select_realms :: "db_env \<Rightarrow> auth_db \<Rightarrow> (rstr, Realm list) res" where
  "select_realms E db =
     res_bind (run_query E Q_realms
        (sort_key (\<lambda>r. unat (rr_id r)) (filter (\<lambda>r. rr_flag r \<noteq> 3) (db_realmlist db))))
       (row_realms E)"

definition realms :: "db_env \<Rightarrow> mysql_state \<Rightarrow> Realm list \<times> mysql_state" where
  "realms E s =
     (let now = ev_utc_now E;
          s' = (if now > my_next_update s
                then (case select_realms E (my_db s) of
                        Ok rs \<Rightarrow> s\<lparr>my_realms := rs, my_next_update := now + int (my_update_interval s)\<rparr>
                      | _ \<Rightarrow> s)
                else s)
      in (my_realms s', s'))"

text \<open>\<open>insert .. on duplicate key update flag\<close>.\<close>

definition upsert_flag :: "db_env \<Rightarrow> u32 \<Rightarrow> u8 \<Rightarrow> auth_db \<Rightarrow> auth_db" where
  "upsert_flag E i flag db =
     (if list_ex (\<lambda>r. rr_id r = i) (db_realmlist db)
      then db\<lparr>db_realmlist :=
             map (\<lambda>r. if rr_id r = i then r\<lparr>rr_flag := flag\<rparr> else r) (db_realmlist db)\<rparr>
      else db\<lparr>db_realmlist :=
             db_realmlist db @ [(ev_realm_defaults E)\<lparr>rr_id := i, rr_flag := flag\<rparr>]\<rparr>)"

text \<open>The loop stops at the first query that fails; the earlier ones have been executed.\<close>

fun update_rows ::
  "db_env \<Rightarrow> nat \<Rightarrow> (u8 \<times> RealmFlags) list \<Rightarrow> auth_db \<Rightarrow> (RealmListError, unit) res \<times> auth_db" where
  "update_rows E n [] db = (Ok (), db)"
| "update_rows E n ((i, flag) # online) db =
     (case ev_fault E (Q_update_status n) of
        Some e \<Rightarrow> (Err (RL_PersistError e), db)
      | None \<Rightarrow> update_rows E (Suc n) online (upsert_flag E (ucast i) (RealmFlags_u8 flag) db))"

definition update_status ::
  "db_env \<Rightarrow> (u8 \<times> RealmFlags) list \<Rightarrow> mysql_state \<Rightarrow> (RealmListError, unit) res \<times> mysql_state" where
  "update_status E online s =
     (case update_rows E 0 online (my_db s) of (r, db) \<Rightarrow> (r, s\<lparr>my_db := db\<rparr>))"

definition upsert_uptime :: "uptime_row \<Rightarrow> auth_db \<Rightarrow> auth_db" where
  "upsert_uptime u db =
     (if list_ex (\<lambda>r. ur_realmid r = ur_realmid u \<and> ur_starttime r = ur_starttime u) (db_uptime db)
      then db\<lparr>db_uptime :=
             map (\<lambda>r. if ur_realmid r = ur_realmid u \<and> ur_starttime r = ur_starttime u
                      then r\<lparr>ur_uptime := ur_uptime u, ur_maxplayers := ur_maxplayers u\<rparr> else r)
               (db_uptime db)\<rparr>
      else db\<lparr>db_uptime := db_uptime db @ [u]\<rparr>)"

text \<open>\<open>Duration::as_secs\<close>.\<close>

definition as_secs :: "int \<Rightarrow> nat" where
  "as_secs ns = nat (ns div 1000000000)"

definition set_uptime ::
  "db_env \<Rightarrow> RealmId \<Rightarrow> int \<Rightarrow> u32 \<Rightarrow> mysql_state \<Rightarrow> (RealmListError, unit) res \<times> mysql_state" where
  "set_uptime E realm start population s =
     (let now = ev_utc_now E in
      if start < 0 then (Panic, s)
      else if 2 ^ 32 \<le> as_secs start then (Err StartTimeTooLarge, s)
      else if now < start then (Err StartTimeInFuture, s)
      else if 2 ^ 32 \<le> as_secs (now - start) then (Panic, s)
      else
        (case ev_fault E Q_set_uptime of
           Some e \<Rightarrow> (Err (RL_PersistError e), s)
         | None \<Rightarrow>
             (Ok (), s\<lparr>my_db := upsert_uptime
                \<lparr>ur_realmid = realm, ur_starttime = of_nat (as_secs start),
                 ur_uptime = of_nat (as_secs (now - start)), ur_maxplayers = population,
                 ur_revision = ascii ''azerust-0.1.0''\<rparr> (my_db s)\<rparr>)))"

definition mysql_realms :: "db_env \<Rightarrow> mysql_state realm_ops" where
  "mysql_realms E =
     \<lparr>rs_realms = realms E, rs_update_status = update_status E, rs_set_uptime = set_uptime E\<rparr>"

text \<open>The account service on the shared database.\<close>

definition on_db :: "('a \<times> auth_db) \<Rightarrow> mysql_state \<Rightarrow> 'a \<times> mysql_state" where
  "on_db p s = (fst p, s\<lparr>my_db := snd p\<rparr>)"

definition shared_accounts :: "auth_db account_ops \<Rightarrow> mysql_state account_ops" where
  "shared_accounts svc = \<lparr>
     as_initiate_login = (\<lambda>rng u s. on_db (as_initiate_login svc rng u (my_db s)) s),
     as_complete_login = (\<lambda>t pk pr s. on_db (as_complete_login svc t pk pr (my_db s)) s),
     as_initiate_relogin = (\<lambda>rng u s. on_db (as_initiate_relogin svc rng u (my_db s)) s),
     as_complete_relogin = (\<lambda>t pd pr s. on_db (as_complete_relogin svc t pd pr (my_db s)) s)\<rparr>"

section \<open>Lemmas\<close>

lemma row_realm_Ok: "row_realm E r = Ok x \<Longrightarrow> rl_id x = rr_id r \<and> rl_flags x = rr_flag r \<and>
    rl_name x = rr_name r \<and> RealmType_u8 (rl_realm_type x) = rr_icon r"
  by (auto simp: row_realm_def RealmType_decode_def res_simps split: if_splits)

lemma row_realms_Ok: "row_realms E rs = Ok xs \<longleftrightarrow> list_all2 (\<lambda>r x. row_realm E r = Ok x) rs xs"
proof (induction rs arbitrary: xs)
  case (Cons r rs)
  then show ?case by (cases xs) (auto simp: res_simps)
qed auto

lemma row_realms_ids:
  "row_realms E rs = Ok xs \<Longrightarrow> map rl_id xs = map rr_id rs \<and> map rl_flags xs = map rr_flag rs"
  unfolding row_realms_Ok by (induction rule: list_all2_induct) (auto dest: row_realm_Ok)

lemma row_realm_icon:
  "(\<exists>x. row_realm E r = Ok x) \<longleftrightarrow> rr_icon r \<in> {0, 1, 6, 8}" "row_realm E r \<noteq> Panic"
  by (auto simp: row_realm_def RealmType_decode_def Let_def)

lemma row_realms_eq:
  "(case row_realms E rs of Ok xs \<Rightarrow> Some xs | _ \<Rightarrow> None) =
     (if \<forall>r \<in> set rs. rr_icon r \<in> {0, 1, 6, 8}
      then Some (map (\<lambda>r. case row_realm E r of Ok x \<Rightarrow> x) rs) else None)"
proof (induction rs)
  case (Cons r rs)
  show ?case
  proof (cases "row_realm E r")
    case (Ok x)
    then have "rr_icon r \<in> {0, 1, 6, 8}" using row_realm_icon(1) by blast
    with Cons Ok show ?thesis by (cases "row_realms E rs") (simp_all split: if_splits)
  next
    case (Err e)
    then have "rr_icon r \<notin> {0, 1, 6, 8}" using row_realm_icon(1) [of E r] by simp
    with Err show ?thesis by simp
  qed (use row_realm_icon(2) [of E r] in simp)
qed simp

lemma select_realms_sorted:
  assumes "select_realms E db = Ok xs"
  shows "sorted (map (\<lambda>x. unat (rl_id x)) xs)"
proof -
  let ?rows = "sort_key (\<lambda>r. unat (rr_id r)) (filter (\<lambda>r. rr_flag r \<noteq> 3) (db_realmlist db))"
  have "row_realms E ?rows = Ok xs" using assms by (auto simp: select_realms_def res_simps)
  then have "map rl_id xs = map rr_id ?rows" by (simp add: row_realms_ids)
  then have "map unat (map rl_id xs) = map unat (map rr_id ?rows)" by simp
  then have "map (\<lambda>x. unat (rl_id x)) xs = map (\<lambda>r. unat (rr_id r)) ?rows" by (simp add: comp_def)
  then show ?thesis by simp
qed

definition cache_sorted :: "mysql_state \<Rightarrow> bool" where
  "cache_sorted s \<longleftrightarrow> sorted (map (\<lambda>x. unat (rl_id x)) (my_realms s))"

lemma update_status_cache [simp]:
  "my_realms (snd (update_status E online s)) = my_realms s"
  "my_next_update (snd (update_status E online s)) = my_next_update s"
  by (simp_all add: update_status_def split: prod.splits)

interpretation mysql_realm_list: realm_list "mysql_realms E" cache_sorted for E
proof
  fix r
  assume r: "cache_sorted r"
  show "sorted (map (\<lambda>x. unat (rl_id x)) (fst (rs_realms (mysql_realms E) r)))"
    using r select_realms_sorted [of E "my_db r"]
    by (auto simp: mysql_realms_def realms_def Let_def cache_sorted_def split: res.splits)
  show "cache_sorted (snd (rs_realms (mysql_realms E) r))"
    using r select_realms_sorted [of E "my_db r"]
    by (auto simp: mysql_realms_def realms_def Let_def cache_sorted_def split: res.splits)
  show "cache_sorted (snd (rs_update_status (mysql_realms E) upd r))" for upd
    using r by (simp add: mysql_realms_def cache_sorted_def)
  show "cache_sorted (snd (rs_set_uptime (mysql_realms E) i start pop r))" for i start pop
    using r by (simp add: mysql_realms_def cache_sorted_def set_uptime_def Let_def split: option.splits)
qed

lemma shared_account_service:
  assumes "account_service L svc barred"
  shows "account_service L (shared_accounts svc) (\<lambda>u s. barred u (my_db s))"
proof -
  note laws = assms [unfolded account_service_def]
  show ?thesis
    unfolding account_service_def using laws by (simp add: shared_accounts_def on_db_def) blast
qed

interpretation shared: account_service L "shared_accounts (mysql_accounts L E)"
  "\<lambda>u s. name_barred E u (my_db s)" for L E
  by (rule shared_account_service) (rule mysql.account_service_axioms)

text \<open>The flag a realm is stored with.\<close>

definition realm_flag :: "auth_db \<Rightarrow> u32 \<Rightarrow> u8 option" where
  "realm_flag db i = map_option rr_flag (find (\<lambda>r. rr_id r = i) (db_realmlist db))"

lemma find_map_flag:
  "find (\<lambda>r. rr_id r = j) (map (\<lambda>r. if rr_id r = i then r\<lparr>rr_flag := f\<rparr> else r) rs) =
     map_option (\<lambda>r. if rr_id r = i then r\<lparr>rr_flag := f\<rparr> else r) (find (\<lambda>r. rr_id r = j) rs)"
  by (induction rs) auto

lemma upsert_flag_lookup:
  "realm_flag (upsert_flag E i f db) j = (if j = i then Some f else realm_flag db j)"
proof (cases "list_ex (\<lambda>r. rr_id r = i) (db_realmlist db)")
  case True
  then have i: "find (\<lambda>r. rr_id r = i) (db_realmlist db) \<noteq> None"
    by (auto simp: find_None_iff list_ex_iff)
  show ?thesis
  proof (cases "find (\<lambda>r. rr_id r = j) (db_realmlist db)")
    case None
    with i True show ?thesis by (auto simp: upsert_flag_def realm_flag_def find_map_flag)
  next
    case (Some r)
    then have "rr_id r = j" by (auto simp: find_Some_iff)
    with Some True show ?thesis by (simp add: upsert_flag_def realm_flag_def find_map_flag)
  qed
next
  case False
  then have "find (\<lambda>r. rr_id r = i) (db_realmlist db) = None"
    by (auto simp: find_None_iff list_ex_iff)
  with False show ?thesis
    by (auto simp: upsert_flag_def realm_flag_def find_append split: option.splits)
qed

lemma update_rows_prefix:
  "update_rows E n online db = (r, db') \<Longrightarrow>
     \<exists>k \<le> length online.
        (r = Ok () \<and> k = length online \<or>
         k < length online \<and> (\<exists>e. ev_fault E (Q_update_status (n + k)) = Some e \<and> r = Err (RL_PersistError e))) \<and>
        (\<forall>j. realm_flag db' j =
           (case map_of (rev (map (\<lambda>(i, f). (ucast i :: u32, RealmFlags_u8 f)) (take k online))) j of
              Some f \<Rightarrow> Some f | None \<Rightarrow> realm_flag db j))"
proof (induction E n online db rule: update_rows.induct)
  case (1 E n db)
  then show ?case by simp
next
  case (2 E n i flag online db)
  show ?case
  proof (cases "ev_fault E (Q_update_status n)")
    case (Some e)
    with 2(2) show ?thesis by (intro exI [of _ 0]) auto
  next
    case None
    with 2(1) [OF None] 2(2) obtain k where k: "k \<le> length online"
      "r = Ok () \<and> k = length online \<or>
         k < length online \<and> (\<exists>e. ev_fault E (Q_update_status (Suc n + k)) = Some e \<and> r = Err (RL_PersistError e))"
      and look: "\<forall>j. realm_flag db' j =
           (case map_of (rev (map (\<lambda>(i, f). (ucast i :: u32, RealmFlags_u8 f)) (take k online))) j of
              Some f \<Rightarrow> Some f | None \<Rightarrow> realm_flag (upsert_flag E (ucast i) (RealmFlags_u8 flag) db) j)"
      by auto
    show ?thesis
    proof (intro exI [of _ "Suc k"] conjI allI)
      fix j
      show "realm_flag db' j =
           (case map_of (rev (map (\<lambda>(i, f). (ucast i :: u32, RealmFlags_u8 f)) (take (Suc k) ((i, flag) # online)))) j of
              Some f \<Rightarrow> Some f | None \<Rightarrow> realm_flag db j)"
        using look by (auto simp: upsert_flag_lookup map_add_def split: option.splits)
    qed (use k in auto)
  qed
qed

lemma as_secs_bound: "0 \<le> x \<Longrightarrow> 4294967296 \<le> as_secs x \<longleftrightarrow> 4294967296000000000 \<le> x"
  unfolding as_secs_def by (simp add: le_nat_iff) linarith

lemma int_unat_as_secs:
  "0 \<le> x \<Longrightarrow> as_secs x < 2 ^ 32 \<Longrightarrow> int (unat (of_nat (as_secs x) :: u32)) = x div 1000000000"
proof -
  assume "0 \<le> x" and "as_secs x < 2 ^ 32"
  then have "unat (of_nat (as_secs x) :: u32) = as_secs x" by (simp only: unat_of_nat len_num1) (simp add: take_bit_eq_mod)
  with \<open>0 \<le> x\<close> show ?thesis by (simp add: as_secs_def pos_imp_zdiv_nonneg_iff)
qed

lemma set_uptime_fst:
  "fst (set_uptime E i start population s) =
     (if start < 0 then Panic
      else if 2 ^ 32 * 1000000000 \<le> start then Err StartTimeTooLarge
      else if ev_utc_now E < start then Err StartTimeInFuture
      else if 2 ^ 32 * 1000000000 \<le> ev_utc_now E - start then Panic
      else case ev_fault E Q_set_uptime of Some e \<Rightarrow> Err (RL_PersistError e) | None \<Rightarrow> Ok ())"
  using as_secs_bound [of start] as_secs_bound [of "ev_utc_now E - start"]
  by (auto simp: set_uptime_def Let_def split: option.splits)

text \<open>
  What a stored uptime is: a row of the realm and start with the given uptime and population, in
  a table whose other rows are those it had, in a database whose other tables are the same.
\<close>

definition uptime_stored :: "u32 \<Rightarrow> int \<Rightarrow> int \<Rightarrow> u32 \<Rightarrow> auth_db \<Rightarrow> auth_db \<Rightarrow> bool" where
  "uptime_stored i start up pop db db' \<longleftrightarrow>
     (\<exists>u \<in> set (db_uptime db'). ur_realmid u = i \<and> int (unat (ur_starttime u)) = start \<and>
        int (unat (ur_uptime u)) = up \<and> ur_maxplayers u = pop) \<and>
     (let other = (\<lambda>r. \<not> (ur_realmid r = i \<and> int (unat (ur_starttime r)) = start))
      in filter other (db_uptime db') = filter other (db_uptime db)) \<and>
     db' = db\<lparr>db_uptime := db_uptime db'\<rparr>"

lemma upsert_uptime_stored:
  assumes "int (unat (ur_starttime u)) = start" and "int (unat (ur_uptime u)) = up"
  shows "uptime_stored (ur_realmid u) start up (ur_maxplayers u) db (upsert_uptime u db)"
proof -
  let ?same = "\<lambda>r. ur_realmid r = ur_realmid u \<and> ur_starttime r = ur_starttime u"
  let ?set = "\<lambda>r. if ?same r then r\<lparr>ur_uptime := ur_uptime u, ur_maxplayers := ur_maxplayers u\<rparr> else r"
  have other: "filter (\<lambda>r. \<not> ?same r) (map ?set rs) = filter (\<lambda>r. \<not> ?same r) rs" for rs
    by (induction rs) auto
  have row: "\<exists>x \<in> set (db_uptime (upsert_uptime u db)). ?same x \<and> ur_uptime x = ur_uptime u \<and>
      ur_maxplayers x = ur_maxplayers u"
  proof (cases "list_ex ?same (db_uptime db)")
    case True
    then obtain r where "r \<in> set (db_uptime db)" "?same r" by (auto simp: list_ex_iff)
    moreover have "db_uptime (upsert_uptime u db) = map ?set (db_uptime db)"
      using True by (simp add: upsert_uptime_def)
    moreover have "?set r \<in> set (map ?set (db_uptime db))"
      unfolding set_map using \<open>r \<in> set (db_uptime db)\<close> by (rule imageI)
    ultimately show ?thesis by (intro bexI [of _ "?set r"]) simp_all
  qed (simp add: upsert_uptime_def)
  show ?thesis
    using assms row other by (auto simp: uptime_stored_def Let_def upsert_uptime_def
        word_uint_eq_iff [symmetric])
qed

section \<open>Properties\<close>

text \<open>
  C29. The realm list is a cache of the table. Before the update is due the cache is returned and
  nothing changes; when it is due and the query succeeds, the result is the decoded rows whose
  flag is not 3, in the order of their identifiers, and the next update is an interval away;
  when the query or the decoding of a row fails, the old list is returned and the update stays
  due.
\<close>

theorem realms_cache:
  "realms E s =
     (if ev_utc_now E \<le> my_next_update s then (my_realms s, s)
      else if ev_fault E Q_realms = None \<and>
              (\<forall>r \<in> set (db_realmlist (my_db s)). rr_flag r \<noteq> 3 \<longrightarrow> rr_icon r \<in> {0, 1, 6, 8})
      then (let rs = map (\<lambda>r. case row_realm E r of Ok x \<Rightarrow> x)
                       (sort_key (\<lambda>r. unat (rr_id r))
                          (filter (\<lambda>r. rr_flag r \<noteq> 3) (db_realmlist (my_db s))))
            in (rs, s\<lparr>my_realms := rs, my_next_update := ev_utc_now E + int (my_update_interval s)\<rparr>))
      else (my_realms s, s))"
proof -
  let ?rows = "sort_key (\<lambda>r. unat (rr_id r)) (filter (\<lambda>r. rr_flag r \<noteq> 3) (db_realmlist (my_db s)))"
  let ?icons = "\<forall>r \<in> set (db_realmlist (my_db s)). rr_flag r \<noteq> 3 \<longrightarrow> rr_icon r \<in> {0, 1, 6, 8}"
  have icons: "?icons \<longleftrightarrow> (\<forall>r \<in> set ?rows. rr_icon r \<in> {0, 1, 6, 8})" by auto
  have "(case select_realms E (my_db s) of Ok rs \<Rightarrow> Some rs | _ \<Rightarrow> None) =
      (if ev_fault E Q_realms = None \<and> ?icons
       then Some (map (\<lambda>r. case row_realm E r of Ok x \<Rightarrow> x) ?rows) else None)"
    unfolding icons by (cases "ev_fault E Q_realms") (simp_all add: select_realms_def run_query_def row_realms_eq)
  then show ?thesis
    by (auto simp: realms_def Let_def split: res.splits if_splits)
qed

definition demo_state :: mysql_state where
  "demo_state = \<lparr>my_db = demo_db, my_next_update = 0, my_update_interval = 10000000000, my_realms = []\<rparr>"

theorem realms_cache_witness:
  "map rl_id (fst (realms demo_env demo_state)) = [1] \<and>
   my_next_update (snd (realms demo_env demo_state)) = 110000000000"
  by (subst (1 2) realms_cache)
    (simp add: demo_env_def demo_state_def demo_db_def demo_realm_def row_realm_def RealmType_decode_def Let_def)

text \<open>
  A status update is executed up to its first failing query. The executed part decides the
  stored flag of every realm: the last entry for it, or what it was before; a realm without a
  row gets one. The error is that of the query that failed.
\<close>

lemma update_status_flags:
  fixes online :: "(u8 \<times> RealmFlags) list"
  shows "\<exists>k \<le> length online.
     fst (update_status E online s) =
       (if k = length online then Ok ()
        else Err (RL_PersistError (the (ev_fault E (Q_update_status k))))) \<and>
     (k < length online \<longrightarrow> ev_fault E (Q_update_status k) \<noteq> None) \<and>
     (\<forall>j. realm_flag (my_db (snd (update_status E online s))) j =
        (case map_of (rev (map (\<lambda>(i, f). (ucast i, RealmFlags_u8 f)) (take k online))) j of
           Some f \<Rightarrow> Some f | None \<Rightarrow> realm_flag (my_db s) j))"
proof -
  obtain r db' where u: "update_rows E 0 online (my_db s) = (r, db')" by fastforce
  from update_rows_prefix [OF u] obtain k where "k \<le> length online"
    and "r = Ok () \<and> k = length online \<or> k < length online \<and>
       (\<exists>e. ev_fault E (Q_update_status k) = Some e \<and> r = Err (RL_PersistError e))"
    and "\<forall>j. realm_flag db' j =
        (case map_of (rev (map (\<lambda>(i, f). (ucast i, RealmFlags_u8 f)) (take k online))) j of
           Some f \<Rightarrow> Some f | None \<Rightarrow> realm_flag (my_db s) j)"
    by auto
  then show ?thesis by (intro exI [of _ k]) (auto simp: update_status_def u)
qed

lemma update_status_flags_witness:
  "realm_flag (my_db (snd (update_status demo_env [(1, RF_Recommended), (1, RF_Offline)] demo_state))) 1 = Some 2"
proof -
  let ?on = "[(1 :: u8, RF_Recommended), (1, RF_Offline)]"
  obtain k where "k \<le> length ?on"
    and "k < length ?on \<longrightarrow> ev_fault demo_env (Q_update_status k) \<noteq> None"
    and flags: "\<forall>j. realm_flag (my_db (snd (update_status demo_env ?on demo_state))) j =
      (case map_of (rev (map (\<lambda>(i, f). (ucast i, RealmFlags_u8 f)) (take k ?on))) j of
         Some f \<Rightarrow> Some f | None \<Rightarrow> realm_flag (my_db demo_state) j)"
    using update_status_flags [of ?on demo_env demo_state] by blast
  then have "k = 2" by (simp add: demo_env_def)
  with spec [OF flags, of 1] show ?thesis by simp
qed

text \<open>
  A start time and an uptime that fit 32 bits of seconds are stored exactly; the other inputs
  are refused before the database is touched, and the two the source expects never to happen
  (a start before the epoch, an uptime of more than \<open>2 ^ 32\<close> seconds) panic.
\<close>

lemma set_uptime_outcomes:
  "fst (set_uptime E i start population s) =
     (if start < 0 then Panic
      else if 2 ^ 32 * 1000000000 \<le> start then Err StartTimeTooLarge
      else if ev_utc_now E < start then Err StartTimeInFuture
      else if 2 ^ 32 * 1000000000 \<le> ev_utc_now E - start then Panic
      else case ev_fault E Q_set_uptime of Some e \<Rightarrow> Err (RL_PersistError e) | None \<Rightarrow> Ok ()) \<and>
   (if fst (set_uptime E i start population s) = Ok ()
    then uptime_stored i (start div 1000000000) ((ev_utc_now E - start) div 1000000000) population
           (my_db s) (my_db (snd (set_uptime E i start population s)))
    else snd (set_uptime E i start population s) = s)"
proof (cases "fst (set_uptime E i start population s) = Ok ()")
  case True
  let ?now = "ev_utc_now E"
  let ?u = "\<lparr>ur_realmid = i, ur_starttime = of_nat (as_secs start), ur_uptime = of_nat (as_secs (?now - start)),
    ur_maxplayers = population, ur_revision = ascii ''azerust-0.1.0''\<rparr>"
  have ok: "0 \<le> start" "start \<le> ?now" "as_secs start < 2 ^ 32" "as_secs (?now - start) < 2 ^ 32"
    and snd: "snd (set_uptime E i start population s) = s\<lparr>my_db := upsert_uptime ?u (my_db s)\<rparr>"
    using True by (auto simp: set_uptime_def Let_def split: if_splits option.splits)
  from ok have "int (unat (ur_starttime ?u)) = start div 1000000000"
    and "int (unat (ur_uptime ?u)) = (?now - start) div 1000000000"
    by (simp_all only: uptime_row.simps int_unat_as_secs diff_ge_0_iff_ge)
  from upsert_uptime_stored [OF this, of "my_db s"] True show ?thesis
    using set_uptime_fst [of E i start population s] by (simp add: snd)
next
  case False
  then show ?thesis using set_uptime_fst [of E i start population s]
    by (auto simp: set_uptime_def Let_def split: option.splits if_splits)
qed

end
