(* ===== verification/Graphql_Api.thy ===== *)
theory Graphql_Api
  imports Login_Props Mysql_Realms
begin

text \<open>
  The administrative interface (crates graphql and axum): the resolvers of the GraphQL schema over
  the account service and the realm list, and what the models show of an account and a realm.
  Routing, parsing and execution of queries are the libraries'; an error a resolver returns is
  the error of the service, and a panic ends the request.
\<close>

section \<open>Models (graphql/src/models)\<close>

record account_view =
  av_username :: rstr
  av_email :: rstr
  av_joindate :: int
  av_last_login :: "int option"
  av_online :: bool

definition account_model :: "Account \<Rightarrow> account_view" where
  "account_model a = \<lparr>av_username = ac_username a, av_email = ac_email a, av_joindate = ac_joindate a,
     av_last_login = ac_last_login a, av_online = (ac_online a \<noteq> 0)\<rparr>"

fun RealmType_to_string :: "RealmType \<Rightarrow> rstr" where
  "RealmType_to_string RT_Normal = ascii ''Normal''"
| "RealmType_to_string RT_PVP = ascii ''PVP''"
| "RealmType_to_string RT_RP = ascii ''RP''"
| "RealmType_to_string RT_RPPvP = ascii ''RPPvP''"

record realm_view =
  rv_name :: rstr
  rv_realm_type :: rstr
  rv_build :: u32
  rv_ip :: rstr
  rv_port :: u16
  rv_timezone :: u8

definition realm_model :: "Realm \<Rightarrow> realm_view" where
  "realm_model r = \<lparr>rv_name = rl_name r, rv_realm_type = RealmType_to_string (rl_realm_type r), rv_build = rl_build r,
     rv_ip = rl_external_address r, rv_port = rl_port r, rv_timezone = rl_timezone r\<rparr>"

section \<open>The operations of the service the schema uses\<close>

record 'd admin_ops =
  ga_create_account :: "bytes \<Rightarrow> rstr \<Rightarrow> rstr \<Rightarrow> rstr \<Rightarrow> 'd \<Rightarrow> (AccountOpError, AccountId) res \<times> 'd"
  ga_set_ban :: "AccountId \<Rightarrow> rstr \<Rightarrow> nat option \<Rightarrow> rstr option \<Rightarrow> 'd \<Rightarrow> (AccountOpError, unit) res \<times> 'd"
  ga_list_account :: "'d \<Rightarrow> (AccountFetchError, Account list) res"
  ga_get_by_username :: "rstr \<Rightarrow> 'd \<Rightarrow> (AccountOpError, Account option) res"

definition mysql_admin :: "lib \<Rightarrow> db_env \<Rightarrow> auth_db admin_ops" where
  "mysql_admin L E = \<lparr>ga_create_account = create_account L E, ga_set_ban = set_ban E,
     ga_list_account = list_account E, ga_get_by_username = get_by_username E\<rparr>"

section \<open>Resolvers (graphql/src/schemas)\<close>

record UserCreate =
  uc_username :: rstr
  uc_email :: rstr
  uc_password :: rstr

definition register_user :: "'d admin_ops \<Rightarrow> bytes \<Rightarrow> UserCreate \<Rightarrow> 'd \<Rightarrow> (AccountOpError, u32) res \<times> 'd" where
  "register_user A rng user d = ga_create_account A rng (uc_username user) (uc_password user) (uc_email user) d"

text \<open>
  The duration of a ban in days: \<open>d.days * 86400\<close> is a product of \<open>u64\<close>, which a build with
  overflow checks does not let wrap.
\<close>

definition days_secs :: "bool \<Rightarrow> u64 \<Rightarrow> ('e, u64) res" where
  "days_secs chk days = (if chk \<and> 2 ^ 64 \<le> unat days * 86400 then Panic else Ok (days * 86400))"

definition set_ban_status ::
  "'d admin_ops \<Rightarrow> bool \<Rightarrow> u32 \<Rightarrow> u64 option \<Rightarrow> rstr option \<Rightarrow> 'd \<Rightarrow> (AccountOpError, bool) res \<times> 'd" where
  "set_ban_status A chk i duration reason d =
     (case (case duration of
              None \<Rightarrow> Ok None
            | Some days \<Rightarrow> res_bind (days_secs chk days) (\<lambda>secs. Ok (Some (unat secs * 1000000000)))) of
        Panic \<Rightarrow> (Panic, d)
      | Err e \<Rightarrow> (Err e, d)
      | Ok dur \<Rightarrow>
          (case ga_set_ban A i (ascii ''arlyon'') dur reason d of
             (Ok _, d1) \<Rightarrow> (Ok True, d1)
           | (Err e, d1) \<Rightarrow> (Err e, d1)
           | (Panic, d1) \<Rightarrow> (Panic, d1)))"

definition get_users :: "'d admin_ops \<Rightarrow> 'd \<Rightarrow> (AccountFetchError, account_view list) res" where
  "get_users A d = res_bind (ga_list_account A d) (\<lambda>accounts. Ok (map account_model accounts))"

definition get_user :: "'d admin_ops \<Rightarrow> rstr \<Rightarrow> 'd \<Rightarrow> (AccountOpError, account_view option) res" where
  "get_user A username d =
     res_bind (ga_get_by_username A username d) (\<lambda>account. Ok (map_option account_model account))"

definition get_realms :: "'r realm_ops \<Rightarrow> 'r \<Rightarrow> realm_view list \<times> 'r" where
  "get_realms rs r = (case rs_realms rs r of (xs, r1) \<Rightarrow> (map realm_model xs, r1))"

section \<open>Lemmas\<close>

lemma days_secs_fits:
  assumes "unat days * 86400 < 2 ^ 64"
  shows "days_secs chk days = Ok (days * 86400)" and "unat (days * 86400) = unat days * 86400"
  using assms by (simp_all add: days_secs_def unat_mult_lem [THEN iffD1])

section \<open>Properties\<close>

text \<open>
  C32. A ban through the interface, as the next look at an account sees it that had no ban row before:
  without a duration it is permanent; for a number of days it is temporary and over when that many
  days have passed on the database's clock, except that zero days ban for ever. A number of days whose
  seconds do not fit 64 bits panics in a build with overflow checks, changing nothing; without them the
  seconds are taken modulo 2^64, and the ban is of that length, for ever if it is zero. The dates must be within
  the bounds of \<open>chrono\<close>.
\<close>

theorem set_ban_status_days:
  assumes "set_ban_status (mysql_admin L E) chk account duration reason db = (Ok b, db')"
    and "\<And>days n. duration = Some days \<Longrightarrow> n = unat days * 86400 mod 2 ^ 64 * 1000000000 \<Longrightarrow>
      ev_chrono_from_std E n = Some (int n) \<and> ev_chrono_add E (ev_utc_now E) (int n) = Some (ev_utc_now E + int n)"
    and "\<forall>b \<in> set (db_account_banned db). br_id b \<noteq> account"
    and "get_by_username E' username db' = Ok (Some a)" and "ac_id a = account"
  shows "ac_ban_status a =
      (case duration of
         None \<Rightarrow> Some Permanent
       | Some days \<Rightarrow>
           let seconds = unat days * 86400 mod 2 ^ 64
           in if seconds = 0 then Some Permanent
              else if ev_db_time E' < timestamp (ev_utc_now E) + int seconds then Some Temporary
              else None) \<and>
    (\<forall>days. duration = Some days \<and> chk \<longrightarrow> unat days * 86400 mod 2 ^ 64 = unat days * 86400) \<and>
    (\<forall>days. 2 ^ 64 \<le> unat days * 86400 \<longrightarrow>
       set_ban_status (mysql_admin L E) True account (Some days) reason db = (Panic, db))"
proof (intro conjI)
  define dur where "dur = map_option (\<lambda>days :: u64. unat days * 86400 mod 2 ^ 64 * 1000000000) duration"
  have secs: "unat (days * 86400) = unat days * 86400 mod 2 ^ 64" for days :: u64
    by (simp add: unat_word_ariths)
  have "set_ban E account (ascii ''arlyon'') dur reason db = (Ok (), db')"
    using assms(1)
    by (auto simp: set_ban_status_def dur_def mysql_admin_def days_secs_def secs
        split: option.splits prod.splits res.splits if_splits)
  then have "ac_ban_status a =
    (case dur of
       None \<Rightarrow> Some Permanent
     | Some d \<Rightarrow>
         if timestamp (ev_utc_now E + int d) = timestamp (ev_utc_now E) then Some Permanent
         else if ev_db_time E' < timestamp (ev_utc_now E + int d) then Some Temporary
         else None)"
    by (rule set_ban_seen [OF _ _ assms(3-5)]) (use assms(2) in \<open>auto simp: dur_def\<close>)
  moreover have "timestamp (ev_utc_now E + int (n * 1000000000)) = timestamp (ev_utc_now E) + int n" for n
    unfolding timestamp_def by simp
  ultimately show "ac_ban_status a = (case duration of
         None \<Rightarrow> Some Permanent
       | Some days \<Rightarrow>
           let seconds = unat days * 86400 mod 2 ^ 64
           in if seconds = 0 then Some Permanent
              else if ev_db_time E' < timestamp (ev_utc_now E) + int seconds then Some Temporary
              else None)"
    by (cases duration) (simp_all add: dur_def Let_def)
  show "\<forall>days. duration = Some days \<and> chk \<longrightarrow> unat days * 86400 mod 2 ^ 64 = unat days * 86400"
    using assms(1) by (auto simp: set_ban_status_def days_secs_def split: if_splits)
  show "\<forall>days. 2 ^ 64 \<le> unat days * 86400 \<longrightarrow>
      set_ban_status (mysql_admin L E) True account (Some days) reason db = (Panic, db)"
    by (simp add: set_ban_status_def days_secs_def)
qed

theorem set_ban_status_days_witness:
  "\<exists>a. get_by_username demo_env (ascii ''AR'')
     (snd (set_ban_status (mysql_admin fixed_digest_lib demo_env) True 1 (Some 1) None (demo_db\<lparr>db_account := [demo_row]\<rparr>))) =
       Ok (Some a) \<and> ac_ban_status a = Some Temporary"
proof -
  let ?db = "demo_db\<lparr>db_account := [demo_row]\<rparr>"
  let ?r = "set_ban_status (mysql_admin fixed_digest_lib demo_env) True 1 (Some 1) None ?db"
  have banned: "?r = (Ok True, snd ?r)"
    by (simp add: set_ban_status_def mysql_admin_def days_secs_def set_ban_def demo_env_def)
  obtain a where a: "get_by_username demo_env (ascii ''AR'') (snd ?r) = Ok (Some a)" and "ac_id a = 1"
    by (simp add: set_ban_status_def mysql_admin_def days_secs_def set_ban_def demo_env_def demo_db_def demo_row_def
        get_by_username_def row_account_def)
  with set_ban_status_days [OF banned _ _ a, THEN conjunct1] show ?thesis
    by (auto simp: demo_env_def demo_db_def timestamp_def)
qed

end
