(* ===== verification/Header_Crypto.thy ===== *)
theory Header_Crypto
  imports Az_Lib
begin

text \<open>
  The encryption of packet headers between a world server and its clients
  (protocol/src/header_crypto.rs). HMAC-SHA1 and RC4 come from the package \<open>rust-crypto\<close> and
  are a parameter, the record \<open>crypto\<close>, whose type of cipher states is free. The locale
  \<open>stream_cipher\<close> states what the code relies on: a cipher works byte by byte and combines its
  input with a keystream by exclusive or. It is interpreted on an implementation of RC4, so the
  laws hold together and the model runs. The lemmas of the locale show that two parties whose
  ciphers start from the same key stay in step over any sequence of headers.
\<close>

section \<open>The packages\<close>

record 'c crypto =
  cy_hmac_sha1 :: "bytes \<Rightarrow> bytes \<Rightarrow> bytes"
  cy_rc4_new :: "bytes \<Rightarrow> 'c"
  cy_rc4_process :: "'c \<Rightarrow> bytes \<Rightarrow> bytes \<times> 'c"

section \<open>Header encryption (protocol/src/header_crypto.rs)\<close>

definition DECRYPT_KEY :: bytes where
  "DECRYPT_KEY =
     [0xC2, 0xB3, 0x72, 0x3C, 0xC6, 0xAE, 0xD9, 0xB5, 0x34, 0x3C, 0x53, 0xEE, 0x2F, 0x43, 0x67, 0xCE]"

definition ENCRYPT_KEY :: bytes where
  "ENCRYPT_KEY =
     [0xCC, 0x98, 0xAE, 0x04, 0xE8, 0x97, 0xEA, 0xCA, 0x12, 0xDD, 0xC0, 0x93, 0x42, 0x91, 0x53, 0x57]"

record 'c HeaderCrypto =
  hc_encrypt :: 'c
  hc_decrypt :: 'c

text \<open>A cipher keyed with the HMAC of the session key, its first 1024 bytes dropped.\<close>

definition dropped_cipher :: "'c crypto \<Rightarrow> bytes \<Rightarrow> bytes \<Rightarrow> 'c" where
  "dropped_cipher C key session_key =
     snd (cy_rc4_process C (cy_rc4_new C (cy_hmac_sha1 C key session_key)) (replicate 1024 0))"

definition HeaderCrypto_new :: "'c crypto \<Rightarrow> bytes \<Rightarrow> 'c HeaderCrypto" where
  "HeaderCrypto_new C session_key =
     \<lparr>hc_encrypt = dropped_cipher C ENCRYPT_KEY session_key,
      hc_decrypt = dropped_cipher C DECRYPT_KEY session_key\<rparr>"

definition hc_encrypt_header :: "'c crypto \<Rightarrow> bytes \<Rightarrow> 'c HeaderCrypto \<Rightarrow> bytes \<times> 'c HeaderCrypto" where
  "hc_encrypt_header C data h =
     (case cy_rc4_process C (hc_encrypt h) data of (out, e) \<Rightarrow> (out, h\<lparr>hc_encrypt := e\<rparr>))"

definition hc_decrypt_header :: "'c crypto \<Rightarrow> bytes \<Rightarrow> 'c HeaderCrypto \<Rightarrow> bytes \<times> 'c HeaderCrypto" where
  "hc_decrypt_header C data h =
     (case cy_rc4_process C (hc_decrypt h) data of (out, d) \<Rightarrow> (out, h\<lparr>hc_decrypt := d\<rparr>))"

section \<open>Sequences of headers\<close>

text \<open>A party that runs a cipher over one header after the other.\<close>

fun cipher_seq :: "'c crypto \<Rightarrow> 'c \<Rightarrow> bytes list \<Rightarrow> bytes list" where
  "cipher_seq C s [] = []"
| "cipher_seq C s (h # hs) =
     (case cy_rc4_process C s h of (h', s') \<Rightarrow> h' # cipher_seq C s' hs)"

fun encrypt_seq :: "'c crypto \<Rightarrow> 'c HeaderCrypto \<Rightarrow> bytes list \<Rightarrow> bytes list" where
  "encrypt_seq C s [] = []"
| "encrypt_seq C s (h # hs) =
     (case hc_encrypt_header C h s of (h', s') \<Rightarrow> h' # encrypt_seq C s' hs)"

fun decrypt_seq :: "'c crypto \<Rightarrow> 'c HeaderCrypto \<Rightarrow> bytes list \<Rightarrow> bytes list" where
  "decrypt_seq C s [] = []"
| "decrypt_seq C s (h # hs) =
     (case hc_decrypt_header C h s of (h', s') \<Rightarrow> h' # decrypt_seq C s' hs)"

section \<open>The contract\<close>

text \<open>
  \<open>SynchronousStreamCipher::process\<close>: as many bytes out as in, the input combined with a
  keystream that depends on the state alone, and the state after it on the number of bytes.
\<close>

locale stream_cipher =
  fixes C :: "'c crypto"
  assumes process_xor: "fst (cy_rc4_process C s xs) =
      map2 (XOR) xs (fst (cy_rc4_process C s (replicate (length xs) 0)))"
    and process_length: "length (fst (cy_rc4_process C s xs)) = length xs"
    and process_state: "length xs = length ys \<Longrightarrow>
      snd (cy_rc4_process C s xs) = snd (cy_rc4_process C s ys)"
begin

lemma process_inverse:
  "cy_rc4_process C s (fst (cy_rc4_process C s xs)) = (xs, snd (cy_rc4_process C s xs))"
proof (rule prod_eqI)
  let ?k = "fst (cy_rc4_process C s (replicate (length xs) 0))"
  have k: "length ?k = length xs" by (simp add: process_length)
  have twice: "length zs = length ys \<Longrightarrow> map2 (XOR) (map2 (XOR) ys zs) zs = ys" for ys zs :: bytes
    by (induction ys zs rule: list_induct2') (auto simp: xor.assoc)
  have "fst (cy_rc4_process C s (fst (cy_rc4_process C s xs))) = map2 (XOR) (map2 (XOR) xs ?k) ?k"
    using process_xor [of s xs] process_xor [of s "fst (cy_rc4_process C s xs)"]
    by (simp add: process_length)
  also have "\<dots> = xs" using k by (rule twice)
  finally show "fst (cy_rc4_process C s (fst (cy_rc4_process C s xs))) = fst (xs, snd (cy_rc4_process C s xs))"
    by simp
  show "snd (cy_rc4_process C s (fst (cy_rc4_process C s xs))) = snd (xs, snd (cy_rc4_process C s xs))"
    using process_state [of "fst (cy_rc4_process C s xs)" xs] by (simp add: process_length)
qed

lemma decrypt_cipher_seq: "decrypt_seq C h (cipher_seq C (hc_decrypt h) hs) = hs"
proof (induction hs arbitrary: h)
  case (Cons x hs)
  show ?case
    using process_inverse [of "hc_decrypt h" x] Cons [of "h\<lparr>hc_decrypt := snd (cy_rc4_process C (hc_decrypt h) x)\<rparr>"]
    by (simp add: hc_decrypt_header_def split_beta)
qed simp

lemma cipher_encrypt_seq: "cipher_seq C (hc_encrypt h) (encrypt_seq C h hs) = hs"
proof (induction hs arbitrary: h)
  case (Cons x hs)
  show ?case
    using process_inverse [of "hc_encrypt h" x] Cons [of "h\<lparr>hc_encrypt := snd (cy_rc4_process C (hc_encrypt h) x)\<rparr>"]
    by (simp add: hc_encrypt_header_def split_beta)
qed simp

lemma decrypt_header_inverse:
  assumes "cy_rc4_process C (hc_decrypt h) x = (y, d)"
  shows "hc_decrypt_header C y h = (x, h\<lparr>hc_decrypt := d\<rparr>)"
  using process_inverse [of "hc_decrypt h" x] assms by (simp add: hc_decrypt_header_def)

lemma encrypt_header_length: "length (fst (hc_encrypt_header C x h)) = length x"
  using process_length [of "hc_encrypt h" x] by (simp add: hc_encrypt_header_def split_beta)

lemma process_length': "cy_rc4_process C s x = (y, s') \<Longrightarrow> length y = length x"
  using process_length [of s x] by simp

end

section \<open>RC4\<close>

record rc4 =
  rc4_s :: "u8 list"
  rc4_i :: u8
  rc4_j :: u8

definition swap_at :: "nat \<Rightarrow> nat \<Rightarrow> 'a list \<Rightarrow> 'a list" where
  "swap_at i j xs = xs[i := xs ! j, j := xs ! i]"

definition rc4_new :: "bytes \<Rightarrow> rc4" where
  "rc4_new key =
     (let (s, _) = fold (\<lambda>i (s, j).
            let j' = (j + unat (s ! i) + unat (key ! (i mod length key))) mod 256 in (swap_at i j' s, j'))
          [0..<256] (map of_nat [0..<256], 0)
      in \<lparr>rc4_s = s, rc4_i = 0, rc4_j = 0\<rparr>)"

definition rc4_next :: "rc4 \<Rightarrow> u8 \<times> rc4" where
  "rc4_next r =
     (let i = rc4_i r + 1;
          j = rc4_j r + rc4_s r ! unat i;
          s = swap_at (unat i) (unat j) (rc4_s r)
      in (s ! unat (s ! unat i + s ! unat j), \<lparr>rc4_s = s, rc4_i = i, rc4_j = j\<rparr>))"

fun rc4_process :: "rc4 \<Rightarrow> bytes \<Rightarrow> bytes \<times> rc4" where
  "rc4_process r [] = ([], r)"
| "rc4_process r (x # xs) =
     (case rc4_next r of (k, r1) \<Rightarrow>
        case rc4_process r1 xs of (ys, r2) \<Rightarrow> ((x XOR k) # ys, r2))"

definition hmac_sha1 :: "bytes \<Rightarrow> bytes \<Rightarrow> bytes" where
  "hmac_sha1 key msg =
     (let k = key @ replicate (64 - length key) 0
      in sha1_ref (map (\<lambda>b. b XOR 0x5C) k @ sha1_ref (map (\<lambda>b. b XOR 0x36) k @ msg)))"

definition ref_crypto :: "rc4 crypto" where
  "ref_crypto = \<lparr>cy_hmac_sha1 = hmac_sha1, cy_rc4_new = rc4_new, cy_rc4_process = rc4_process\<rparr>"

lemma rc4_process_xor:
  "fst (rc4_process r xs) = map2 (XOR) xs (fst (rc4_process r (replicate (length xs) 0)))"
  by (induction xs arbitrary: r) (simp_all add: split_beta)

lemma rc4_process_length: "length (fst (rc4_process r xs)) = length xs"
  by (induction xs arbitrary: r) (simp_all add: split_beta)

lemma rc4_process_state:
  "length xs = length ys \<Longrightarrow> snd (rc4_process r xs) = snd (rc4_process r ys)"
proof (induction xs ys arbitrary: r rule: list_induct2)
  case (Cons x xs y ys)
  then show ?case by (cases "rc4_next r") (simp add: split_beta)
qed simp

interpretation ref_cipher: stream_cipher ref_crypto
proof
  have p: "cy_rc4_process ref_crypto = rc4_process" by (simp add: ref_crypto_def)
  show "fst (cy_rc4_process ref_crypto s xs) =
      map2 (XOR) xs (fst (cy_rc4_process ref_crypto s (replicate (length xs) 0)))" for s xs
    unfolding p by (rule rc4_process_xor)
  show "length (fst (cy_rc4_process ref_crypto s xs)) = length xs" for s xs
    unfolding p by (rule rc4_process_length)
  show "length xs = length ys \<Longrightarrow>
      snd (cy_rc4_process ref_crypto s xs) = snd (cy_rc4_process ref_crypto s ys)" for s xs ys
    unfolding p by (rule rc4_process_state)
qed

section \<open>Properties\<close>

text \<open>
  Both directions of the header encryption stay in step: for a client that keys its ciphers
  with the same session key, the server decrypts any sequence of headers the client encrypts,
  and the client decrypts any sequence the server encrypts, in the order they were sent.
\<close>

lemma header_streams_in_step:
  assumes "stream_cipher C"
  shows "decrypt_seq C (HeaderCrypto_new C k) (cipher_seq C (dropped_cipher C DECRYPT_KEY k) hs) = hs \<and>
    cipher_seq C (dropped_cipher C ENCRYPT_KEY k) (encrypt_seq C (HeaderCrypto_new C k) hs) = hs"
  using stream_cipher.decrypt_cipher_seq [OF assms, of "HeaderCrypto_new C k" hs]
    stream_cipher.cipher_encrypt_seq [OF assms, of "HeaderCrypto_new C k" hs]
  by (simp add: HeaderCrypto_new_def)

lemma header_streams_in_step_witness:
  "decrypt_seq ref_crypto (HeaderCrypto_new ref_crypto (replicate 40 7))
     (cipher_seq ref_crypto (dropped_cipher ref_crypto DECRYPT_KEY (replicate 40 7)) [[0, 4, 1, 2, 3, 4], [9, 9, 9, 9, 9, 9]])
   = [[0, 4, 1, 2, 3, 4], [9, 9, 9, 9, 9, 9]]"
  using header_streams_in_step [OF ref_cipher.stream_cipher_axioms] by blast

end
