(* ===== verification/World_Proto.thy ===== *)
theory World_Proto
  imports Game_Types Header_Crypto
begin

text \<open>
  The vocabulary of the world protocol: operation and response codes (protocol/src/world.rs), the
  packets of the two directions (protocol/src/lib.rs), and the characters they carry
  (game/src/characters.rs). An \<open>f32\<close> is its bit pattern.
\<close>

section \<open>Codes (protocol/src/world.rs)\<close>

datatype OpCode =
    CmsgCharCreate | CmsgCharEnum | CmsgCharDelete | SmsgCharCreate | SmsgCharEnum
  | SmsgCharDelete | CmsgPlayerLogin | CmsgNameQuery | SmsgNameQueryResponse | SmsgTutorialFlags
  | CmsgPlayedTime | SmsgPlayedTime | CmsgQueryTime | SmsgQueryTimeResponse | CmsgPing
  | SmsgPong | SmsgAuthChallenge | CmsgAuthSession | SmsgAuthResponse | CmsgZoneupdate
  | SmsgAccountDataTimes | CmsgRequestAccountData | CmsgUpdateAccountData
  | SmsgUpdateAccountData | CmsgSetActionbarToggles | SmsgAddonInfo | SmsgRealmSplit
  | CmsgRealmSplit | CmsgSetActiveVoiceChannel | SmsgClientcacheVersion
  | CmsgWorldStateUiTimerUpdate | SmsgWorldStateUiTimerUpdate | CmsgReadyForAccountDataTimes

fun OpCode_u16 :: "OpCode \<Rightarrow> u16" where
  "OpCode_u16 CmsgCharCreate = 0x036"
| "OpCode_u16 CmsgCharEnum = 0x037"
| "OpCode_u16 CmsgCharDelete = 0x038"
| "OpCode_u16 SmsgCharCreate = 0x03A"
| "OpCode_u16 SmsgCharEnum = 0x03B"
| "OpCode_u16 SmsgCharDelete = 0x03C"
| "OpCode_u16 CmsgPlayerLogin = 0x03D"
| "OpCode_u16 CmsgNameQuery = 0x050"
| "OpCode_u16 SmsgNameQueryResponse = 0x051"
| "OpCode_u16 SmsgTutorialFlags = 0x0FD"
| "OpCode_u16 CmsgPlayedTime = 0x1CC"
| "OpCode_u16 SmsgPlayedTime = 0x1CD"
| "OpCode_u16 CmsgQueryTime = 0x1CE"
| "OpCode_u16 SmsgQueryTimeResponse = 0x1CF"
| "OpCode_u16 CmsgPing = 0x1DC"
| "OpCode_u16 SmsgPong = 0x1DD"
| "OpCode_u16 SmsgAuthChallenge = 0x1EC"
| "OpCode_u16 CmsgAuthSession = 0x1ED"
| "OpCode_u16 SmsgAuthResponse = 0x1EE"
| "OpCode_u16 CmsgZoneupdate = 0x1F4"
| "OpCode_u16 SmsgAccountDataTimes = 0x209"
| "OpCode_u16 CmsgRequestAccountData = 0x20A"
| "OpCode_u16 CmsgUpdateAccountData = 0x20B"
| "OpCode_u16 SmsgUpdateAccountData = 0x20C"
| "OpCode_u16 CmsgSetActionbarToggles = 0x2BF"
| "OpCode_u16 SmsgAddonInfo = 0x2EF"
| "OpCode_u16 SmsgRealmSplit = 0x38B"
| "OpCode_u16 CmsgRealmSplit = 0x38C"
| "OpCode_u16 CmsgSetActiveVoiceChannel = 0x3D3"
| "OpCode_u16 SmsgClientcacheVersion = 0x4AB"
| "OpCode_u16 CmsgWorldStateUiTimerUpdate = 0x4F6"
| "OpCode_u16 SmsgWorldStateUiTimerUpdate = 0x4F7"
| "OpCode_u16 CmsgReadyForAccountDataTimes = 0x4FF"

text \<open>The derived \<open>TryFromPrimitive\<close>: the variant with the given code.\<close>

definition OpCodes :: "OpCode list" where
  "OpCodes =
     [CmsgCharCreate, CmsgCharEnum, CmsgCharDelete, SmsgCharCreate, SmsgCharEnum, SmsgCharDelete,
       CmsgPlayerLogin, CmsgNameQuery, SmsgNameQueryResponse, SmsgTutorialFlags, CmsgPlayedTime,
       SmsgPlayedTime, CmsgQueryTime, SmsgQueryTimeResponse, CmsgPing, SmsgPong,
       SmsgAuthChallenge, CmsgAuthSession, SmsgAuthResponse, CmsgZoneupdate, SmsgAccountDataTimes,
       CmsgRequestAccountData, CmsgUpdateAccountData, SmsgUpdateAccountData,
       CmsgSetActionbarToggles, SmsgAddonInfo, SmsgRealmSplit, CmsgRealmSplit,
       CmsgSetActiveVoiceChannel, SmsgClientcacheVersion, CmsgWorldStateUiTimerUpdate,
       SmsgWorldStateUiTimerUpdate, CmsgReadyForAccountDataTimes]"

definition OpCode_try_from :: "u16 \<Rightarrow> OpCode option" where
  "OpCode_try_from w = find (\<lambda>c. OpCode_u16 c = w) OpCodes"

datatype ResponseCode =
    Resp_AuthOk | Resp_AuthReject | Resp_AuthSystemError | Resp_AuthUnknownAccount
  | Resp_AuthSessionExpired | Resp_AuthAlreadyOnline | Resp_RealmListRealmNotFound
  | Resp_CharCreateSuccess | Resp_CharCreateError | Resp_CharCreateNameInUse
  | Resp_CharDeleteSuccess | Resp_CharDeleteFailed | Resp_CharNameFailure | Resp_CharNameNoName
  | Resp_CharNameTooShort | Resp_CharNameTooLong

fun ResponseCode_u32 :: "ResponseCode \<Rightarrow> u32" where
  "ResponseCode_u32 Resp_AuthOk = 12"
| "ResponseCode_u32 Resp_AuthReject = 14"
| "ResponseCode_u32 Resp_AuthSystemError = 17"
| "ResponseCode_u32 Resp_AuthUnknownAccount = 21"
| "ResponseCode_u32 Resp_AuthSessionExpired = 23"
| "ResponseCode_u32 Resp_AuthAlreadyOnline = 29"
| "ResponseCode_u32 Resp_RealmListRealmNotFound = 39"
| "ResponseCode_u32 Resp_CharCreateSuccess = 47"
| "ResponseCode_u32 Resp_CharCreateError = 48"
| "ResponseCode_u32 Resp_CharCreateNameInUse = 50"
| "ResponseCode_u32 Resp_CharDeleteSuccess = 71"
| "ResponseCode_u32 Resp_CharDeleteFailed = 72"
| "ResponseCode_u32 Resp_CharNameFailure = 88"
| "ResponseCode_u32 Resp_CharNameNoName = 89"
| "ResponseCode_u32 Resp_CharNameTooShort = 90"
| "ResponseCode_u32 Resp_CharNameTooLong = 91"

section \<open>Characters (game/src/characters.rs)\<close>

record Character =
  ch_id :: WowId
  ch_account :: AccountId
  ch_name :: rstr
  ch_level :: u8
  ch_race :: u8
  ch_class :: u8
  ch_gender :: u8
  ch_skin_color :: u8
  ch_face :: u8
  ch_hair_style :: u8
  ch_hair_color :: u8
  ch_facial_style :: u8
  ch_zone :: u16
  ch_map :: u16
  ch_position_x :: u32
  ch_position_y :: u32
  ch_position_z :: u32

record CharacterCreate =
  cn_name :: rstr
  cn_race :: u8
  cn_class :: u8
  cn_gender :: u8
  cn_skin_color :: u8
  cn_face :: u8
  cn_hair_style :: u8
  cn_hair_color :: u8
  cn_facial_style :: u8
  cn_zone :: u16
  cn_map :: u16
  cn_position_x :: u32
  cn_position_y :: u32
  cn_position_z :: u32

record AccountDataCache =
  dc_time :: u32
  dc_data :: bytes

record DualDataCache =
  dd_global :: "AccountDataCache option"
  dd_per_char :: "AccountDataCache option"

record AccountData =
  ad_config :: DualDataCache
  ad_bindings :: DualDataCache
  ad_macros :: DualDataCache
  ad_per_char_layout :: "AccountDataCache option"
  ad_per_char_chat :: "AccountDataCache option"

definition DualDataCache_default :: DualDataCache where
  "DualDataCache_default = \<lparr>dd_global = None, dd_per_char = None\<rparr>"

definition AccountData_default :: AccountData where
  "AccountData_default = \<lparr>ad_config = DualDataCache_default, ad_bindings = DualDataCache_default,
     ad_macros = DualDataCache_default, ad_per_char_layout = None, ad_per_char_chat = None\<rparr>"

definition AccountData_items :: "AccountData \<Rightarrow> AccountDataCache option list" where
  "AccountData_items d =
     [dd_global (ad_config d), dd_per_char (ad_config d), dd_global (ad_bindings d),
      dd_per_char (ad_bindings d), dd_global (ad_macros d), dd_per_char (ad_macros d),
      ad_per_char_layout d, ad_per_char_chat d]"

datatype CharacterServiceError =
  CS_NoSuchAccount AccountId | CS_NoSuchCharacter WowId | CS_PersistError rstr

section \<open>Packets (protocol/src/lib.rs)\<close>

datatype ClientVersion = Classic | BurningCrusade | Wotlk

fun ClientVersion_u8 :: "ClientVersion \<Rightarrow> u8" where
  "ClientVersion_u8 Classic = 0"
| "ClientVersion_u8 BurningCrusade = 1"
| "ClientVersion_u8 Wotlk = 2"

record Addon =
  ao_name :: rstr
  ao_signature :: bool
  ao_crc :: u32
  ao_crc2 :: u32

definition Addon_new :: "rstr \<Rightarrow> bool \<Rightarrow> u32 \<Rightarrow> u32 \<Rightarrow> Addon" where
  [simp]: "Addon_new name signature crc crc2 =
     \<lparr>ao_name = name, ao_signature = signature, ao_crc = crc, ao_crc2 = crc2\<rparr>"

record AuthSession =
  au_build :: u32
  au_server_id :: u32
  au_username :: rstr
  au_login_server_type :: u32
  au_region_id :: u32
  au_local_challenge :: bytes
  au_client_proof :: bytes
  au_addons :: "Addon list"
  au_battlegroup_id :: u32
  au_realm_id :: RealmId
  au_dos_response :: u64

text \<open>\<open>CharacterCreate\<close> carries name, race, class, gender, skin, face, hair style and colour, facial style.\<close>

datatype ClientPacket =
    CP_AuthSession AuthSession
  | CP_KeepAlive
  | CP_Ping (cp_seq: u32) (cp_latency: u32)
  | CP_ReadyForAccountDataTimes
  | CP_CharEnum
  | CP_RealmSplit u32
  | CP_CharacterCreate rstr u8 u8 u8 u8 u8 u8 u8 u8
  | CP_PlayerLogin WowId
  | CP_CharacterDelete WowId

record Item =
  it_display :: u32
  it_inventory :: u8
  it_aura :: u32

datatype ServerPacket =
    SP_AuthResponse
  | SP_AddonInfo "Addon list"
  | SP_ClientCacheVersion u32
  | SP_TutorialData
  | SP_Pong u32
  | SP_CharEnum "(Character \<times> Item list) list"
  | SP_AccountDataTimes AccountData
  | SP_RealmSplit u32
  | SP_CharacterCreate ResponseCode
  | SP_CharacterDelete ResponseCode

section \<open>Lemmas\<close>

lemma OpCode_in_OpCodes [simp]: "c \<in> set OpCodes"
  by (cases c) (simp_all add: OpCodes_def)

lemma distinct_opcodes: "distinct (map OpCode_u16 OpCodes)"
  by (simp add: OpCodes_def)

lemma OpCode_u16_inj: "OpCode_u16 a = OpCode_u16 b \<Longrightarrow> a = b"
  using distinct_opcodes by (meson OpCode_in_OpCodes distinct_map inj_onD)

lemma OpCode_try_from_eq: "OpCode_try_from w = Some c \<longleftrightarrow> w = OpCode_u16 c"
proof
  assume "OpCode_try_from w = Some c"
  then show "w = OpCode_u16 c" by (auto simp: OpCode_try_from_def find_Some_iff)
next
  assume w: "w = OpCode_u16 c"
  then have "OpCode_try_from w \<noteq> None"
    using OpCode_in_OpCodes [of c] by (auto simp: OpCode_try_from_def find_None_iff)
  then obtain d where d: "OpCode_try_from w = Some d" by auto
  then have "OpCode_u16 d = w" by (auto simp: OpCode_try_from_def find_Some_iff)
  with w d show "OpCode_try_from w = Some c" using OpCode_u16_inj by auto
qed

lemma ResponseCode_u32_inj: "ResponseCode_u32 a = ResponseCode_u32 b \<Longrightarrow> a = b"
  by (cases a; cases b; simp)

end
