(* ===== verification/Net.thy ===== *)
theory Net
  imports Az_Prelude
begin

text \<open>
  A TCP connection as the servers use it. What the peer sends arrives as a list of events, each
  a segment of bytes or a failure of the socket; the list ends where the peer closes the
  connection. \<open>read\<close> takes what the next segment offers, \<open>read_exact\<close> waits for all the bytes
  it asks for. Written bytes are appended to the output; a list of flags says which of the
  coming writes fail. \<open>in_size\<close> measures what is still to be read.
\<close>

section \<open>Operations\<close>

datatype net_event = Seg bytes | ReadErr

datatype io_error = UnexpectedEof | ReadFault | WriteFault | WriteZero

definition seg_push :: "bytes \<Rightarrow> net_event list \<Rightarrow> net_event list" where
  "seg_push s evs = (if s = [] then evs else Seg s # evs)"

fun tcp_read :: "nat \<Rightarrow> net_event list \<Rightarrow> (io_error, bytes) res \<times> net_event list" where
  "tcp_read n [] = (Ok [], [])"
| "tcp_read n (ReadErr # evs) = (Err ReadFault, evs)"
| "tcp_read n (Seg s # evs) =
     (if s = [] then tcp_read n evs else (Ok (take n s), seg_push (drop n s) evs))"

fun read_exact :: "nat \<Rightarrow> net_event list \<Rightarrow> (io_error, bytes) res \<times> net_event list" where
  "read_exact n [] = (if n = 0 then (Ok [], []) else (Err UnexpectedEof, []))"
| "read_exact n (ReadErr # evs) = (if n = 0 then (Ok [], ReadErr # evs) else (Err ReadFault, evs))"
| "read_exact n (Seg s # evs) =
     (if n = 0 then (Ok [], Seg s # evs)
      else if n \<le> length s then (Ok (take n s), seg_push (drop n s) evs)
      else case read_exact (n - length s) evs of
             (Ok bs, evs') \<Rightarrow> (Ok (s @ bs), evs')
           | (Err e, evs') \<Rightarrow> (Err e, evs')
           | (Panic, evs') \<Rightarrow> (Panic, evs'))"

record tcp =
  tcp_in :: "net_event list"
  tcp_out :: bytes
  tcp_wfaults :: "bool list"

definition write_all :: "bytes \<Rightarrow> tcp \<Rightarrow> (io_error, unit) res \<times> tcp" where
  "write_all bs c =
     (case tcp_wfaults c of
        True # fs \<Rightarrow> (Err WriteFault, c\<lparr>tcp_wfaults := fs\<rparr>)
      | False # fs \<Rightarrow> (Ok (), c\<lparr>tcp_wfaults := fs, tcp_out := tcp_out c @ bs\<rparr>)
      | [] \<Rightarrow> (Ok (), c\<lparr>tcp_out := tcp_out c @ bs\<rparr>))"

text \<open>
  The writing half of a connection, for callers that do not wait for all their bytes to be taken:
  each \<open>write\<close> takes what the socket accepts at that moment (everything, once the list of
  acceptances is used up), and \<open>write_all\<close> repeats it.
\<close>

datatype write_event = Accepts nat | WriteError

record writer =
  wr_out :: bytes
  wr_plan :: "write_event list"

definition write_some :: "bytes \<Rightarrow> writer \<Rightarrow> (io_error, nat) res \<times> writer" where
  "write_some bs w =
     (case wr_plan w of
        [] \<Rightarrow> (Ok (length bs), w\<lparr>wr_out := wr_out w @ bs\<rparr>)
      | Accepts n # ps \<Rightarrow> (Ok (min n (length bs)), w\<lparr>wr_out := wr_out w @ take n bs, wr_plan := ps\<rparr>)
      | WriteError # ps \<Rightarrow> (Err WriteFault, w\<lparr>wr_plan := ps\<rparr>))"

function write_every :: "bytes \<Rightarrow> writer \<Rightarrow> (io_error, unit) res \<times> writer" where
  "write_every bs w =
     (if bs = [] then (Ok (), w)
      else case write_some bs w of
             (Ok n, w') \<Rightarrow> if n = 0 then (Err WriteZero, w') else write_every (drop n bs) w'
           | (Err e, w') \<Rightarrow> (Err e, w')
           | (Panic, w') \<Rightarrow> (Panic, w'))"
  by pat_completeness auto
termination
  by (relation "measure (\<lambda>(bs, w). length bs)") auto

declare write_every.simps [simp del]

fun in_size :: "net_event list \<Rightarrow> nat" where
  "in_size [] = 0"
| "in_size (ReadErr # evs) = Suc (in_size evs)"
| "in_size (Seg s # evs) = length s + in_size evs"

section \<open>Lemmas\<close>

lemma in_size_push [simp]: "in_size (seg_push s evs) = length s + in_size evs"
  by (simp add: seg_push_def)

lemma read_exact_le: "in_size (snd (read_exact n evs)) \<le> in_size evs"
proof (induction n evs rule: read_exact.induct)
  case (3 n s evs)
  then show ?case
    by (cases "read_exact (n - length s) evs") (auto split: res.splits)
qed simp_all

lemma read_exact_Ok:
  "read_exact n evs = (Ok bs, evs') \<Longrightarrow> length bs = n \<and> in_size evs = n + in_size evs'"
proof (induction n evs arbitrary: bs evs' rule: read_exact.induct)
  case (3 n s evs)
  show ?case
  proof (cases "n \<le> length s")
    case False
    with 3 show ?thesis
      by (cases "read_exact (n - length s) evs") (auto split: res.splits if_splits)
  qed (use 3 in \<open>auto split: if_splits\<close>)
qed (auto split: if_splits)

lemma read_exact_no_panic [simp]: "fst (read_exact n evs) \<noteq> Panic"
proof (induction n evs rule: read_exact.induct)
  case (3 n s evs)
  then show ?case
    by (cases "read_exact (n - length s) evs") (auto split: res.splits)
qed simp_all

lemma tcp_read_le: "in_size (snd (tcp_read n evs)) \<le> in_size evs"
  by (induction n evs rule: tcp_read.induct) auto

lemma tcp_read_no_panic [simp]: "fst (tcp_read n evs) \<noteq> Panic"
  by (induction n evs rule: tcp_read.induct) auto

lemma tcp_read_bound: "tcp_read n evs = (Ok bs, evs') \<Longrightarrow> length bs \<le> n"
  by (induction n evs rule: tcp_read.induct) (auto split: if_splits)

lemma read_exact_seg:
  "n \<le> length s \<Longrightarrow> read_exact n (seg_push s evs) = (Ok (take n s), seg_push (drop n s) evs)"
proof (cases "s = []")
  case True
  assume "n \<le> length s"
  with True show ?thesis
    by (cases evs rule: in_size.cases) (auto simp: seg_push_def)
qed (simp add: seg_push_def)

lemma tcp_read_seg:
  "s \<noteq> [] \<Longrightarrow> tcp_read n (seg_push s evs) = (Ok (take n s), seg_push (drop n s) evs)"
  by (simp add: seg_push_def)

lemma write_all_in [simp]: "tcp_in (snd (write_all bs c)) = tcp_in c"
  by (simp add: write_all_def split: list.splits bool.splits)

lemma write_all_Ok:
  "write_all bs c = (Ok u, c') \<Longrightarrow> tcp_out c' = tcp_out c @ bs \<and> tcp_in c' = tcp_in c"
  by (auto simp: write_all_def split: list.splits bool.splits)

lemma write_all_clean [simp]:
  "tcp_wfaults c = [] \<Longrightarrow> write_all bs c = (Ok (), c\<lparr>tcp_out := tcp_out c @ bs\<rparr>)"
  by (simp add: write_all_def)

lemma write_all_no_panic: "fst (write_all bs c) \<noteq> Panic"
  by (simp add: write_all_def split: list.splits bool.splits)

lemma write_all_out_prefix: "\<exists>bs'. tcp_out (snd (write_all bs c)) = tcp_out c @ bs'"
  by (simp add: write_all_def split: list.splits bool.splits)

lemma write_some_free [simp]:
  "wr_plan w = [] \<Longrightarrow> write_some bs w = (Ok (length bs), w\<lparr>wr_out := wr_out w @ bs\<rparr>)"
  by (simp add: write_some_def)

lemma write_some_no_panic [simp]: "fst (write_some bs w) \<noteq> Panic"
  by (simp add: write_some_def split: list.splits write_event.splits)

lemma write_every_free [simp]:
  "wr_plan w = [] \<Longrightarrow> write_every bs w = (Ok (), w\<lparr>wr_out := wr_out w @ bs\<rparr>)"
  by (cases "bs = []") (simp_all add: write_every.simps [of bs] write_every.simps [of "[]"])

lemma write_every_Ok: "write_every bs w = (Ok (), w') \<Longrightarrow> wr_out w' = wr_out w @ bs"
proof (induction bs w rule: write_every.induct)
  case (1 bs w)
  show ?case
  proof (cases "bs = []")
    case True
    with 1(2) show ?thesis by (simp add: write_every.simps)
  next
    case False
    obtain r w1 where r: "write_some bs w = (r, w1)" by fastforce
    from 1(2) False r obtain n where n: "r = Ok n" "n \<noteq> 0" "write_every (drop n bs) w1 = (Ok (), w')"
      by (subst (asm) write_every.simps) (auto split: res.splits if_splits)
    then have "wr_out w' = wr_out w1 @ drop n bs" using 1(1) [OF False] r by simp
    moreover have "wr_out w1 = wr_out w @ take n bs"
      using r n(1) by (auto simp: write_some_def min_def split: list.splits write_event.splits)
    ultimately show ?thesis by simp
  qed
qed

text \<open>The bytes of a stream, and how the reads take them.\<close>

fun in_bytes :: "net_event list \<Rightarrow> bytes" where
  "in_bytes [] = []"
| "in_bytes (ReadErr # evs) = in_bytes evs"
| "in_bytes (Seg s # evs) = s @ in_bytes evs"

lemma in_bytes_push [simp]: "in_bytes (seg_push s evs) = s @ in_bytes evs"
  by (simp add: seg_push_def)

lemma read_exact_bytes: "read_exact n evs = (Ok bs, evs') \<Longrightarrow> in_bytes evs = bs @ in_bytes evs'"
proof (induction n evs arbitrary: bs evs' rule: read_exact.induct)
  case (3 n s evs)
  show ?case
  proof (cases "n \<le> length s")
    case False
    with 3 show ?thesis
      by (cases "read_exact (n - length s) evs") (auto split: res.splits if_splits)
  qed (use 3 in \<open>auto split: if_splits\<close>)
qed (auto split: if_splits)

lemma tcp_read_bytes: "tcp_read n evs = (Ok bs, evs') \<Longrightarrow> in_bytes evs = bs @ in_bytes evs'"
  by (induction n evs rule: tcp_read.induct) (auto split: if_splits)

lemma read_exact_Err: "read_exact n evs = (Err e, evs') \<Longrightarrow> e = UnexpectedEof \<or> e = ReadFault"
proof (induction n evs arbitrary: e evs' rule: read_exact.induct)
  case (3 n s evs)
  then show ?case
    by (cases "read_exact (n - length s) evs") (auto split: res.splits if_splits)
qed (auto split: if_splits)

lemma tcp_read_Err: "tcp_read n evs = (Err e, evs') \<Longrightarrow> e = ReadFault"
  by (induction n evs rule: tcp_read.induct) (auto split: if_splits)

end
