(* ===== verification/World_Packets.thy ===== *)
theory World_Packets
  imports World_Proto Net
begin

text \<open>
  Reading the packets of a world client (services/world/src/protocol/mod.rs). One read of the
  stream is taken to be a frame of whole packets; each packet is a header of six bytes (encrypted
  once there is a session) and a body. Slices out of range and the branches left as \<open>todo!()\<close>
  are panics. The package \<open>flate2\<close> is a parameter: decompression of a whole input, or an error.
\<close>

section \<open>Reading one packet\<close>

record 'c world_lib =
  wl_lib :: lib
  wl_crypto :: "'c crypto"
  wl_unzip :: "bytes \<Rightarrow> bytes option"

datatype world_error =
    WE_Io io_error
  | WE_Closed
  | WE_Decode
  | WE_OpCode u16
  | WE_Unsupported OpCode
  | WE_NoStringEnd
  | WE_Utf8
  | WE_Unzip
  | WE_AddonSize nat nat
  | WE_Serialize
  | WE_Time
  | WE_NoAccount
  | WE_Character CharacterServiceError
  | WE_EntityType TryFromWowIdError
  | WE_InvalidPacket
  | WE_NotAuthenticated
  | WE_NoClient

text \<open>\<open>wow_bincode().deserialize(..)?\<close> at a type, the fields taken out by a function.\<close>

definition deserialize_with ::
  "'c world_lib \<Rightarrow> sty \<Rightarrow> (sval \<Rightarrow> 'a option) \<Rightarrow> bytes \<Rightarrow> (world_error, 'a) res" where
  "deserialize_with W ty of_sval bs =
     (case de_wow (wl_lib W) ty bs of
        None \<Rightarrow> Err WE_Decode
      | Some v \<Rightarrow> ok_or WE_Decode (of_sval v))"

fun byte_of :: "sval \<Rightarrow> u8" where
  "byte_of (SU8 b) = b"
| "byte_of _ = 0"

definition addon_ty :: sty where
  "addon_ty = TTup [TU8, TU32, TU32]"

definition addon_of :: "sval \<Rightarrow> (u8 \<times> u32 \<times> u32) option" where
  "addon_of v = (case v of STup [SU8 s, SU32 c, SU32 d] \<Rightarrow> Some (s, c, d) | _ \<Rightarrow> None)"

text \<open>The addons behind the cursor, as many as announced.\<close>

fun read_addons :: "'c world_lib \<Rightarrow> nat \<Rightarrow> bytes \<Rightarrow> (world_error, Addon list) res" where
  "read_addons W 0 unzipped = Ok []"
| "read_addons W (Suc n) unzipped =
     (case find (\<lambda>i. unzipped ! i = 0) [0..<length unzipped] of
        None \<Rightarrow> Err WE_NoStringEnd
      | Some idx \<Rightarrow>
          res_bind (ok_or WE_Utf8 (from_utf8 (take idx unzipped))) (\<lambda>name.
          res_bind (slice_to 9 (drop (idx + 1) unzipped)) (\<lambda>rest.
          res_bind (deserialize_with W addon_ty addon_of rest) (\<lambda>(has_sig, crc, crc2).
          res_bind (read_addons W n (drop (idx + 1 + 9) unzipped)) (\<lambda>addons.
          Ok (Addon_new name (has_sig = 1) crc crc2 # addons))))))"

definition u32_of :: "sval \<Rightarrow> u32 option" where
  "u32_of v = (case v of SU32 w \<Rightarrow> Some w | _ \<Rightarrow> None)"

definition read_addon_data :: "'c world_lib \<Rightarrow> bytes \<Rightarrow> (world_error, Addon list) res" where
  "read_addon_data W addons =
     res_bind (slice_to 4 addons) (\<lambda>size_bytes.
     res_bind (deserialize_with W TU32 u32_of size_bytes) (\<lambda>expected_size.
     res_bind (ok_or WE_Unzip (wl_unzip W (drop 4 addons))) (\<lambda>unzipped.
     if length unzipped \<noteq> unat expected_size then Err (WE_AddonSize (unat expected_size) (length unzipped))
     else
       res_bind (slice_to 4 unzipped) (\<lambda>count_bytes.
       res_bind (deserialize_with W TU32 u32_of count_bytes) (\<lambda>addon_count.
       read_addons W (unat addon_count) (drop 4 unzipped))))))"

definition auth_session_ty :: sty where
  "auth_session_ty = TTup [TU32, TU32, TStr, TU32, tbytes 4, TU32, TU32, TU32, TU64, tbytes 20]"

definition auth_session_of :: "sval \<Rightarrow> AuthSession option" where
  "auth_session_of v =
     (case v of
        STup [SU32 build, SU32 server_id, SStr username, SU32 login_server_type, STup local_challenge,
              SU32 region_id, SU32 battlegroup_id, SU32 realm_id, SU64 dos_response, STup client_proof] \<Rightarrow>
          Some \<lparr>au_build = build, au_server_id = server_id, au_username = username,
            au_login_server_type = login_server_type, au_region_id = region_id,
            au_local_challenge = map byte_of local_challenge, au_client_proof = map byte_of client_proof,
            au_addons = [], au_battlegroup_id = battlegroup_id, au_realm_id = realm_id,
            au_dos_response = dos_response\<rparr>
      | _ \<Rightarrow> None)"

definition read_auth_session :: "'c world_lib \<Rightarrow> bytes \<Rightarrow> (world_error, AuthSession) res" where
  "read_auth_session W bytes =
     (case find (\<lambda>i. bytes ! i = 0) [4 + 4..<length bytes] of
        None \<Rightarrow> Err WE_NoStringEnd
      | Some str_end \<Rightarrow>
          let addon_start = str_end + 1 + 4 + 4 + 4 + 4 + 4 + 8 + 20 in
          res_bind (slice_to addon_start bytes) (\<lambda>packet.
          res_bind (slice_from addon_start bytes) (\<lambda>addons.
          res_bind (deserialize_with W auth_session_ty auth_session_of packet) (\<lambda>s.
          res_bind (read_addon_data W addons) (\<lambda>as.
          Ok (s\<lparr>au_addons := as\<rparr>))))))"

definition ping_of :: "sval \<Rightarrow> (u32 \<times> u32) option" where
  "ping_of v = (case v of STup [SU32 a, SU32 b] \<Rightarrow> Some (a, b) | _ \<Rightarrow> None)"

definition char_create_ty :: sty where
  "char_create_ty = TTup [TStr, TU8, TU8, TU8, TU8, TU8, TU8, TU8, TU8, TU8]"

definition char_create_of :: "sval \<Rightarrow> ClientPacket option" where
  "char_create_of v =
     (case v of
        STup [SStr name, SU8 race, SU8 class, SU8 gender, SU8 skin_color, SU8 face, SU8 hair_style,
              SU8 hair_color, SU8 facial_style, SU8 outfit] \<Rightarrow>
          Some (CP_CharacterCreate name race class gender skin_color face hair_style hair_color facial_style)
      | _ \<Rightarrow> None)"

definition wow_id_of :: "sval \<Rightarrow> WowId option" where
  "wow_id_of v = (case v of SU64 w \<Rightarrow> Some w | _ \<Rightarrow> None)"

fun read_client_packet :: "'c world_lib \<Rightarrow> OpCode \<Rightarrow> bytes \<Rightarrow> (world_error, ClientPacket) res" where
  "read_client_packet W CmsgAuthSession bytes =
     res_bind (read_auth_session W bytes) (\<lambda>s. Ok (CP_AuthSession s))"
| "read_client_packet W CmsgPing bytes =
     res_bind (deserialize_with W (TTup [TU32, TU32]) ping_of bytes) (\<lambda>(seq, latency). Ok (CP_Ping seq latency))"
| "read_client_packet W CmsgReadyForAccountDataTimes bytes = Ok CP_ReadyForAccountDataTimes"
| "read_client_packet W CmsgCharEnum bytes = Ok CP_CharEnum"
| "read_client_packet W CmsgRealmSplit bytes = Ok (CP_RealmSplit 1)"
| "read_client_packet W CmsgCharCreate bytes = deserialize_with W char_create_ty char_create_of bytes"
| "read_client_packet W CmsgPlayerLogin bytes =
     res_bind (deserialize_with W TU64 wow_id_of bytes) (\<lambda>i. Ok (CP_PlayerLogin i))"
| "read_client_packet W CmsgCharDelete bytes =
     res_bind (deserialize_with W TU64 wow_id_of bytes) (\<lambda>i. Ok (CP_CharacterDelete i))"
| "read_client_packet W CmsgSetActiveVoiceChannel bytes = Panic"
| "read_client_packet W CmsgNameQuery bytes = Panic"
| "read_client_packet W CmsgPlayedTime bytes = Panic"
| "read_client_packet W CmsgQueryTime bytes = Panic"
| "read_client_packet W CmsgZoneupdate bytes = Panic"
| "read_client_packet W CmsgRequestAccountData bytes = Panic"
| "read_client_packet W CmsgUpdateAccountData bytes = Panic"
| "read_client_packet W CmsgSetActionbarToggles bytes = Panic"
| "read_client_packet W CmsgWorldStateUiTimerUpdate bytes = Panic"
| "read_client_packet W c bytes = Err (WE_Unsupported c)"

section \<open>Reading a frame\<close>

definition header_of :: "sval \<Rightarrow> (u16 \<times> u16) option" where
  "header_of v = (case v of STup [SU16 sz, SU16 op_code, SU16 _] \<Rightarrow> Some (sz, op_code) | _ \<Rightarrow> None)"

text \<open>The header of the next packet: decrypted when there is a session, whose cipher moves on.\<close>

definition read_header ::
  "'c world_lib \<Rightarrow> 'c HeaderCrypto option \<Rightarrow> bytes \<Rightarrow> (world_error, bytes) res \<times> 'c HeaderCrypto option" where
  "read_header W session buffer =
     (if length buffer < 6 then (Panic, session)
      else case session of
             None \<Rightarrow> (Ok (take 6 buffer), None)
           | Some h \<Rightarrow>
               (case hc_decrypt_header (wl_crypto W) (take 6 buffer) h of (x, h') \<Rightarrow> (Ok x, Some h')))"

text \<open>One turn of the loop: a packet and the rest of the buffer.\<close>

definition read_frame ::
  "'c world_lib \<Rightarrow> bytes \<Rightarrow> bytes \<Rightarrow> (world_error, ClientPacket \<times> bytes) res" where
  "read_frame W header buffer =
     res_bind (deserialize_with W (TTup [TU16, TU16, TU16]) header_of header) (\<lambda>(sz, op_code).
     let sz = unat (swap_bytes sz) in
     res_bind (ok_or (WE_OpCode op_code) (OpCode_try_from op_code)) (\<lambda>code.
     res_bind (slice 6 (sz + 2) buffer) (\<lambda>packet.
     res_bind (read_client_packet W code packet) (\<lambda>p.
     Ok (p, drop (6 + length packet) buffer)))))"

lemma read_frame_decr:
  "read_frame W header buffer = Ok (p, rest) \<Longrightarrow> buffer \<noteq> [] \<Longrightarrow> length rest < length buffer"
  by (auto simp: read_frame_def res_simps Let_def split: prod.splits)

function read_frames ::
  "'c world_lib \<Rightarrow> 'c HeaderCrypto option \<Rightarrow> bytes \<Rightarrow>
     (world_error, ClientPacket list) res \<times> 'c HeaderCrypto option" where
  "read_frames W session buffer =
     (if buffer = [] then (Ok [], session)
      else case read_header W session buffer of
             (Ok header, session1) \<Rightarrow>
               (case read_frame W header buffer of
                  Ok (p, rest) \<Rightarrow>
                    (case read_frames W session1 rest of
                       (Ok ps, session2) \<Rightarrow> (Ok (p # ps), session2)
                     | (Err e, session2) \<Rightarrow> (Err e, session2)
                     | (Panic, session2) \<Rightarrow> (Panic, session2))
                | Err e \<Rightarrow> (Err e, session1)
                | Panic \<Rightarrow> (Panic, session1))
           | (Err e, session1) \<Rightarrow> (Err e, session1)
           | (Panic, session1) \<Rightarrow> (Panic, session1))"
  by pat_completeness auto
termination
  by (relation "measure (\<lambda>(W, s, b). length b)") (auto intro: read_frame_decr)

declare read_frames.simps [simp del]

definition read_packets ::
  "'c world_lib \<Rightarrow> 'c HeaderCrypto option \<Rightarrow> net_event list \<Rightarrow>
     (world_error, ClientPacket list) res \<times> 'c HeaderCrypto option \<times> net_event list" where
  "read_packets W session evs =
     (case tcp_read 2048 evs of
        (Err e, evs1) \<Rightarrow> (Err (WE_Io e), session, evs1)
      | (Panic, evs1) \<Rightarrow> (Panic, session, evs1)
      | (Ok buffer, evs1) \<Rightarrow>
          if buffer = [] then (Err WE_Closed, session, evs1)
          else (case read_frames W session buffer of (r, session1) \<Rightarrow> (r, session1, evs1)))"

section \<open>Frames of a client\<close>

text \<open>A packet as a client sends it: a body under an operation code, its header in the clear.\<close>

definition frame_header :: "OpCode \<times> bytes \<Rightarrow> bytes" where
  "frame_header f = u16_le (swap_bytes (of_nat (length (snd f) + 4))) @ u16_le (OpCode_u16 (fst f)) @ [0, 0]"

text \<open>A sequence of packets, the headers passed through the client's cipher when there is one.\<close>

fun client_frames :: "'c crypto \<Rightarrow> 'c option \<Rightarrow> (OpCode \<times> bytes) list \<Rightarrow> bytes" where
  "client_frames C s [] = []"
| "client_frames C None (f # fs) = frame_header f @ snd f @ client_frames C None fs"
| "client_frames C (Some s) (f # fs) =
     (case cy_rc4_process C s (frame_header f) of
        (h, s') \<Rightarrow> h @ snd f @ client_frames C (Some s') fs)"

fun client_cipher :: "'c crypto \<Rightarrow> 'c option \<Rightarrow> (OpCode \<times> bytes) list \<Rightarrow> 'c option" where
  "client_cipher C s [] = s"
| "client_cipher C None (f # fs) = None"
| "client_cipher C (Some s) (f # fs) = client_cipher C (Some (snd (cy_rc4_process C s (frame_header f)))) fs"

lemma length_frame_header [simp]: "length (frame_header f) = 6"
  by (simp add: frame_header_def)

lemma deserialize_with_eq:
  assumes "bincode_lib (wl_lib W)"
  shows "deserialize_with W ty of_sval bs = Ok x \<longleftrightarrow>
    (\<exists>v. has_sty v ty \<and> str_ok v \<and> bs = fixint_bytes v \<and> of_sval v = Some x)"
proof -
  have "deserialize_with W ty of_sval bs = Ok x \<longleftrightarrow> (\<exists>v. fixint_de ty bs = Some v \<and> of_sval v = Some x)"
    by (auto simp: deserialize_with_def bincode_lib.de_wow_eq [OF assms] res_simps split: option.splits)
  then show ?thesis by (simp add: fixint_de_iff)
qed

lemma unat_u16_small: "n < 2 ^ 16 \<Longrightarrow> unat (of_nat n :: u16) = n"
  by (simp add: unat_of_nat)

lemma header_decodes:
  assumes "bincode_lib (wl_lib W)"
  shows "deserialize_with W (TTup [TU16, TU16, TU16]) header_of (frame_header (code, body)) =
    Ok (swap_bytes (of_nat (length body + 4)), OpCode_u16 code)"
  unfolding deserialize_with_eq [OF assms]
  by (rule exI [of _ "STup [SU16 (swap_bytes (of_nat (length body + 4))), SU16 (OpCode_u16 code), SU16 0]"])
    (simp add: frame_header_def header_of_def u16_le_def le_bytes_short)

lemma read_frame_client:
  assumes "bincode_lib (wl_lib W)" and "length body + 4 < 2 ^ 16" and "length header = 6"
    and "read_client_packet W code body = Ok p"
  shows "read_frame W (frame_header (code, body)) (header @ body @ rest) = Ok (p, rest)"
proof -
  let ?size = "swap_bytes (of_nat (length body + 4))"
  have "deserialize_with W (TTup [TU16, TU16, TU16]) header_of (frame_header (code, body)) =
      Ok (?size, OpCode_u16 code)"
    by (rule header_decodes [OF assms(1)])
  moreover have "unat (swap_bytes ?size) = length body + 4"
    unfolding swap_bytes_involutive using assms(2) by (rule unat_u16_small)
  moreover have "OpCode_try_from (OpCode_u16 code) = Some code" by (simp add: OpCode_try_from_eq)
  ultimately show ?thesis
    using assms(3,4) by (simp add: read_frame_def slice_def Let_def)
qed

text \<open>What a sequence of packets is read as, and that a session's cipher ends where the client's does.\<close>

lemma read_frames_plain:
  assumes "bincode_lib (wl_lib W)"
  shows "list_all2 (\<lambda>f p. length (snd f) + 4 < 2 ^ 16 \<and> read_client_packet W (fst f) (snd f) = Ok p) fs ps \<Longrightarrow>
    read_frames W None (client_frames C None fs) = (Ok ps, None)"
proof (induction fs ps rule: list_all2_induct)
  case Nil
  then show ?case by (simp add: read_frames.simps)
next
  case (Cons f fs p ps)
  let ?rest = "client_frames C None fs"
  have ne: "client_frames C None (f # fs) \<noteq> []" by (auto simp flip: length_greater_0_conv)
  have "read_frame W (frame_header f) (client_frames C None (f # fs)) = Ok (p, ?rest)"
    using read_frame_client [OF assms, of "snd f" "frame_header f" "fst f" p ?rest] Cons(1) by simp
  with Cons.IH ne show ?case
    by (subst read_frames.simps) (simp add: read_header_def)
qed

lemma read_frames_session:
  assumes "bincode_lib (wl_lib W)" and "stream_cipher (wl_crypto W)"
  shows "list_all2 (\<lambda>f p. length (snd f) + 4 < 2 ^ 16 \<and> read_client_packet W (fst f) (snd f) = Ok p) fs ps \<Longrightarrow>
    read_frames W (Some h) (client_frames (wl_crypto W) (Some (hc_decrypt h)) fs) =
      (Ok ps, Some (h\<lparr>hc_decrypt := the (client_cipher (wl_crypto W) (Some (hc_decrypt h)) fs)\<rparr>))"
proof (induction fs ps arbitrary: h rule: list_all2_induct)
  case Nil
  then show ?case by (simp add: read_frames.simps)
next
  case (Cons f fs p ps)
  let ?C = "wl_crypto W"
  obtain x d where x: "cy_rc4_process ?C (hc_decrypt h) (frame_header f) = (x, d)" by fastforce
  have len: "length x = 6" using stream_cipher.process_length' [OF assms(2) x] by simp
  let ?h = "h\<lparr>hc_decrypt := d\<rparr>" and ?rest = "client_frames ?C (Some d) fs"
  have buf: "client_frames ?C (Some (hc_decrypt h)) (f # fs) = x @ snd f @ ?rest" by (simp add: x)
  have "read_header W (Some h) (x @ snd f @ ?rest) = (Ok (frame_header f), Some ?h)"
    using len by (simp add: read_header_def stream_cipher.decrypt_header_inverse [OF assms(2) x])
  moreover have "read_frame W (frame_header f) (x @ snd f @ ?rest) = Ok (p, ?rest)"
    using read_frame_client [OF assms(1), of "snd f" x "fst f" p ?rest] Cons(1) len by simp
  moreover have "x @ snd f @ ?rest \<noteq> []" using len by auto
  ultimately show ?case
    unfolding buf using Cons.IH [of ?h] by (subst read_frames.simps) (simp add: x)
qed

section \<open>Properties\<close>

text \<open>
  C33. A frame of packets round trips. When one read delivers the packets a client sent, each one
  readable on its own, the server reads exactly those packets in their order; in a session the
  headers are decrypted on the way and the server's cipher ends where the client's does.
\<close>

theorem read_packets_roundtrip:
  assumes "bincode_lib (wl_lib W)" and "stream_cipher (wl_crypto W)"
    and "list_all2 (\<lambda>f p. length (snd f) + 4 < 2 ^ 16 \<and> read_client_packet W (fst f) (snd f) = Ok p) fs ps"
    and "buffer = client_frames (wl_crypto W) (map_option hc_decrypt session) fs"
    and "fs \<noteq> []" and "length buffer \<le> 2048"
  shows "read_packets W session (Seg buffer # evs) =
    (Ok ps, map_option (\<lambda>h. h\<lparr>hc_decrypt := the (client_cipher (wl_crypto W) (Some (hc_decrypt h)) fs)\<rparr>) session, evs)"
proof -
  have fs: "read_frames W session buffer =
    (Ok ps, map_option (\<lambda>h. h\<lparr>hc_decrypt := the (client_cipher (wl_crypto W) (Some (hc_decrypt h)) fs)\<rparr>) session)"
    using read_frames_plain [OF assms(1,3)] read_frames_session [OF assms(1,2,3)] assms(4)
    by (cases session) simp_all
  have "buffer \<noteq> []"
  proof
    assume "buffer = []"
    then have "ps = []" using fs by (simp add: read_frames.simps)
    with assms(3,5) show False by simp
  qed
  with fs assms(6) show ?thesis by (simp add: read_packets_def seg_push_def)
qed

definition demo_world_lib :: "rc4 world_lib" where
  "demo_world_lib = \<lparr>wl_lib = ref_lib, wl_crypto = ref_crypto, wl_unzip = (\<lambda>bs. Some bs)\<rparr>"

theorem read_packets_roundtrip_witness:
  "read_packets demo_world_lib None [Seg [0, 4, 0x37, 0, 0, 0, 0, 12, 0xDC, 1, 0, 0, 5, 0, 0, 0, 9, 0, 0, 0]] =
     (Ok [CP_CharEnum, CP_Ping 5 9], None, [])"
proof -
  let ?fs = "[(CmsgCharEnum, []), (CmsgPing, [5, 0, 0, 0, 9, 0, 0, 0])]"
  have "deserialize_with demo_world_lib (TTup [TU32, TU32]) ping_of [5, 0, 0, 0, 9, 0, 0, 0] = Ok (5, 9)"
    by (simp add: deserialize_with_def demo_world_lib_def ref_lib_def fixint_de_def ping_of_def)
  then have ok: "list_all2 (\<lambda>f p. length (snd f) + 4 < 2 ^ 16 \<and>
      read_client_packet demo_world_lib (fst f) (snd f) = Ok p) ?fs [CP_CharEnum, CP_Ping 5 9]"
    by simp
  have buffer: "[0, 4, 0x37, 0, 0, 0, 0, 12, 0xDC, 1, 0, 0, 5, 0, 0, 0, 9, 0, 0, 0] =
      client_frames (wl_crypto demo_world_lib) (map_option hc_decrypt None) ?fs"
    by (simp add: frame_header_def swap_bytes_def u16_le_def le_bytes_short)
  have "bincode_lib (wl_lib demo_world_lib)" "stream_cipher (wl_crypto demo_world_lib)"
    by (simp_all add: demo_world_lib_def ref_libs.bincode_lib_axioms ref_cipher.stream_cipher_axioms)
  from read_packets_roundtrip [OF this ok buffer, of "[]"] show ?thesis by simp
qed

text \<open>
  A read that ends inside a packet panics: a frame cut at any place within its header or its
  body, before a session exists, is not an error but a panic.
\<close>

lemma truncated_frame_panics:
  assumes "bincode_lib (wl_lib W)" and "length body + 4 < 2 ^ 16"
    and "0 < k" and "k < 6 + length body" and "k \<le> 2048"
  shows "fst (read_packets W None [Seg (take k (frame_header (code, body) @ body))]) = Panic"
proof -
  let ?b = "take k (frame_header (code, body) @ body)"
  have len: "length ?b = k" using assms(4) by simp
  then have ne: "?b \<noteq> []" using assms(3) by (metis less_numeral_extra(3) list.size(3))
  have "fst (read_frames W None ?b) = Panic"
  proof (cases "k < 6")
    case True
    then show ?thesis using ne len by (subst read_frames.simps) (simp add: read_header_def)
  next
    case False
    then have hd: "take 6 ?b = frame_header (code, body)" by (simp add: min_def)
    let ?size = "swap_bytes (of_nat (length body + 4))"
    have "deserialize_with W (TTup [TU16, TU16, TU16]) header_of (frame_header (code, body)) =
        Ok (?size, OpCode_u16 code)"
      by (rule header_decodes [OF assms(1)])
    moreover have "unat (swap_bytes ?size) = length body + 4"
      unfolding swap_bytes_involutive using assms(2) by (rule unat_u16_small)
    moreover have "OpCode_try_from (OpCode_u16 code) = Some code" by (simp add: OpCode_try_from_eq)
    ultimately have "read_frame W (frame_header (code, body)) ?b = Panic"
      using len assms(4) by (simp add: read_frame_def slice_def Let_def del: length_take take_append)
    with False ne len hd show ?thesis
      by (subst read_frames.simps) (simp add: read_header_def del: length_take take_append)
  qed
  with ne len assms(5) show ?thesis
    by (simp add: read_packets_def seg_push_def split_beta del: length_take take_append)
qed

lemma truncated_frame_panics_witness:
  "fst (read_packets demo_world_lib None [Seg (take 3 (frame_header (CmsgAuthSession, []) @ []))]) = Panic"
  by (rule truncated_frame_panics) (simp_all add: demo_world_lib_def ref_libs.bincode_lib_axioms)

end
