(* ===== verification/World_Session.thy ===== *)
theory World_Session
  imports World_Packets
begin

text \<open>
  A session of the world server (services/world/src/world/session.rs): the writing half of the
  connection, the header ciphers and what the server keeps about the client, and the packets it
  sends. A session's client record is the one its creation was given: nothing changes the
  account of a client afterwards. What a step reads from its surroundings (libraries, overflow
  checks, the two clocks) is the record \<open>send_env\<close>.
\<close>

section \<open>State\<close>

type_synonym ClientId = u64

record Client =
  cl_id :: ClientId
  cl_account :: "AccountId option"

record 'c Session =
  ss_client_id :: ClientId
  ss_client :: Client
  ss_stream :: writer
  ss_encryption :: "'c HeaderCrypto"
  ss_latency :: u32
  ss_timeout :: int
  ss_addons :: "Addon list"
  ss_character :: "Character option"

record 'c send_env =
  sv_world :: "'c world_lib"
  sv_checks :: bool
  sv_now :: int
  sv_unix :: int

section \<open>Writing packets\<close>

definition encrypt_headers :: "'c send_env \<Rightarrow> bytes \<Rightarrow> 'c Session \<Rightarrow> bytes \<times> 'c Session" where
  [simp]: "encrypt_headers E header s =
     (case hc_encrypt_header (wl_crypto (sv_world E)) header (ss_encryption s) of
        (encrypted, crypto) \<Rightarrow> (encrypted, s\<lparr>ss_encryption := crypto\<rparr>))"

text \<open>
  The header is encrypted before the packet is handed to a single \<open>write\<close>, whose count is the
  result.
\<close>

definition write_packet ::
  "'c send_env \<Rightarrow> OpCode \<Rightarrow> bytes \<Rightarrow> 'c Session \<Rightarrow> (world_error, nat) res \<times> 'c Session" where
  "write_packet E opcode bytes s =
     (case add_checked (sv_checks E) (of_nat (length bytes) :: u16) 2 of
        Panic \<Rightarrow> (Panic, s)
      | Err e \<Rightarrow> (Err e, s)
      | Ok sz \<Rightarrow>
          (case serialize_into 4 (ser_wow (wl_lib (sv_world E))
                  (STup [SU16 (swap_bytes sz), SU16 (OpCode_u16 opcode)])) of
             None \<Rightarrow> (Err WE_Serialize, s)
           | Some headers \<Rightarrow>
               (case encrypt_headers E headers s of
                  (encrypted, s1) \<Rightarrow>
                    (case write_some (encrypted @ bytes) (ss_stream s1) of
                       (r, stream) \<Rightarrow> (map_err WE_Io r, s1\<lparr>ss_stream := stream\<rparr>)))))"

text \<open>An \<open>f32\<close> cast to \<open>u32\<close>: towards zero, with the bounds of the target for what is outside.\<close>

definition f32_as_u32 :: "u32 \<Rightarrow> u32" where
  "f32_as_u32 w =
     (let e = unat w div 2 ^ 23 mod 256;
          m = unat w mod 2 ^ 23;
          n = (if e = 0 then m else m + 2 ^ 23);
          v = (if 150 \<le> e then n * 2 ^ (e - 150) else n div 2 ^ (150 - max 1 e))
      in if e = 255 \<and> m \<noteq> 0 \<or> 2 ^ 31 \<le> unat w then 0
         else if e = 255 \<or> 2 ^ 32 \<le> v then 2 ^ 32 - 1 else of_nat v)"

definition Item_sval :: "Item \<Rightarrow> sval" where
  "Item_sval i = STup [SU32 (it_display i), SU8 (it_inventory i), SU32 (it_aura i)]"

definition char_sval :: "Character \<times> Item list \<Rightarrow> sval" where
  "char_sval ci =
     (case ci of (c, items) \<Rightarrow>
        STup [SU64 (ch_id c), SStr (ch_name c), SU8 (ch_race c), SU8 (ch_class c),
          sbytes [ch_gender c, ch_skin_color c, ch_face c, ch_hair_style c, ch_hair_color c,
                  ch_facial_style c],
          SU8 (ch_level c),
          STup [SU32 (ucast (ch_zone c)), SU32 (ucast (ch_map c)), SU32 (f32_as_u32 (ch_position_x c)),
                SU32 (f32_as_u32 (ch_position_y c)), SU32 (f32_as_u32 (ch_position_z c))],
          SU32 0, SU32 0, SU32 0, SU8 0, SU32 0, SU32 0, SU32 0,
          STup (map Item_sval items)])"

fun serialize_chars :: "lib \<Rightarrow> (Character \<times> Item list) list \<Rightarrow> (world_error, bytes) res" where
  "serialize_chars L [] = Ok []"
| "serialize_chars L (c # cs) =
     (case ser_wow L (char_sval c) of
        None \<Rightarrow> Panic
      | Some b \<Rightarrow> res_bind (serialize_chars L cs) (\<lambda>bs. Ok (b @ bs)))"

definition addon_info :: "Addon \<Rightarrow> bytes" where
  "addon_info a = [2, 1, if ao_crc a \<noteq> 0x4C1C776D then 1 else 0, 0, 0, 0, 0, 0]"

definition GLOBAL_CACHE_MASK :: u32 where
  "GLOBAL_CACHE_MASK = 0x15"

definition cache_time :: "DualDataCache \<Rightarrow> u32" where
  "cache_time d = (case dd_global d of Some c \<Rightarrow> dc_time c | None \<Rightarrow> 0)"

text \<open>The operation code and the body of a packet.\<close>

fun packet_body :: "'c send_env \<Rightarrow> ServerPacket \<Rightarrow> (world_error, OpCode \<times> bytes) res" where
  "packet_body E SP_AuthResponse =
     res_bind (ok_or WE_Serialize (ser_wow (wl_lib (sv_world E))
        (STup [SU32 (ResponseCode_u32 Resp_AuthOk), SU32 0, SU8 0, SU8 0, SU8 (ClientVersion_u8 Wotlk)])))
       (\<lambda>b. Ok (SmsgAuthResponse, b))"
| "packet_body E (SP_AddonInfo addons) = Ok (SmsgAddonInfo, concat (map addon_info addons) @ [0])"
| "packet_body E (SP_ClientCacheVersion version) =
     res_bind (ok_or WE_Serialize (ser_wow (wl_lib (sv_world E)) (SU32 version)))
       (\<lambda>b. Ok (SmsgClientcacheVersion, b))"
| "packet_body E SP_TutorialData =
     res_bind (ok_or WE_Serialize (ser_wow (wl_lib (sv_world E)) (STup (replicate 8 (SU32 0)))))
       (\<lambda>b. Ok (SmsgTutorialFlags, b))"
| "packet_body E (SP_Pong ping) =
     res_bind (ok_or WE_Serialize (ser_wow (wl_lib (sv_world E)) (SU32 ping))) (\<lambda>b. Ok (SmsgPong, b))"
| "packet_body E (SP_CharEnum characters) =
     res_bind (serialize_chars (wl_lib (sv_world E)) characters)
       (\<lambda>b. Ok (SmsgCharEnum, of_nat (length characters) # b))"
| "packet_body E (SP_AccountDataTimes d) =
     (if sv_unix E < 0 then Err WE_Time
      else
        let now = (of_nat (nat (sv_unix E div 1000000000)) :: u32) in
        res_bind (ok_or WE_Serialize (serialize_into 21 (ser_wow (wl_lib (sv_world E))
           (STup [SU32 now, SU8 0, SU32 GLOBAL_CACHE_MASK, SU32 (cache_time (ad_config d)),
                  SU32 (cache_time (ad_bindings d)), SU32 (cache_time (ad_macros d))]))))
          (\<lambda>b. Ok (SmsgAccountDataTimes, b)))"
| "packet_body E (SP_RealmSplit realm) =
     res_bind (ok_or WE_Serialize (ser_wow (wl_lib (sv_world E))
        (STup [SU32 realm, SU32 0, SStr (ascii ''01/01/01'')]))) (\<lambda>b. Ok (SmsgRealmSplit, b))"
| "packet_body E (SP_CharacterCreate code) = Ok (SmsgCharCreate, [ucast (ResponseCode_u32 code)])"
| "packet_body E (SP_CharacterDelete code) = Ok (SmsgCharDelete, [ucast (ResponseCode_u32 code)])"

definition send_packet ::
  "'c send_env \<Rightarrow> ServerPacket \<Rightarrow> 'c Session \<Rightarrow> (world_error, unit) res \<times> 'c Session" where
  "send_packet E p s =
     (case packet_body E p of
        Panic \<Rightarrow> (Panic, s)
      | Err e \<Rightarrow> (Err e, s)
      | Ok (opcode, bytes) \<Rightarrow>
          (case write_packet E opcode bytes s of
             (Ok n, s1) \<Rightarrow> (Ok (), s1)
           | (Err e, s1) \<Rightarrow> (Err e, s1)
           | (Panic, s1) \<Rightarrow> (Panic, s1)))"

fun send_packets ::
  "'c send_env \<Rightarrow> ServerPacket list \<Rightarrow> 'c Session \<Rightarrow> (world_error, unit) res \<times> 'c Session" where
  "send_packets E [] s = (Ok (), s)"
| "send_packets E (p # ps) s =
     (case send_packet E p s of
        (Ok _, s1) \<Rightarrow> send_packets E ps s1
      | (Err e, s1) \<Rightarrow> (Err e, s1)
      | (Panic, s1) \<Rightarrow> (Panic, s1))"

section \<open>Session operations\<close>

definition set_latency :: "u32 \<Rightarrow> 'c Session \<Rightarrow> 'c Session" where
  "set_latency latency s = s\<lparr>ss_latency := latency\<rparr>"

definition reset_timeout :: "'c send_env \<Rightarrow> 'c Session \<Rightarrow> 'c Session" where
  "reset_timeout E s = s\<lparr>ss_timeout := sv_now E\<rparr>"

definition session_login :: "Character \<Rightarrow> 'c Session \<Rightarrow> 'c Session" where
  "session_login c s = s\<lparr>ss_character := Some c\<rparr>"

definition finalize_session :: "'c send_env \<Rightarrow> 'c Session \<Rightarrow> (world_error, unit) res \<times> 'c Session" where
  "finalize_session E s =
     send_packets E [SP_AuthResponse, SP_AddonInfo (ss_addons s), SP_ClientCacheVersion 0, SP_TutorialData] s"

text \<open>\<open>Session::new\<close>: the session, or an error with the stream given back.\<close>

definition Session_new ::
  "'c send_env \<Rightarrow> Client \<Rightarrow> writer \<Rightarrow> bytes \<Rightarrow> Addon list \<Rightarrow> (world_error \<times> writer, 'c Session) res" where
  "Session_new E client stream session_key addons =
     (let x = \<lparr>ss_client_id = cl_id client, ss_client = client, ss_stream = stream,
           ss_encryption = HeaderCrypto_new (wl_crypto (sv_world E)) session_key, ss_latency = 0,
           ss_timeout = sv_now E, ss_addons = addons, ss_character = None\<rparr>
      in case finalize_session E x of
           (Ok _, x') \<Rightarrow> Ok x'
         | (Err e, x') \<Rightarrow> Err (e, ss_stream x')
         | (Panic, x') \<Rightarrow> Panic)"

section \<open>What the client sees\<close>

text \<open>
  The client's side: it decrypts four bytes with its cipher, learns the size from them and takes
  the body.
\<close>

function client_read :: "'c crypto \<Rightarrow> 'c \<Rightarrow> bytes \<Rightarrow> (u16 \<times> bytes) list option" where
  "client_read C s out =
     (if out = [] then Some []
      else if length out < 4 then None
      else case cy_rc4_process C s (take 4 out) of
             (h, s') \<Rightarrow>
               let n = 256 * unat (h ! 0) + unat (h ! 1) - 2;
                   rest = drop 4 out
               in if length rest < n then None
                  else map_option (\<lambda>ps. (of_nat (le_val (drop 2 h)), take n rest) # ps)
                         (client_read C s' (drop n rest)))"
  by pat_completeness auto
termination
  by (relation "measure (\<lambda>(C, s, out). length out)") auto

declare client_read.simps [simp del]

section \<open>Lemmas\<close>

text \<open>The header of a server packet in the clear.\<close>

definition server_header :: "OpCode \<Rightarrow> nat \<Rightarrow> bytes" where
  "server_header opcode n = u16_le (swap_bytes (of_nat (n + 2))) @ u16_le (OpCode_u16 opcode)"

lemma length_server_header [simp]: "length (server_header opcode n) = 4"
  by (simp add: server_header_def)

lemma u16_le_swap: "u16_le (swap_bytes w) = rev (u16_le w)"
  by (simp add: swap_bytes_def u16_le_of_le_val)

lemma server_header_size:
  "256 * unat (server_header opcode n ! 0) + unat (server_header opcode n ! 1) = (n + 2) mod 2 ^ 16"
proof -
  obtain a b where ab: "u16_le (of_nat (n + 2)) = [a, b]"
    by (simp add: u16_le_def le_bytes_short)
  have "unat a + 256 * unat b = unat (of_nat (n + 2) :: u16)"
    using le_val_u16_le [of "of_nat (n + 2)"] by (simp only: ab le_val.simps) simp
  also have "\<dots> = (n + 2) mod 2 ^ 16" by (simp only: unat_of_nat) simp
  finally have "256 * unat b + unat a = (n + 2) mod 2 ^ 16" by simp
  then show ?thesis unfolding server_header_def u16_le_swap ab by simp
qed

lemma server_header_fields:
  assumes "n + 2 < 2 ^ 16"
  shows "256 * unat (server_header opcode n ! 0) + unat (server_header opcode n ! 1) = n + 2"
    and "drop 2 (server_header opcode n) = u16_le (OpCode_u16 opcode)"
  using server_header_size [of opcode n] assms by (simp_all add: server_header_def)

lemma add_checked_small:
  "length bs + 2 < 2 ^ 16 \<Longrightarrow> add_checked chk (of_nat (length bs) :: u16) 2 = Ok (of_nat (length bs + 2))"
  using unat_u16_small [of "length bs"] by (simp add: add_checked_def)

lemma write_packet_eq:
  assumes "bincode_lib (wl_lib (sv_world E))" and "length bs + 2 < 2 ^ 16"
  shows "write_packet E opcode bs s =
    (case hc_encrypt_header (wl_crypto (sv_world E)) (server_header opcode (length bs)) (ss_encryption s) of
       (x, crypto) \<Rightarrow>
         (case write_some (x @ bs) (ss_stream s) of
            (r, stream) \<Rightarrow> (map_err WE_Io r, s\<lparr>ss_encryption := crypto, ss_stream := stream\<rparr>)))"
proof -
  have "ser_wow (wl_lib (sv_world E)) (STup [SU16 (swap_bytes (of_nat (length bs + 2))), SU16 (OpCode_u16 opcode)])
      = Some (server_header opcode (length bs))"
    by (simp add: bincode_lib.ser_wow [OF assms(1)] server_header_def)
  then show ?thesis
    unfolding write_packet_def add_checked_small [OF assms(2)] by (simp add: split_beta del: of_nat_add)
qed

text \<open>The client's reader undoes one packet.\<close>

lemma client_read_packet:
  assumes "stream_cipher C" and "cy_rc4_process C k (server_header opcode (length bs)) = (x, k')"
    and "length bs + 2 < 2 ^ 16"
  shows "client_read C k (x @ bs @ rest) =
    map_option (\<lambda>ps. (OpCode_u16 opcode, bs) # ps) (client_read C k' rest)"
proof -
  let ?h = "server_header opcode (length bs)"
  have x: "length x = 4" using stream_cipher.process_length' [OF assms(1,2)] by simp
  have inv: "cy_rc4_process C k x = (?h, k')"
    using stream_cipher.process_inverse [OF assms(1), of k ?h] assms(2) by simp
  from x have "x \<noteq> []" by auto
  then show ?thesis
    using x server_header_fields [OF assms(3), of opcode]
    by (subst client_read.simps) (simp add: inv Let_def)
qed

lemma send_packet_eq:
  assumes "bincode_lib (wl_lib (sv_world E))" and "packet_body E p = Ok (opcode, bs)"
    and "length bs + 2 < 2 ^ 16" and "wr_plan (ss_stream s) = []"
    and "cy_rc4_process (wl_crypto (sv_world E)) (hc_encrypt (ss_encryption s)) (server_header opcode (length bs)) = (x, k')"
  shows "send_packet E p s = (Ok (),
    s\<lparr>ss_encryption := (ss_encryption s)\<lparr>hc_encrypt := k'\<rparr>,
      ss_stream := (ss_stream s)\<lparr>wr_out := wr_out (ss_stream s) @ x @ bs\<rparr>\<rparr>)"
  using assms by (simp add: send_packet_def write_packet_eq hc_encrypt_header_def)

lemma send_packets_client:
  assumes "bincode_lib (wl_lib (sv_world E))" and "stream_cipher (wl_crypto (sv_world E))"
  shows "list_all2 (\<lambda>p f. packet_body E p = Ok f \<and> length (snd f) + 2 < 2 ^ 16) ps fs \<Longrightarrow>
    wr_plan (ss_stream s) = [] \<Longrightarrow>
    \<exists>s' out. send_packets E ps s = (Ok (), s') \<and> wr_out (ss_stream s') = wr_out (ss_stream s) @ out \<and>
      client_read (wl_crypto (sv_world E)) (hc_encrypt (ss_encryption s)) out =
        Some (map (\<lambda>(opcode, bs). (OpCode_u16 opcode, bs)) fs)"
proof (induction ps fs arbitrary: s rule: list_all2_induct)
  case Nil
  then show ?case by (simp add: client_read.simps)
next
  case (Cons p ps f fs)
  obtain opcode bs where f: "f = (opcode, bs)" by fastforce
  let ?C = "wl_crypto (sv_world E)"
  obtain x k' where x: "cy_rc4_process ?C (hc_encrypt (ss_encryption s)) (server_header opcode (length bs)) = (x, k')"
    by fastforce
  let ?s = "s\<lparr>ss_encryption := (ss_encryption s)\<lparr>hc_encrypt := k'\<rparr>,
      ss_stream := (ss_stream s)\<lparr>wr_out := wr_out (ss_stream s) @ x @ bs\<rparr>\<rparr>"
  have "send_packet E p s = (Ok (), ?s)"
    using Cons(1) Cons.prems f by (intro send_packet_eq [OF assms(1) _ _ _ x]) auto
  moreover obtain s' out where "send_packets E ps ?s = (Ok (), s')"
    "wr_out (ss_stream s') = wr_out (ss_stream s) @ (x @ bs @ out)"
    "client_read ?C k' out = Some (map (\<lambda>(opcode, bs). (OpCode_u16 opcode, bs)) fs)"
    using Cons.IH [of ?s] Cons.prems by auto
  ultimately show ?case
    using client_read_packet [OF assms(2) x, of out] Cons(1) f
    by (intro exI [of _ s'] exI [of _ "x @ bs @ out"]) simp
qed

section \<open>Properties\<close>

text \<open>
  C34. Packets reach the client: on a socket that takes everything, a sequence of packets is
  written as frames from which a client holding the matching cipher reads exactly the operation
  codes and bodies that were sent, in order.
\<close>

theorem send_packets_roundtrip:
  assumes "bincode_lib (wl_lib (sv_world E))" and "stream_cipher (wl_crypto (sv_world E))"
    and "list_all2 (\<lambda>p f. packet_body E p = Ok f \<and> length (snd f) + 2 < 2 ^ 16) ps fs"
    and "wr_plan (ss_stream s) = []"
  shows "\<exists>s' out. send_packets E ps s = (Ok (), s') \<and> wr_out (ss_stream s') = wr_out (ss_stream s) @ out \<and>
    client_read (wl_crypto (sv_world E)) (hc_encrypt (ss_encryption s)) out =
      Some (map (\<lambda>(opcode, bs). (OpCode_u16 opcode, bs)) fs)"
  using assms by (rule send_packets_client)

definition demo_send_env :: "rc4 send_env" where
  "demo_send_env = \<lparr>sv_world = demo_world_lib, sv_checks = True, sv_now = 0, sv_unix = 5000000000\<rparr>"

lemma demo_send_libs:
  "bincode_lib (wl_lib (sv_world demo_send_env))" "stream_cipher (wl_crypto (sv_world demo_send_env))"
  by (simp_all add: demo_send_env_def demo_world_lib_def ref_libs.bincode_lib_axioms
      ref_cipher.stream_cipher_axioms)

theorem send_packets_roundtrip_witness:
  "\<exists>s' out. send_packets demo_send_env [SP_Pong 7, SP_CharacterDelete Resp_CharDeleteSuccess]
       \<lparr>ss_client_id = 1, ss_client = \<lparr>cl_id = 1, cl_account = None\<rparr>, ss_stream = \<lparr>wr_out = [], wr_plan = []\<rparr>,
        ss_encryption = HeaderCrypto_new ref_crypto [], ss_latency = 0, ss_timeout = 0, ss_addons = [],
        ss_character = None\<rparr> = (Ok (), s') \<and> wr_out (ss_stream s') = out \<and>
     client_read ref_crypto (hc_encrypt (HeaderCrypto_new ref_crypto [])) out = Some [(0x1DD, [7, 0, 0, 0]), (0x3C, [71])]"
proof -
  have "packet_body demo_send_env (SP_Pong 7) = Ok (SmsgPong, [7, 0, 0, 0])"
    by (simp add: bincode_lib.ser_wow [OF demo_send_libs(1)] u32_le_def le_bytes_short)
  then have "list_all2 (\<lambda>p f. packet_body demo_send_env p = Ok f \<and> length (snd f) + 2 < 2 ^ 16)
      [SP_Pong 7, SP_CharacterDelete Resp_CharDeleteSuccess] [(SmsgPong, [7, 0, 0, 0]), (SmsgCharDelete, [71])]"
    by simp
  from send_packets_roundtrip [OF demo_send_libs this, of
      "\<lparr>ss_client_id = 1, ss_client = \<lparr>cl_id = 1, cl_account = None\<rparr>, ss_stream = \<lparr>wr_out = [], wr_plan = []\<rparr>,
        ss_encryption = HeaderCrypto_new ref_crypto [], ss_latency = 0, ss_timeout = 0, ss_addons = [],
        ss_character = None\<rparr>"]
  show ?thesis by (simp add: demo_send_env_def demo_world_lib_def)
qed

text \<open>
  A packet is handed to a single \<open>write\<close>: when the socket takes only part of it, the sending
  succeeds all the same, the rest is never written, and the cipher has moved on.
\<close>

lemma partial_write_lost:
  assumes "bincode_lib (wl_lib (sv_world E))" and "packet_body E p = Ok (opcode, bs)"
    and "length bs + 2 < 2 ^ 16" and "wr_plan (ss_stream s) = [Accepts n]" and "n < 4 + length bs"
  shows "\<exists>s' x. send_packet E p s = (Ok (), s') \<and>
    (x, ss_encryption s') = hc_encrypt_header (wl_crypto (sv_world E)) (server_header opcode (length bs)) (ss_encryption s) \<and>
    wr_out (ss_stream s') = wr_out (ss_stream s) @ take n (x @ bs) \<and> wr_plan (ss_stream s') = []"
  using assms(4)
  by (cases "hc_encrypt_header (wl_crypto (sv_world E)) (server_header opcode (length bs)) (ss_encryption s)")
    (simp add: send_packet_def assms(2) write_packet_eq [OF assms(1,3)] write_some_def)

lemma partial_write_lost_witness:
  "\<exists>s'. send_packet demo_send_env (SP_CharacterDelete Resp_CharDeleteSuccess)
       \<lparr>ss_client_id = 1, ss_client = \<lparr>cl_id = 1, cl_account = None\<rparr>,
        ss_stream = \<lparr>wr_out = [], wr_plan = [Accepts 0]\<rparr>,
        ss_encryption = HeaderCrypto_new ref_crypto [], ss_latency = 0, ss_timeout = 0, ss_addons = [],
        ss_character = None\<rparr> = (Ok (), s') \<and> wr_out (ss_stream s') = []"
  using partial_write_lost [OF demo_send_libs(1), of "SP_CharacterDelete Resp_CharDeleteSuccess" SmsgCharDelete "[71]"
      "\<lparr>ss_client_id = 1, ss_client = \<lparr>cl_id = 1, cl_account = None\<rparr>,
        ss_stream = \<lparr>wr_out = [], wr_plan = [Accepts 0]\<rparr>,
        ss_encryption = HeaderCrypto_new ref_crypto [], ss_latency = 0, ss_timeout = 0, ss_addons = [],
        ss_character = None\<rparr>" 0]
  by auto

end
