(* ===== verification/Mysql_Characters.thy ===== *)
theory Mysql_Characters
  imports World_Proto "HOL-Library.Multiset"
begin

text \<open>
  The character service: the trait \<open>CharacterService\<close> (game/src/characters.rs) as a record of
  operations with the locale \<open>character_service\<close>, and its implementation over the characters
  database (mysql-characters/src/characters.rs), on which the locale is interpreted. The contract
  is a refinement: a service state stands for a list of characters (\<open>abs\<close>), and every operation
  does on it what its name says. As for the authentication database, the tables are lists of
  rows, and the errors of the pool, the equality of text columns and the order in which rows that are
  asked for in no order come back are a parameter; \<open>guid\<close> is the primary key of the table of characters.
\<close>

section \<open>The trait\<close>

record 'k char_ops =
  ck_get :: "WowId \<Rightarrow> 'k \<Rightarrow> (CharacterServiceError, Character) res"
  ck_get_by_account :: "AccountId \<Rightarrow> 'k \<Rightarrow> (CharacterServiceError, Character list) res"
  ck_account_data :: "AccountId \<Rightarrow> 'k \<Rightarrow> (CharacterServiceError, AccountData) res"
  ck_count_by_account :: "AccountId \<Rightarrow> 'k \<Rightarrow> (CharacterServiceError, nat) res"
  ck_name_available :: "rstr \<Rightarrow> 'k \<Rightarrow> (CharacterServiceError, bool) res"
  ck_create_character ::
    "u32 \<Rightarrow> AccountId \<Rightarrow> CharacterCreate \<Rightarrow> 'k \<Rightarrow> (CharacterServiceError, unit) res \<times> 'k"
  ck_delete_character :: "WowId \<Rightarrow> 'k \<Rightarrow> (CharacterServiceError, unit) res \<times> 'k"

text \<open>The character a creation asks for: a player identifier with the drawn number, at level 1.\<close>

definition new_character :: "u32 \<Rightarrow> AccountId \<Rightarrow> CharacterCreate \<Rightarrow> Character" where
  "new_character low account create =
     \<lparr>ch_id = WowId_new Player low 0, ch_account = account, ch_name = cn_name create, ch_level = 1,
      ch_race = cn_race create, ch_class = cn_class create, ch_gender = cn_gender create,
      ch_skin_color = cn_skin_color create, ch_face = cn_face create,
      ch_hair_style = cn_hair_style create, ch_hair_color = cn_hair_color create,
      ch_facial_style = cn_facial_style create, ch_zone = cn_zone create, ch_map = cn_map create,
      ch_position_x = cn_position_x create, ch_position_y = cn_position_y create,
      ch_position_z = cn_position_z create\<rparr>"

locale character_service =
  fixes svc :: "'k char_ops"
    and abs :: "'k \<Rightarrow> Character list"
    and same_name :: "rstr \<Rightarrow> rstr \<Rightarrow> bool"
  assumes get_Ok: "ck_get svc i k = Ok c \<Longrightarrow> c \<in> set (abs k) \<and> ch_id c = i"
    and get_by_account_Ok:
      "ck_get_by_account svc a k = Ok cs \<Longrightarrow> mset cs = mset (filter (\<lambda>c. ch_account c = a) (abs k))"
    and name_available_Ok:
      "ck_name_available svc n k = Ok b \<Longrightarrow> b \<longleftrightarrow> (\<forall>c \<in> set (abs k). \<not> same_name (ch_name c) n)"
    and create_refines:
      "ck_create_character svc low a create k = (r, k') \<Longrightarrow>
         (r = Ok () \<and> abs k' = abs k @ [new_character low a create]) \<or> ((\<exists>e. r = Err e) \<and> k' = k)"
    and delete_refines:
      "ck_delete_character svc i k = (r, k') \<Longrightarrow>
         (r = Ok () \<and> abs k' = filter (\<lambda>c. ch_id c \<noteq> i) (abs k)) \<or> ((\<exists>e. r = Err e) \<and> k' = k)"
begin

lemma created_is_listed:
  assumes "ck_create_character svc low a create k = (Ok (), k')"
    and "ck_get_by_account svc b k' = Ok cs" and "ck_get_by_account svc b k = Ok cs0"
  shows "mset cs = mset cs0 + (if b = a then {#new_character low a create#} else {#})"
  using create_refines [OF assms(1)] get_by_account_Ok [OF assms(2)] get_by_account_Ok [OF assms(3)]
  by (auto simp: new_character_def)

lemma created_takes_name:
  assumes "ck_create_character svc low a create k = (Ok (), k')"
    and "same_name (cn_name create) n" and "ck_name_available svc n k' = Ok b"
  shows "\<not> b"
  using create_refines [OF assms(1)] name_available_Ok [OF assms(3)] assms(2)
  by (auto simp: new_character_def)

lemma deleted_is_gone:
  assumes "ck_delete_character svc i k = (Ok (), k')"
  shows "ck_get svc i k' \<noteq> Ok c"
  using delete_refines [OF assms] get_Ok [of i k' c] by auto

end

section \<open>The database service (mysql-characters/src/characters.rs)\<close>

record char_row =
  cw_character :: Character
  cw_taximask :: rstr
  cw_taxi_path :: rstr
  cw_exploredZones :: rstr
  cw_equipmentCache :: rstr
  cw_knownTitles :: rstr

record account_data_row =
  dr_accountId :: AccountId
  dr_type :: u8
  dr_time :: u32
  dr_data :: bytes

record char_db =
  cdb_characters :: "char_row list"
  cdb_account_data :: "account_data_row list"

datatype char_query =
  QC_get | QC_get_by_account | QC_count | QC_name | QC_create | QC_delete | QC_account_data

record char_env =
  ce_fault :: "char_query \<Rightarrow> rstr option"
  ce_text_eq :: "rstr \<Rightarrow> rstr \<Rightarrow> bool"
  ce_row_not_found :: rstr
  ce_duplicate_key :: rstr
  ce_rank :: "Character \<Rightarrow> nat"

definition char_run :: "char_env \<Rightarrow> char_query \<Rightarrow> 'a \<Rightarrow> (CharacterServiceError, 'a) res" where
  "char_run E q rows = (case ce_fault E q of Some e \<Rightarrow> Err (CS_PersistError e) | None \<Rightarrow> Ok rows)"

definition char_rows :: "char_db \<Rightarrow> Character list" where
  "char_rows db = map cw_character (cdb_characters db)"

definition char_get :: "char_env \<Rightarrow> WowId \<Rightarrow> char_db \<Rightarrow> (CharacterServiceError, Character) res" where
  "char_get E i db =
     res_bind (char_run E QC_get (find (\<lambda>c. ch_id c = i) (char_rows db)))
       (ok_or (CS_PersistError (ce_row_not_found E)))"

text \<open>
  The query for the characters of an account names no order: \<open>ce_rank\<close> is where the database has each row.
\<close>

definition char_get_by_account ::
  "char_env \<Rightarrow> AccountId \<Rightarrow> char_db \<Rightarrow> (CharacterServiceError, Character list) res" where
  "char_get_by_account E a db =
     char_run E QC_get_by_account (sort_key (ce_rank E) (filter (\<lambda>c. ch_account c = a) (char_rows db)))"

definition char_count_by_account ::
  "char_env \<Rightarrow> AccountId \<Rightarrow> char_db \<Rightarrow> (CharacterServiceError, nat) res" where
  "char_count_by_account E a db =
     char_run E QC_count (length (filter (\<lambda>c. ch_account c = a) (char_rows db)))"

definition char_name_available :: "char_env \<Rightarrow> rstr \<Rightarrow> char_db \<Rightarrow> (CharacterServiceError, bool) res" where
  "char_name_available E name db =
     res_bind (char_run E QC_name (length (filter (\<lambda>c. ce_text_eq E (ch_name c) name) (char_rows db))))
       (\<lambda>c. Ok (c = 0))"

definition char_create ::
  "char_env \<Rightarrow> u32 \<Rightarrow> AccountId \<Rightarrow> CharacterCreate \<Rightarrow> char_db \<Rightarrow> (CharacterServiceError, unit) res \<times> char_db" where
  "char_create E low account create db =
     (let c = new_character low account create in
      case ce_fault E QC_create of
        Some e \<Rightarrow> (Err (CS_PersistError e), db)
      | None \<Rightarrow>
          if list_ex (\<lambda>x. ch_id x = ch_id c) (char_rows db)
          then (Err (CS_PersistError (ce_duplicate_key E)), db)
          else (Ok (), db\<lparr>cdb_characters := cdb_characters db @
             [\<lparr>cw_character = c, cw_taximask = [], cw_taxi_path = [], cw_exploredZones = [],
               cw_equipmentCache = [], cw_knownTitles = []\<rparr>]\<rparr>))"

definition char_delete ::
  "char_env \<Rightarrow> WowId \<Rightarrow> char_db \<Rightarrow> (CharacterServiceError, unit) res \<times> char_db" where
  "char_delete E i db =
     (case ce_fault E QC_delete of
        Some e \<Rightarrow> (Err (CS_PersistError e), db)
      | None \<Rightarrow> (Ok (), db\<lparr>cdb_characters :=
          filter (\<lambda>r. ch_id (cw_character r) \<noteq> i) (cdb_characters db)\<rparr>))"

text \<open>
  The rows are collected into a map by their type, so that a later row of a type replaces an
  earlier one, and taken out of it slot by slot.
\<close>

definition char_account_data ::
  "char_env \<Rightarrow> AccountId \<Rightarrow> char_db \<Rightarrow> (CharacterServiceError, AccountData) res" where
  "char_account_data E a db =
     res_bind (char_run E QC_account_data (filter (\<lambda>r. dr_accountId r = a) (cdb_account_data db)))
       (\<lambda>rs. let rows = map_of (rev (map (\<lambda>r. (dr_type r, \<lparr>dc_time = dr_time r, dc_data = dr_data r\<rparr>)) rs))
             in Ok \<lparr>ad_config = \<lparr>dd_global = rows 0, dd_per_char = rows 1\<rparr>,
                    ad_bindings = \<lparr>dd_global = rows 2, dd_per_char = rows 3\<rparr>,
                    ad_macros = \<lparr>dd_global = rows 4, dd_per_char = rows 5\<rparr>,
                    ad_per_char_layout = rows 6, ad_per_char_chat = rows 7\<rparr>)"

definition mysql_characters :: "char_env \<Rightarrow> char_db char_ops" where
  "mysql_characters E = \<lparr>ck_get = char_get E, ck_get_by_account = char_get_by_account E,
     ck_account_data = char_account_data E, ck_count_by_account = char_count_by_account E,
     ck_name_available = char_name_available E, ck_create_character = char_create E,
     ck_delete_character = char_delete E\<rparr>"

section \<open>Lemmas\<close>

lemma char_run_eq [res_simps]:
  "char_run E q rows = Ok x \<longleftrightarrow> ce_fault E q = None \<and> x = rows"
  by (auto simp: char_run_def split: option.splits)

interpretation mysql_chars: character_service "mysql_characters E" char_rows "ce_text_eq E" for E
proof
  show "ck_get (mysql_characters E) i k = Ok c \<Longrightarrow> c \<in> set (char_rows k) \<and> ch_id c = i" for i k c
    by (auto simp: mysql_characters_def char_get_def res_simps find_Some_iff)
  show "ck_get_by_account (mysql_characters E) a k = Ok cs \<Longrightarrow>
      mset cs = mset (filter (\<lambda>c. ch_account c = a) (char_rows k))" for a k cs
    by (auto simp: mysql_characters_def char_get_by_account_def res_simps)
  show "ck_name_available (mysql_characters E) n k = Ok b \<Longrightarrow>
      b \<longleftrightarrow> (\<forall>c \<in> set (char_rows k). \<not> ce_text_eq E (ch_name c) n)" for n k b
    by (auto simp: mysql_characters_def char_name_available_def res_simps filter_empty_conv)
  show "ck_create_character (mysql_characters E) low a create k = (r, k') \<Longrightarrow>
      (r = Ok () \<and> char_rows k' = char_rows k @ [new_character low a create]) \<or> ((\<exists>e. r = Err e) \<and> k' = k)"
    for low a create k r k'
    by (auto simp: mysql_characters_def char_create_def char_rows_def Let_def split: option.splits if_splits)
  show "ck_delete_character (mysql_characters E) i k = (r, k') \<Longrightarrow>
      (r = Ok () \<and> char_rows k' = filter (\<lambda>c. ch_id c \<noteq> i) (char_rows k)) \<or> ((\<exists>e. r = Err e) \<and> k' = k)"
    for i k r k'
    by (auto simp: mysql_characters_def char_delete_def char_rows_def filter_map comp_def split: option.splits)
qed

definition char_demo_env :: char_env where
  "char_demo_env = \<lparr>ce_fault = (\<lambda>_. None), ce_text_eq = (=), ce_row_not_found = [], ce_duplicate_key = [],
     ce_rank = (\<lambda>_. 0)\<rparr>"

end
