(* ===== verification/World.thy ===== *)
theory World
  imports World_Session Mysql_Characters Account_Service
begin

text \<open>
  The world (services/world/src/world/world.rs): the sessions, the queue of packets received from
  them, and the handler of each packet. A session is shared between the connection that reads
  it and the world, so a handled packet writes it back into the map of sessions. The character
  service is an argument with the interface of theory \<open>Mysql_Characters\<close>; the lemmas on
  creation and deletion are proved against its locale and instantiated with the database.
\<close>

section \<open>State\<close>

record ('c, 'k) World =
  wo_id :: RealmId
  wo_start :: int
  wo_sessions :: "ClientId \<Rightarrow> 'c Session option"
  wo_queue :: "(ClientId \<times> ClientPacket) list"
  wo_chars :: 'k

record ('c, 'k) world_env =
  we_send :: "'c send_env"
  we_chars :: "'k char_ops"
  we_rng :: u32

type_synonym ('c, 'k) world_result = "(world_error, unit) res \<times> 'c Session \<times> 'k"

definition World_new :: "RealmId \<Rightarrow> int \<Rightarrow> 'k \<Rightarrow> ('c, 'k) World" where
  "World_new realm now k =
     \<lparr>wo_id = realm, wo_start = now, wo_sessions = Map.empty, wo_queue = [], wo_chars = k\<rparr>"

section \<open>Handlers\<close>

definition answer :: "('c, 'k) world_env \<Rightarrow> ServerPacket \<Rightarrow> 'c Session \<Rightarrow> 'k \<Rightarrow> ('c, 'k) world_result" where
  "answer E p s k = (case send_packet (we_send E) p s of (r, s1) \<Rightarrow> (r, s1, k))"

definition handle_account_data :: "('c, 'k) world_env \<Rightarrow> 'c Session \<Rightarrow> 'k \<Rightarrow> ('c, 'k) world_result" where
  "handle_account_data E s k =
     (case cl_account (ss_client s) of
        Some i \<Rightarrow>
          (case ck_account_data (we_chars E) i k of
             Ok data \<Rightarrow> answer E (SP_AccountDataTimes data) s k
           | Err e \<Rightarrow> (Err (WE_Character e), s, k)
           | Panic \<Rightarrow> (Panic, s, k))
      | None \<Rightarrow> answer E (SP_AccountDataTimes AccountData_default) s k)"

definition no_items :: "Item list" where
  "no_items = replicate 23 \<lparr>it_display = 0, it_inventory = 0, it_aura = 0\<rparr>"

definition handle_char_enum :: "('c, 'k) world_env \<Rightarrow> 'c Session \<Rightarrow> 'k \<Rightarrow> ('c, 'k) world_result" where
  "handle_char_enum E s k =
     (case cl_account (ss_client s) of
        None \<Rightarrow> (Err WE_NoAccount, s, k)
      | Some i \<Rightarrow>
          (case ck_get_by_account (we_chars E) i k of
             Ok cs \<Rightarrow> answer E (SP_CharEnum (map (\<lambda>c. (c, no_items)) cs)) s k
           | Err e \<Rightarrow> (Err (WE_Character e), s, k)
           | Panic \<Rightarrow> (Panic, s, k)))"

text \<open>
  The proper form of a name: lower case, and the first byte in upper case when a character ends
  after it (\<open>get_mut(0..1)\<close> is there only then).
\<close>

definition name_proper :: "rstr \<Rightarrow> rstr" where
  "name_proper name =
     (case to_ascii_lowercase name of
        [] \<Rightarrow> []
      | b # r \<Rightarrow> if r = [] \<or> hd r < 0x80 \<or> 0xC0 \<le> hd r then u8_ascii_upper b # r else b # r)"

definition name_fault :: "rstr \<Rightarrow> ResponseCode option" where
  "name_fault name =
     (if name_proper name \<noteq> name then Some Resp_CharNameFailure
      else if name = [] then Some Resp_CharNameNoName
      else if length name < 2 then Some Resp_CharNameTooShort
      else None)"

definition handle_char_create ::
  "('c, 'k) world_env \<Rightarrow> rstr \<Rightarrow> u8 \<Rightarrow> u8 \<Rightarrow> u8 \<Rightarrow> u8 \<Rightarrow> u8 \<Rightarrow> u8 \<Rightarrow> u8 \<Rightarrow> u8 \<Rightarrow> 'c Session \<Rightarrow> 'k \<Rightarrow>
     ('c, 'k) world_result" where
  "handle_char_create E name race class gender skin_color face hair_style hair_color facial_style s k =
     (case ck_name_available (we_chars E) name k of
        Panic \<Rightarrow> (Panic, s, k)
      | Err _ \<Rightarrow> answer E (SP_CharacterCreate Resp_CharCreateNameInUse) s k
      | Ok available \<Rightarrow>
          if \<not> available then answer E (SP_CharacterCreate Resp_CharCreateNameInUse) s k
          else case name_fault name of
            Some x \<Rightarrow> answer E (SP_CharacterCreate x) s k
          | None \<Rightarrow>
              (case cl_account (ss_client s) of
                 None \<Rightarrow> (Err WE_NoAccount, s, k)
               | Some account \<Rightarrow>
                   (case ck_create_character (we_chars E) (we_rng E) account
                      \<lparr>cn_name = name, cn_race = race, cn_class = class, cn_gender = gender,
                       cn_skin_color = skin_color, cn_face = face, cn_hair_style = hair_style,
                       cn_hair_color = hair_color, cn_facial_style = facial_style, cn_zone = 1, cn_map = 0,
                       cn_position_x = 0xC5C3028F, cn_position_y = 0x43A58439, cn_position_z = 0x43BF6106\<rparr> k of
                      (Ok _, k1) \<Rightarrow> answer E (SP_CharacterCreate Resp_CharCreateSuccess) s k1
                    | (Err e, k1) \<Rightarrow> (Err (WE_Character e), s, k1)
                    | (Panic, k1) \<Rightarrow> (Panic, s, k1))))"

definition handle_player_login :: "('c, 'k) world_env \<Rightarrow> WowId \<Rightarrow> 'c Session \<Rightarrow> 'k \<Rightarrow> ('c, 'k) world_result" where
  "handle_player_login E i s k =
     (case CharacterId_try_from i of
        Err e \<Rightarrow> (Err (WE_EntityType e), s, k)
      | Panic \<Rightarrow> (Panic, s, k)
      | Ok ci \<Rightarrow>
          (case ck_get (we_chars E) ci k of
             Ok c \<Rightarrow> (Ok (), session_login c s, k)
           | Err e \<Rightarrow> (Err (WE_Character e), s, k)
           | Panic \<Rightarrow> (Panic, s, k)))"

definition handle_char_delete :: "('c, 'k) world_env \<Rightarrow> WowId \<Rightarrow> 'c Session \<Rightarrow> 'k \<Rightarrow> ('c, 'k) world_result" where
  "handle_char_delete E i s k =
     (case CharacterId_try_from i of
        Err e \<Rightarrow> (Err (WE_EntityType e), s, k)
      | Panic \<Rightarrow> (Panic, s, k)
      | Ok ci \<Rightarrow>
          (case ck_delete_character (we_chars E) ci k of
             (Ok _, k1) \<Rightarrow> answer E (SP_CharacterDelete Resp_CharDeleteSuccess) s k1
           | (Err _, k1) \<Rightarrow> answer E (SP_CharacterDelete Resp_CharDeleteFailed) s k1
           | (Panic, k1) \<Rightarrow> (Panic, s, k1)))"

fun handle_packet :: "('c, 'k) world_env \<Rightarrow> ClientPacket \<Rightarrow> 'c Session \<Rightarrow> 'k \<Rightarrow> ('c, 'k) world_result" where
  "handle_packet E (CP_AuthSession a) s k = (Ok (), s, k)"
| "handle_packet E CP_KeepAlive s k = (Ok (), reset_timeout (we_send E) s, k)"
| "handle_packet E (CP_Ping seq latency) s k = answer E (SP_Pong seq) (set_latency latency s) k"
| "handle_packet E CP_ReadyForAccountDataTimes s k = handle_account_data E s k"
| "handle_packet E CP_CharEnum s k = handle_char_enum E s k"
| "handle_packet E (CP_RealmSplit realm) s k = answer E (SP_RealmSplit realm) s k"
| "handle_packet E (CP_CharacterCreate name race class gender skin_color face hair_style hair_color facial_style) s k =
     handle_char_create E name race class gender skin_color face hair_style hair_color facial_style s k"
| "handle_packet E (CP_PlayerLogin i) s k = handle_player_login E i s k"
| "handle_packet E (CP_CharacterDelete i) s k = handle_char_delete E i s k"

section \<open>The queue\<close>

definition receive_packet :: "'c Session \<Rightarrow> ClientPacket \<Rightarrow> ('c, 'k) World \<Rightarrow> ('c, 'k) World" where
  "receive_packet s p w = w\<lparr>wo_queue := wo_queue w @ [(ss_client_id s, p)]\<rparr>"

text \<open>
  One turn of \<open>handle_packets\<close>: a packet of an unknown session is skipped, an error is logged and
  a panic ends the task. The loop over what is queued has one environment per packet.
\<close>

definition handle_one ::
  "('c, 'k) world_env \<Rightarrow> ClientId \<times> ClientPacket \<Rightarrow> ('c, 'k) World \<Rightarrow> (world_error, unit) res \<times> ('c, 'k) World" where
  "handle_one E ip w =
     (case ip of (i, p) \<Rightarrow>
        case wo_sessions w i of
          None \<Rightarrow> (Ok (), w)
        | Some s \<Rightarrow>
            (case handle_packet E p s (wo_chars w) of
               (r, s1, k1) \<Rightarrow>
                 (if r = Panic then Panic else Ok (),
                  w\<lparr>wo_sessions := (wo_sessions w)(i \<mapsto> s1), wo_chars := k1\<rparr>)))"

fun handle_queue ::
  "(nat \<Rightarrow> ('c, 'k) world_env) \<Rightarrow> nat \<Rightarrow> (ClientId \<times> ClientPacket) list \<Rightarrow> ('c, 'k) World \<Rightarrow>
     (world_error, unit) res \<times> ('c, 'k) World" where
  "handle_queue E n [] w = (Ok (), w\<lparr>wo_queue := []\<rparr>)"
| "handle_queue E n (ip # ips) w =
     (case handle_one (E n) ip w of
        (Panic, w1) \<Rightarrow> (Panic, w1\<lparr>wo_queue := ips\<rparr>)
      | (_, w1) \<Rightarrow> handle_queue E (Suc n) ips w1)"

definition handle_packets ::
  "(nat \<Rightarrow> ('c, 'k) world_env) \<Rightarrow> ('c, 'k) World \<Rightarrow> (world_error, unit) res \<times> ('c, 'k) World" where
  "handle_packets E w = handle_queue E 0 (wo_queue w) w"

section \<open>Sessions and timers\<close>

definition create_session ::
  "('c, 'k) world_env \<Rightarrow> Client \<Rightarrow> writer \<Rightarrow> bytes \<Rightarrow> Addon list \<Rightarrow> ('c, 'k) World \<Rightarrow>
     (world_error \<times> writer, 'c Session) res \<times> ('c, 'k) World" where
  "create_session E client stream session_key addons w =
     (case Session_new (we_send E) client stream session_key addons of
        Ok s \<Rightarrow> (Ok s, w\<lparr>wo_sessions := (wo_sessions w)(ss_client_id s \<mapsto> s)\<rparr>)
      | Err e \<Rightarrow> (Err e, w)
      | Panic \<Rightarrow> (Panic, w))"

text \<open>One tick of the uptime timer; an error is logged.\<close>

definition uptime_tick :: "'r realm_ops \<Rightarrow> ('c, 'k) World \<Rightarrow> 'r \<Rightarrow> (RealmListError, unit) res \<times> 'r" where
  "uptime_tick rs w r =
     (case rs_set_uptime rs (wo_id w) (wo_start w) 0 r of
        (Panic, r1) \<Rightarrow> (Panic, r1)
      | (_, r1) \<Rightarrow> (Ok (), r1))"

section \<open>Lemmas\<close>

text \<open>Sending packets changes nothing about whom a session belongs to.\<close>

lemma write_packet_keeps:
  "write_packet E opcode bs s = (r, s') \<Longrightarrow> ss_client s' = ss_client s \<and> ss_client_id s' = ss_client_id s"
  by (auto simp: write_packet_def split: res.splits option.splits prod.splits)

lemma send_packet_keeps:
  "send_packet E p s = (r, s') \<Longrightarrow> ss_client s' = ss_client s \<and> ss_client_id s' = ss_client_id s"
  by (auto simp: send_packet_def dest: write_packet_keeps split: res.splits prod.splits)

lemma send_packets_keeps:
  "send_packets E ps s = (r, s') \<Longrightarrow> ss_client s' = ss_client s \<and> ss_client_id s' = ss_client_id s"
proof (induction E ps s rule: send_packets.induct)
  case (2 E p ps s)
  obtain q s1 where q: "send_packet E p s = (q, s1)" by fastforce
  from 2 q send_packet_keeps [OF q] show ?case by (cases q) auto
qed simp

lemma answer_keeps:
  "answer E p s k = (r, s', k') \<Longrightarrow> ss_client s' = ss_client s \<and> ss_client_id s' = ss_client_id s \<and> k' = k"
  by (auto simp: answer_def dest: send_packet_keeps split: prod.splits)

lemmas handler_defs = handle_account_data_def handle_char_enum_def handle_char_create_def
  handle_player_login_def handle_char_delete_def session_login_def reset_timeout_def set_latency_def

lemma handle_packet_keeps:
  "handle_packet E p s k = (r, s', k') \<Longrightarrow> ss_client s' = ss_client s \<and> ss_client_id s' = ss_client_id s"
  by (cases p)
    (auto simp: handler_defs dest: answer_keeps split: option.splits res.splits if_splits prod.splits)

lemma handle_one_keeps:
  assumes "handle_one E ip w = (r, w')"
  shows "map_option ss_client (wo_sessions w' i) = map_option ss_client (wo_sessions w i)"
    and "i \<noteq> fst ip \<Longrightarrow> wo_sessions w' i = wo_sessions w i"
  using assms by (auto simp: handle_one_def dest: handle_packet_keeps split: prod.splits option.splits)

lemma handle_queue_keeps:
  assumes "handle_queue E n ips w = (r, w')"
  shows "map_option ss_client (wo_sessions w' i) = map_option ss_client (wo_sessions w i) \<and>
    (i \<notin> fst ` set ips \<longrightarrow> wo_sessions w' i = wo_sessions w i)"
  using assms
proof (induction E n ips w rule: handle_queue.induct)
  case (2 E n ip ips w)
  obtain q w1 where q: "handle_one (E n) ip w = (q, w1)" by fastforce
  note keeps = handle_one_keeps [OF q]
  show ?case
  proof (cases "q = Panic")
    case True
    with 2(3) q keeps show ?thesis by auto
  next
    case False
    with 2(3) q have rest: "handle_queue E (Suc n) ips w1 = (r, w')" by (cases q) auto
    have "map_option ss_client (wo_sessions w' i) = map_option ss_client (wo_sessions w1 i) \<and>
        (i \<notin> fst ` set ips \<longrightarrow> wo_sessions w' i = wo_sessions w1 i)"
    proof (cases q)
      case (Ok x)
      then show ?thesis using 2(1) [OF q [symmetric] Ok rest] by simp
    next
      case (Err x)
      then show ?thesis using 2(2) [OF q [symmetric] Err rest] by simp
    qed (use False in simp)
    with keeps show ?thesis by auto
  qed
qed auto

text \<open>Creation and deletion against the contract of the character service.\<close>

context character_service
begin

lemma handle_create_outcome:
  assumes "we_chars E = svc" and "cl_account (ss_client s) = Some a"
    and "handle_packet E (CP_CharacterCreate name ra cl ge sk fa hs hc fs) s k = (r, s', k')"
    and "\<And>n. ck_name_available svc n k \<noteq> Panic"
  shows "(\<exists>code. code \<noteq> Resp_CharCreateSuccess \<and> k' = k \<and>
      (r, s') = send_packet (we_send E) (SP_CharacterCreate code) s \<and>
      (if ck_name_available svc name k = Ok True then name_fault name = Some code
       else code = Resp_CharCreateNameInUse))
    \<or> (\<exists>e. r = Err (WE_Character e) \<and> s' = s \<and> k' = k)
    \<or> (\<forall>c \<in> set (abs k). \<not> same_name (ch_name c) name) \<and> name_fault name = None \<and>
       (r, s') = send_packet (we_send E) (SP_CharacterCreate Resp_CharCreateSuccess) s \<and>
       (\<exists>c. abs k' = abs k @ [c] \<and> ch_account c = a \<and> ch_name c = name \<and> ch_level c = 1 \<and>
          ch_id c = WowId_new Player (we_rng E) 0)"
proof (cases "ck_name_available svc name k = Ok True \<and> name_fault name = None")
  case False
  have "code \<noteq> Resp_CharCreateSuccess" if "name_fault name = Some code" for code
    using that by (auto simp: name_fault_def split: if_splits)
  with False assms show ?thesis
    by (auto simp: handle_char_create_def answer_def split: res.splits option.splits prod.splits if_splits)
next
  case True
  then have free: "\<forall>c \<in> set (abs k). \<not> same_name (ch_name c) name" using name_available_Ok by blast
  let ?c = "\<lparr>cn_name = name, cn_race = ra, cn_class = cl, cn_gender = ge, cn_skin_color = sk, cn_face = fa,
      cn_hair_style = hs, cn_hair_color = hc, cn_facial_style = fs, cn_zone = 1, cn_map = 0,
      cn_position_x = 0xC5C3028F, cn_position_y = 0x43A58439, cn_position_z = 0x43BF6106\<rparr>"
  obtain q k1 where q: "ck_create_character svc (we_rng E) a ?c k = (q, k1)" by fastforce
  have h: "(r, s', k') = (case q of Ok _ \<Rightarrow> answer E (SP_CharacterCreate Resp_CharCreateSuccess) s k1
      | Err e \<Rightarrow> (Err (WE_Character e), s, k1) | Panic \<Rightarrow> (Panic, s, k1))"
    using assms(1-3) True q by (simp add: handle_char_create_def split: res.splits)
  from create_refines [OF q] show ?thesis
  proof (elim disjE conjE exE)
    assume "q = Ok ()" and "abs k1 = abs k @ [new_character (we_rng E) a ?c]"
    with h free True show ?thesis
      by (intro disjI2) (auto simp: answer_def new_character_def split: prod.splits)
  next
    fix e assume "q = Err e" and "k1 = k"
    with h show ?thesis by auto
  qed
qed

lemma handle_delete_outcome:
  assumes "we_chars E = svc" and "handle_packet E (CP_CharacterDelete i) s k = (r, s', k')"
  shows "if \<exists>e. CharacterId_try_from i = Err e then (\<exists>e. r = Err (WE_EntityType e)) \<and> s' = s \<and> k' = k
    else abs k' = filter (\<lambda>c. ch_id c \<noteq> i) (abs k) \<and>
           (r, s') = send_packet (we_send E) (SP_CharacterDelete Resp_CharDeleteSuccess) s
         \<or> k' = k \<and> (r, s') = send_packet (we_send E) (SP_CharacterDelete Resp_CharDeleteFailed) s"
proof (cases "\<exists>e. CharacterId_try_from i = Err e")
  case True
  with assms show ?thesis by (auto simp: handle_char_delete_def)
next
  case False
  then have i: "CharacterId_try_from i = Ok i" by (auto simp: CharacterId_try_from_def Let_def split: if_splits)
  obtain q k1 where q: "ck_delete_character svc i k = (q, k1)" by fastforce
  show ?thesis
    using delete_refines [OF q] assms i q
    by (auto simp: handle_char_delete_def answer_def split: res.splits prod.splits)
qed

end

section \<open>Properties\<close>

text \<open>
  C15. Creating a character is decided by the name and the database. A name in use, or one whose
  availability is not known, is answered as such, and a name that is not in its proper form, empty
  or of one letter by the code of that fault; the characters are then unchanged. A failure of the
  database changes nothing and answers nothing. Otherwise exactly one character is added: of the
  session's account, at level 1, with a player identifier, under a name that no character had.
\<close>

theorem character_creation:
  assumes "we_chars E = mysql_characters D" and "cl_account (ss_client s) = Some a"
    and "handle_packet E (CP_CharacterCreate name ra cl ge sk fa hs hc fs) s k = (r, s', k')"
  shows "(\<exists>code. code \<noteq> Resp_CharCreateSuccess \<and> k' = k \<and>
      (r, s') = send_packet (we_send E) (SP_CharacterCreate code) s \<and>
      (if char_name_available D name k = Ok True then name_fault name = Some code
       else code = Resp_CharCreateNameInUse))
    \<or> (\<exists>e. r = Err (WE_Character e) \<and> s' = s \<and> k' = k)
    \<or> (\<forall>c \<in> set (char_rows k). \<not> ce_text_eq D (ch_name c) name) \<and> name_fault name = None \<and>
       (r, s') = send_packet (we_send E) (SP_CharacterCreate Resp_CharCreateSuccess) s \<and>
       (\<exists>c. char_rows k' = char_rows k @ [c] \<and> ch_account c = a \<and> ch_name c = name \<and> ch_level c = 1 \<and>
          ch_id c = WowId_new Player (we_rng E) 0)"
proof -
  have "ck_name_available (mysql_characters D) n k \<noteq> Panic" for n
    by (simp add: mysql_characters_def char_name_available_def char_run_def split: option.splits)
  from mysql_chars.handle_create_outcome [OF assms this] show ?thesis
    by (simp add: mysql_characters_def)
qed

definition demo_world_env :: "(rc4, char_db) world_env" where
  "demo_world_env = \<lparr>we_send = demo_send_env, we_chars = mysql_characters char_demo_env, we_rng = 9\<rparr>"

definition demo_session :: "rc4 Session" where
  "demo_session = \<lparr>ss_client_id = 5, ss_client = \<lparr>cl_id = 5, cl_account = Some 1\<rparr>,
     ss_stream = \<lparr>wr_out = [], wr_plan = []\<rparr>, ss_encryption = HeaderCrypto_new ref_crypto [], ss_latency = 0,
     ss_timeout = 0, ss_addons = [], ss_character = None\<rparr>"

definition demo_chars :: char_db where
  "demo_chars = \<lparr>cdb_characters = [\<lparr>cw_character =
     \<lparr>ch_id = WowId_new Player 7 0, ch_account = 2, ch_name = ascii ''Thrall'', ch_level = 80, ch_race = 2, ch_class = 7,
      ch_gender = 0, ch_skin_color = 0, ch_face = 0, ch_hair_style = 0, ch_hair_color = 0, ch_facial_style = 0,
      ch_zone = 1, ch_map = 0, ch_position_x = 0, ch_position_y = 0, ch_position_z = 0\<rparr>, cw_taximask = [],
     cw_taxi_path = [], cw_exploredZones = [], cw_equipmentCache = [], cw_knownTitles = []\<rparr>],
     cdb_account_data = []\<rparr>"

lemmas demo_world = demo_world_env_def demo_session_def demo_chars_def

lemma demo_send:
  assumes "packet_body demo_send_env p = Ok (opcode, bs)" and "length bs + 2 < 2 ^ 16" and "wr_plan (ss_stream s) = []"
  shows "fst (send_packet demo_send_env p s) = Ok ()"
proof -
  obtain x k' where "cy_rc4_process (wl_crypto (sv_world demo_send_env)) (hc_encrypt (ss_encryption s))
      (server_header opcode (length bs)) = (x, k')"
    by fastforce
  from send_packet_eq [OF demo_send_libs(1) assms this] show ?thesis by simp
qed

theorem character_creation_witness:
  "\<exists>r s' k'. handle_packet demo_world_env (CP_CharacterCreate (ascii ''Jaina'') 1 8 1 0 0 0 0 0) demo_session demo_chars
       = (r, s', k') \<and> length (char_rows k') = 2"
proof -
  let ?p = "CP_CharacterCreate (ascii ''Jaina'') 1 8 1 0 0 0 0 0"
  obtain r s' k' where h: "handle_packet demo_world_env ?p demo_session demo_chars = (r, s', k')"
    using prod_cases3 by blast
  have name: "name_fault (ascii ''Jaina'') = None" by code_simp
  have free: "char_name_available char_demo_env (ascii ''Jaina'') demo_chars = Ok True" by code_simp
  have "WowId_new Player 9 0 \<noteq> WowId_new Player 7 0" by code_simp
  then have "fst (char_create char_demo_env 9 1 c demo_chars) = Ok ()" for c
    by (simp add: char_create_def char_demo_env_def demo_chars_def char_rows_def new_character_def Let_def)
  then have "r = fst (send_packet demo_send_env (SP_CharacterCreate Resp_CharCreateSuccess) demo_session)"
    using h free name
    by (simp add: handle_char_create_def demo_world_env_def mysql_characters_def demo_session_def answer_def
        split_beta split: res.splits prod.splits)
  then have "r = Ok ()" using demo_send [of "SP_CharacterCreate Resp_CharCreateSuccess"] by (simp add: demo_session_def)
  with character_creation [OF _ _ h, of char_demo_env 1] name free h show ?thesis
    by (auto simp: demo_world char_rows_def)
qed

text \<open>
  C36. Deleting a character does not ask whose it is: any session, whatever its account, deletes
  the character of any other account whose identifier it names.
\<close>

theorem delete_ignores_owner:
  assumes "we_chars E = mysql_characters D" and "ce_fault D QC_delete = None"
    and "c \<in> set (char_rows k)" and "CharacterId_try_from (ch_id c) = Ok (ch_id c)"
    and "cl_account (ss_client s) = Some a" and "ch_account c \<noteq> a"
  shows "\<exists>s' k'. handle_packet E (CP_CharacterDelete (ch_id c)) s k =
      (fst (send_packet (we_send E) (SP_CharacterDelete Resp_CharDeleteSuccess) s), s', k') \<and>
    char_rows k' = filter (\<lambda>x. ch_id x \<noteq> ch_id c) (char_rows k)"
proof -
  obtain q k1 where q: "ck_delete_character (mysql_characters D) (ch_id c) k = (q, k1)" by fastforce
  with assms(2) have "q = Ok ()" by (auto simp: mysql_characters_def char_delete_def)
  with mysql_chars.delete_refines [OF q] q assms(1,4) show ?thesis
    by (simp add: handle_char_delete_def answer_def split: prod.splits)
qed

theorem delete_ignores_owner_witness:
  "\<exists>s' k'. handle_packet demo_world_env (CP_CharacterDelete (WowId_new Player 7 0)) demo_session demo_chars =
     (fst (send_packet demo_send_env (SP_CharacterDelete Resp_CharDeleteSuccess) demo_session), s', k') \<and>
     char_rows k' = []"
  using delete_ignores_owner [of demo_world_env char_demo_env "hd (char_rows demo_chars)" demo_chars demo_session 1]
    WowId_tag [of 0 Player 7]
  by (simp add: demo_world char_rows_def char_demo_env_def CharacterId_try_from_def)

text \<open>
  Handling the queue never changes who is connected as whom: every session keeps its client
  and account, no session appears or goes, and one without a queued packet is untouched.
\<close>

lemma session_identity_fixed:
  "\<forall>i. map_option ss_client (wo_sessions (snd (handle_packets E w)) i) = map_option ss_client (wo_sessions w i) \<and>
     (i \<notin> fst ` set (wo_queue w) \<longrightarrow> wo_sessions (snd (handle_packets E w)) i = wo_sessions w i)"
  using handle_queue_keeps [of E 0 "wo_queue w" w] by (auto simp: handle_packets_def prod_eq_iff)

lemma session_identity_fixed_witness:
  "map_option ss_client (wo_sessions (snd (handle_packets (\<lambda>_. demo_world_env)
     ((World_new 1 0 demo_chars)\<lparr>wo_sessions := [5 \<mapsto> demo_session], wo_queue := [(5, CP_Ping 3 4)]\<rparr>))) 5) =
     Some \<lparr>cl_id = 5, cl_account = Some 1\<rparr>"
  using session_identity_fixed [of "\<lambda>_. demo_world_env" "(World_new 1 0 demo_chars)\<lparr>wo_sessions := [5 \<mapsto> demo_session],
      wo_queue := [(5, CP_Ping 3 4)]\<rparr>"]
  by (simp add: demo_session_def)

end
