(* ===== verification/Auth_Packets.thy ===== *)
theory Auth_Packets
  imports Account_Service Net
begin

text \<open>
  The packets of the authentication service (services/auth/src/protocol): the client's messages
  with their layouts, the reader of one message from the stream, and the replies. A layout is
  the shape the deserialiser is called at; a reply's \<open>Serialize\<close> implementation is a function
  into \<open>sval\<close>. The locale \<open>wire_message\<close> is the contract of a message type with its layout;
  it is interpreted on the four layouts, and the reader's round trip rests on it.
\<close>

section \<open>Client messages (protocol/packets.rs)\<close>

definition VERSION_CHALLENGE :: bytes where
  "VERSION_CHALLENGE =
     [0xBA, 0xA3, 0x1E, 0x99, 0xA0, 0x0B, 0x21, 0x57, 0xFC, 0x37, 0x3F, 0xB3, 0x69, 0xCD, 0xD2, 0xF1]"

record ConnectRequest =
  cr_error :: u8
  cr_size :: u16
  cr_game_name :: bytes
  cr_version_major :: u8
  cr_version_minor :: u8
  cr_version_patch :: u8
  cr_build :: u16
  cr_platform :: bytes
  cr_os :: bytes
  cr_country :: bytes
  cr_timezone_bias :: u32
  cr_ipv4 :: bytes
  cr_identifier_length :: u8

record ConnectProof =
  cp_user_public_key :: bytes
  cp_user_proof :: bytes
  cp_crc_hash :: bytes
  cp_number_of_keys :: u8
  cp_security_flags :: u8

record ReconnectProof =
  rp_proof_data :: bytes
  rp_client_proof :: bytes
  rp_unknown :: bytes
  rp_key_count :: u8

record RealmListRequest =
  rq_data :: bytes

text \<open>The derived \<open>Serialize\<close> and \<open>Deserialize\<close> implementations.\<close>

fun un_u8 :: "sval \<Rightarrow> u8" where
  "un_u8 (SU8 b) = b"
| "un_u8 _ = 0"

definition ConnectRequest_ty :: sty where
  "ConnectRequest_ty = TTup [TU8, TU16, tbytes 4, TU8, TU8, TU8, TU16, tbytes 4, tbytes 4, tbytes 4,
     TU32, tbytes 4, TU8]"

definition ConnectRequest_sval :: "ConnectRequest \<Rightarrow> sval" where
  "ConnectRequest_sval r = STup [SU8 (cr_error r), SU16 (cr_size r), sbytes (cr_game_name r),
     SU8 (cr_version_major r), SU8 (cr_version_minor r), SU8 (cr_version_patch r), SU16 (cr_build r),
     sbytes (cr_platform r), sbytes (cr_os r), sbytes (cr_country r), SU32 (cr_timezone_bias r),
     sbytes (cr_ipv4 r), SU8 (cr_identifier_length r)]"

definition ConnectRequest_of :: "sval \<Rightarrow> ConnectRequest option" where
  "ConnectRequest_of v =
     (case v of
        STup [SU8 er, SU16 sz, STup gn, SU8 ma, SU8 mi, SU8 pa, SU16 bu, STup pl, STup os, STup co,
              SU32 tz, STup ip, SU8 il] \<Rightarrow>
          Some \<lparr>cr_error = er, cr_size = sz, cr_game_name = map un_u8 gn, cr_version_major = ma,
            cr_version_minor = mi, cr_version_patch = pa, cr_build = bu,
            cr_platform = map un_u8 pl, cr_os = map un_u8 os, cr_country = map un_u8 co,
            cr_timezone_bias = tz, cr_ipv4 = map un_u8 ip, cr_identifier_length = il\<rparr>
      | _ \<Rightarrow> None)"

definition ConnectProof_ty :: sty where
  "ConnectProof_ty = TTup [tbytes 32, tbytes 20, tbytes 20, TU8, TU8]"

definition ConnectProof_sval :: "ConnectProof \<Rightarrow> sval" where
  "ConnectProof_sval p = STup [sbytes (cp_user_public_key p), sbytes (cp_user_proof p),
     sbytes (cp_crc_hash p), SU8 (cp_number_of_keys p), SU8 (cp_security_flags p)]"

definition ConnectProof_of :: "sval \<Rightarrow> ConnectProof option" where
  "ConnectProof_of v =
     (case v of
        STup [STup k, STup p, STup c, SU8 n, SU8 f] \<Rightarrow>
          Some \<lparr>cp_user_public_key = map un_u8 k, cp_user_proof = map un_u8 p,
            cp_crc_hash = map un_u8 c, cp_number_of_keys = n, cp_security_flags = f\<rparr>
      | _ \<Rightarrow> None)"

definition ReconnectProof_ty :: sty where
  "ReconnectProof_ty = TTup [tbytes 16, tbytes 20, tbytes 20, TU8]"

definition ReconnectProof_sval :: "ReconnectProof \<Rightarrow> sval" where
  "ReconnectProof_sval p = STup [sbytes (rp_proof_data p), sbytes (rp_client_proof p),
     sbytes (rp_unknown p), SU8 (rp_key_count p)]"

definition ReconnectProof_of :: "sval \<Rightarrow> ReconnectProof option" where
  "ReconnectProof_of v =
     (case v of
        STup [STup d, STup p, STup u, SU8 k] \<Rightarrow>
          Some \<lparr>rp_proof_data = map un_u8 d, rp_client_proof = map un_u8 p,
            rp_unknown = map un_u8 u, rp_key_count = k\<rparr>
      | _ \<Rightarrow> None)"

definition RealmListRequest_ty :: sty where
  "RealmListRequest_ty = TTup [tbytes 4]"

definition RealmListRequest_sval :: "RealmListRequest \<Rightarrow> sval" where
  "RealmListRequest_sval q = STup [sbytes (rq_data q)]"

definition RealmListRequest_of :: "sval \<Rightarrow> RealmListRequest option" where
  "RealmListRequest_of v =
     (case v of STup [STup d] \<Rightarrow> Some \<lparr>rq_data = map un_u8 d\<rparr> | _ \<Rightarrow> None)"

section \<open>Reading a message (protocol/mod.rs)\<close>

datatype Message =
    M_Connect ConnectRequest
  | M_Proof ConnectProof
  | M_ReConnect ConnectRequest
  | M_ReProof ReconnectProof
  | M_RealmList RealmListRequest

datatype MessageParseError = MP_InvalidCommand u8 | MP_DecodeError

datatype PacketHandleError =
    MessageParse MessageParseError
  | MessageLength nat nat
  | IoRead io_error
  | InvalidCommand u8

text \<open>\<open>wow_bincode().deserialize(bytes)\<close> at a type.\<close>

definition wow_deserialize :: "lib \<Rightarrow> sty \<Rightarrow> (sval \<Rightarrow> 'a option) \<Rightarrow> bytes \<Rightarrow> (MessageParseError, 'a) res" where
  "wow_deserialize L t of_sval bs =
     (case de_wow L t bs of
        None \<Rightarrow> Err MP_DecodeError
      | Some v \<Rightarrow> ok_or MP_DecodeError (of_sval v))"

fun decode_message :: "lib \<Rightarrow> AuthCommand \<Rightarrow> bytes \<Rightarrow> (MessageParseError, Message) res" where
  "decode_message L Connect bs =
     res_bind (wow_deserialize L ConnectRequest_ty ConnectRequest_of bs) (\<lambda>r. Ok (M_Connect r))"
| "decode_message L Proof bs =
     res_bind (wow_deserialize L ConnectProof_ty ConnectProof_of bs) (\<lambda>r. Ok (M_Proof r))"
| "decode_message L ReConnect bs =
     res_bind (wow_deserialize L ConnectRequest_ty ConnectRequest_of bs) (\<lambda>r. Ok (M_ReConnect r))"
| "decode_message L ReProof bs =
     res_bind (wow_deserialize L ReconnectProof_ty ReconnectProof_of bs) (\<lambda>r. Ok (M_ReProof r))"
| "decode_message L RealmList bs =
     res_bind (wow_deserialize L RealmListRequest_ty RealmListRequest_of bs) (\<lambda>r. Ok (M_RealmList r))"

text \<open>\<open>TryFrom<&[u8]> for Message\<close>, which takes the default for a realm list request.\<close>

definition message_try_from :: "lib \<Rightarrow> bytes \<Rightarrow> (MessageParseError, Message) res" where
  "message_try_from L bs =
     (case bs of
        [] \<Rightarrow> Panic
      | command # rest \<Rightarrow>
          (case AuthCommand_try_from command of
             None \<Rightarrow> Err (MP_InvalidCommand command)
           | Some RealmList \<Rightarrow> Ok (M_RealmList \<lparr>rq_data = replicate 4 0\<rparr>)
           | Some c \<Rightarrow> decode_message L c rest))"

text \<open>\<open>size_of\<close> of the packed message types, as the size assertions of the sources fix it.\<close>

fun command_len :: "AuthCommand \<Rightarrow> nat" where
  "command_len Connect = 1 + 2 + 4 + 1 + 1 + 1 + 2 + 4 + 4 + 4 + 4 + 4 + 1"
| "command_len Proof = 32 + 20 + 20 + 1 + 1"
| "command_len ReConnect = 1 + 2 + 4 + 1 + 1 + 1 + 2 + 4 + 4 + 4 + 4 + 4 + 1"
| "command_len ReProof = 16 + 20 + 20 + 1"
| "command_len RealmList = 4"

definition read_packet ::
  "lib \<Rightarrow> net_event list \<Rightarrow> (PacketHandleError, Message) res \<times> net_event list" where
  "read_packet L evs =
     (case read_exact 1 evs of
        (Err e, evs1) \<Rightarrow> (Err (IoRead e), evs1)
      | (Panic, evs1) \<Rightarrow> (Panic, evs1)
      | (Ok b, evs1) \<Rightarrow>
          (case AuthCommand_try_from (b ! 0) of
             None \<Rightarrow> (Err (InvalidCommand (b ! 0)), evs1)
           | Some command \<Rightarrow>
               (case tcp_read (command_len command) evs1 of
                  (Err e, evs2) \<Rightarrow> (Err (IoRead e), evs2)
                | (Panic, evs2) \<Rightarrow> (Panic, evs2)
                | (Ok bs, evs2) \<Rightarrow>
                    if length bs \<noteq> command_len command
                    then (Err (MessageLength (length bs) (command_len command)), evs2)
                    else (map_err MessageParse (decode_message L command bs), evs2))))"

section \<open>Replies (protocol/packets.rs)\<close>

record ConnectChallenge =
  cc_b_pub :: bytes
  cc_g :: bytes
  cc_n :: bytes
  cc_s :: salt
  cc_security_flags :: u8

definition ConnectChallenge_from :: "lib \<Rightarrow> ConnectToken \<Rightarrow> ConnectChallenge" where
  "ConnectChallenge_from L t =
     \<lparr>cc_b_pub = token_get_b_pub t, cc_g = token_get_g L t, cc_n = token_get_n L t,
      cc_s = token_get_salt t, cc_security_flags = token_get_security_flags t\<rparr>"

definition ConnectChallenge_sval :: "ConnectChallenge \<Rightarrow> sval" where
  "ConnectChallenge_sval c = STup
     ([sbytes (cc_b_pub c), SSeq (map SU8 (cc_g c)), SSeq (map SU8 (cc_n c)), sbytes (cc_s c),
       sbytes VERSION_CHALLENGE, SU8 (cc_security_flags c)]
      @ (if cc_security_flags c AND 1 > 0 then [SU32 0, SU64 0, SU64 0] else [])
      @ (if cc_security_flags c AND 2 > 0 then [SU8 0, SU8 0, SU8 0, SU8 0, SU64 0] else [])
      @ (if cc_security_flags c AND 4 > 0 then [SU8 0] else []))"

text \<open>\<open>ReplyPacket\<close> with a challenge, and with nothing.\<close>

definition reply_challenge :: "ConnectChallenge \<Rightarrow> sval" where
  "reply_challenge c =
     STup [SU8 (AuthCommand_u8 Connect), SU8 0, SU8 (ReturnCode_u8 RC_Success), ConnectChallenge_sval c]"

definition reply_unit :: "AuthCommand \<Rightarrow> ReturnCode \<Rightarrow> sval" where
  "reply_unit command status =
     STup [SU8 (AuthCommand_u8 command), SU8 0, SU8 (ReturnCode_u8 status), STup []]"

record ConnectProofResponse =
  pr_error :: u8
  pr_server_proof :: bytes
  pr_account_flags :: u32
  pr_survey_id :: u32
  pr_login_flags :: u16

definition ConnectProofResponse_sval :: "ConnectProofResponse \<Rightarrow> sval" where
  "ConnectProofResponse_sval r = STup [SU8 (pr_error r), sbytes (pr_server_proof r),
     SU32 (pr_account_flags r), SU32 (pr_survey_id r), SU16 (pr_login_flags r)]"

record RealmEntry =
  re_realm_type :: u8
  re_locked :: bool
  re_flags :: u8
  re_name :: rstr
  re_socket :: rstr
  re_population :: u32
  re_character_count :: u8
  re_timezone :: u8
  re_realm_id :: u8

definition from_realm :: "Realm \<Rightarrow> u8 \<Rightarrow> bool \<Rightarrow> RealmEntry" where
  "from_realm r character_count locked =
     \<lparr>re_realm_type = RealmType_u8 (rl_realm_type r), re_locked = locked, re_flags = rl_flags r,
      re_name = rl_name r,
      re_socket = rl_external_address r @ ascii '':'' @ dec_str (unat (rl_port r)),
      re_population = rl_population r, re_character_count = character_count,
      re_timezone = rl_timezone r, re_realm_id = ucast (rl_id r)\<rparr>"

definition RealmEntry_sval :: "RealmEntry \<Rightarrow> sval" where
  "RealmEntry_sval r = STup [SU8 (re_realm_type r), SBool (re_locked r), SU8 (re_flags r),
     SStr (re_name r), SStr (re_socket r), SF32 (re_population r), SU8 (re_character_count r),
     SU8 (re_timezone r), SU8 (re_realm_id r)]"

record RealmListResponse =
  ls_packet_size :: u16
  ls_data :: bytes
  ls_realm_count :: u16

definition RealmListResponse_sval :: "RealmListResponse \<Rightarrow> sval" where
  "RealmListResponse_sval r = STup [SU16 (ls_packet_size r), sbytes (ls_data r), SU16 (ls_realm_count r)]"

fun realm_sizes :: "lib \<Rightarrow> bool \<Rightarrow> u64 \<Rightarrow> RealmEntry list \<Rightarrow> (rstr, u64) res" where
  "realm_sizes L chk acc [] = Ok acc"
| "realm_sizes L chk acc (r # rs) =
     (case size_wow L (RealmEntry_sval r) of
        None \<Rightarrow> Err (re_name r)
      | Some n \<Rightarrow> res_bind (add_checked chk acc n) (\<lambda>acc'. realm_sizes L chk acc' rs))"

definition from_realms :: "lib \<Rightarrow> bool \<Rightarrow> RealmEntry list \<Rightarrow> (rstr, RealmListResponse) res" where
  "from_realms L chk realms =
     res_bind (realm_sizes L chk 0 realms) (\<lambda>len.
     res_bind (add_checked chk (4 + 2) (ucast len)) (\<lambda>s.
     res_bind (add_checked chk s 2) (\<lambda>packet_size.
     Ok \<lparr>ls_packet_size = packet_size, ls_data = [0, 0, 0, 0],
         ls_realm_count = of_nat (length realms)\<rparr>)))"

section \<open>Layouts\<close>

text \<open>The number of bytes of a shape without strings.\<close>

fun sty_size :: "sty \<Rightarrow> nat" where
  "sty_size TU8 = 1"
| "sty_size TU16 = 2"
| "sty_size TU32 = 4"
| "sty_size TU64 = 8"
| "sty_size TStr = 1"
| "sty_size (TTup ts) = sum_list (map sty_size ts)"

fun sty_fixed :: "sty \<Rightarrow> bool" where
  "sty_fixed TStr = False"
| "sty_fixed (TTup ts) = list_all sty_fixed ts"
| "sty_fixed _ = True"

lemma fixint_dec_fixed:
  "sty_fixed t \<Longrightarrow> sty_size t \<le> length bs \<Longrightarrow> \<exists>v. fixint_dec t bs = Some (v, drop (sty_size t) bs)"
  "list_all sty_fixed ts \<Longrightarrow> sum_list (map sty_size ts) \<le> length bs \<Longrightarrow>
     \<exists>vs. fixint_decs ts bs = Some (vs, drop (sum_list (map sty_size ts)) bs)"
proof (induction t bs and ts bs rule: fixint_dec_fixint_decs.induct)
  case (1 bs)
  then show ?case by (cases bs) auto
next
  case (8 t ts bs)
  then obtain v where v: "fixint_dec t bs = Some (v, drop (sty_size t) bs)" by auto
  have "sum_list (map sty_size ts) \<le> length (drop (sty_size t) bs)" using 8(4) by simp
  with 8(2) [OF v refl] 8(3) obtain vs where
    "fixint_decs ts (drop (sty_size t) bs) =
       Some (vs, drop (sum_list (map sty_size ts)) (drop (sty_size t) bs))"
    by auto
  with v show ?case by (simp add: add.commute)
qed auto

lemma fixint_de_fixed: "sty_fixed t \<Longrightarrow> length bs = sty_size t \<Longrightarrow> \<exists>v. fixint_de t bs = Some v"
  using fixint_dec_fixed(1) [of t bs] by (auto simp: fixint_de_def)

lemma map_un_u8 [simp]: "map (un_u8 \<circ> SU8) bs = bs"
  by (induction bs) auto

text \<open>
  A message type with its layout: the values of the type (arrays of the declared sizes) and the
  values of the shape correspond, and the layout has a fixed size.
\<close>

locale wire_message =
  fixes ty :: sty
    and to_sval :: "'a \<Rightarrow> sval"
    and of_sval :: "sval \<Rightarrow> 'a option"
    and wf :: "'a \<Rightarrow> bool"
    and n :: nat
  assumes shape: "wf x \<Longrightarrow> has_sty (to_sval x) ty \<and> str_free (to_sval x)"
    and of_to: "wf x \<Longrightarrow> of_sval (to_sval x) = Some x"
    and to_of: "has_sty v ty \<Longrightarrow> \<exists>x. of_sval v = Some x \<and> wf x \<and> to_sval x = v"
    and fixed: "sty_fixed ty \<and> sty_size ty = n"
begin

lemma deserialize_iff:
  assumes "bincode_lib L"
  shows "wow_deserialize L ty of_sval bs = Ok x \<longleftrightarrow> wf x \<and> bs = fixint_bytes (to_sval x)"
proof
  assume "wow_deserialize L ty of_sval bs = Ok x"
  then obtain v where v: "de_wow L ty bs = Some v" "of_sval v = Some x"
    by (auto simp: wow_deserialize_def res_simps split: option.splits)
  with bincode_lib.de_wow [OF assms] to_of [of v]
  show "wf x \<and> bs = fixint_bytes (to_sval x)" by auto
next
  assume x: "wf x \<and> bs = fixint_bytes (to_sval x)"
  with shape [of x] have "de_wow L ty bs = Some (to_sval x)"
    by (simp add: bincode_lib.de_wow [OF assms] str_free_str_ok)
  with x show "wow_deserialize L ty of_sval bs = Ok x"
    by (simp add: wow_deserialize_def of_to)
qed

lemma deserialize_total:
  assumes "bincode_lib L" and "length bs = n"
  shows "\<exists>x. wow_deserialize L ty of_sval bs = Ok x \<and> wf x \<and> bs = fixint_bytes (to_sval x)"
proof -
  obtain v where "fixint_de ty bs = Some v"
    using fixint_de_fixed [of ty bs] fixed assms(2) by auto
  moreover from this obtain x where "of_sval v = Some x"
    using to_of [of v] by (auto simp: fixint_de_iff)
  ultimately have "wow_deserialize L ty of_sval bs = Ok x"
    by (simp add: wow_deserialize_def bincode_lib.de_wow_eq [OF assms(1)])
  with deserialize_iff [OF assms(1)] show ?thesis by blast
qed

lemma length_bytes: "wf x \<Longrightarrow> length (fixint_bytes (to_sval x)) = n"
proof -
  assume "wf x"
  with shape [of x] have v: "has_sty (to_sval x) ty" "str_ok (to_sval x)"
    by (simp_all add: str_free_str_ok)
  let ?r = "replicate n (0 :: u8)"
  have "fixint_dec ty (fixint_bytes (to_sval x) @ ?r) = Some (to_sval x, ?r)"
    using fixint_dec_complete(1) [OF v] .
  moreover obtain w where "fixint_dec ty (fixint_bytes (to_sval x) @ ?r) =
      Some (w, drop n (fixint_bytes (to_sval x) @ ?r))"
    using fixint_dec_fixed(1) [of ty "fixint_bytes (to_sval x) @ ?r"] fixed by auto
  ultimately have "length (drop n (fixint_bytes (to_sval x) @ ?r)) = length ?r" by simp
  then show ?thesis by simp
qed

end

text \<open>The Rust types of the messages: the fields declared as arrays have the declared sizes.\<close>

definition ConnectRequest_wf :: "ConnectRequest \<Rightarrow> bool" where
  "ConnectRequest_wf r \<longleftrightarrow> length (cr_game_name r) = 4 \<and> length (cr_platform r) = 4 \<and>
     length (cr_os r) = 4 \<and> length (cr_country r) = 4 \<and> length (cr_ipv4 r) = 4"

definition ConnectProof_wf :: "ConnectProof \<Rightarrow> bool" where
  "ConnectProof_wf p \<longleftrightarrow> length (cp_user_public_key p) = 32 \<and> length (cp_user_proof p) = 20 \<and>
     length (cp_crc_hash p) = 20"

definition ReconnectProof_wf :: "ReconnectProof \<Rightarrow> bool" where
  "ReconnectProof_wf p \<longleftrightarrow> length (rp_proof_data p) = 16 \<and> length (rp_client_proof p) = 20 \<and>
     length (rp_unknown p) = 20"

definition RealmListRequest_wf :: "RealmListRequest \<Rightarrow> bool" where
  "RealmListRequest_wf q \<longleftrightarrow> length (rq_data q) = 4"

lemmas has_sty_fields = has_sty_TU has_stys_bytes has_stys_cases

interpretation connect_request: wire_message ConnectRequest_ty ConnectRequest_sval ConnectRequest_of
  ConnectRequest_wf "command_len Connect"
  by unfold_locales
    (auto simp: ConnectRequest_ty_def ConnectRequest_sval_def ConnectRequest_of_def ConnectRequest_wf_def
        has_sty_fields sum_list_replicate list_all_iff)

interpretation connect_proof: wire_message ConnectProof_ty ConnectProof_sval ConnectProof_of
  ConnectProof_wf "command_len Proof"
  by unfold_locales
    (auto simp: ConnectProof_ty_def ConnectProof_sval_def ConnectProof_of_def ConnectProof_wf_def
        has_sty_fields sum_list_replicate list_all_iff)

interpretation reconnect_proof: wire_message ReconnectProof_ty ReconnectProof_sval ReconnectProof_of
  ReconnectProof_wf "command_len ReProof"
  by unfold_locales
    (auto simp: ReconnectProof_ty_def ReconnectProof_sval_def ReconnectProof_of_def ReconnectProof_wf_def
        has_sty_fields sum_list_replicate list_all_iff)

interpretation realmlist_request: wire_message RealmListRequest_ty RealmListRequest_sval
  RealmListRequest_of RealmListRequest_wf "command_len RealmList"
  by unfold_locales
    (auto simp: RealmListRequest_ty_def RealmListRequest_sval_def RealmListRequest_of_def
        RealmListRequest_wf_def has_sty_fields sum_list_replicate list_all_iff)

section \<open>Messages on the wire\<close>

text \<open>What a client sends for a message: the command, then the fields of the packed struct.\<close>

fun message_wf :: "Message \<Rightarrow> bool" where
  "message_wf (M_Connect r) = ConnectRequest_wf r"
| "message_wf (M_Proof p) = ConnectProof_wf p"
| "message_wf (M_ReConnect r) = ConnectRequest_wf r"
| "message_wf (M_ReProof p) = ReconnectProof_wf p"
| "message_wf (M_RealmList q) = RealmListRequest_wf q"

fun message_command :: "Message \<Rightarrow> AuthCommand" where
  "message_command (M_Connect r) = Connect"
| "message_command (M_Proof p) = Proof"
| "message_command (M_ReConnect r) = ReConnect"
| "message_command (M_ReProof p) = ReProof"
| "message_command (M_RealmList q) = RealmList"

fun message_body :: "Message \<Rightarrow> bytes" where
  "message_body (M_Connect r) = fixint_bytes (ConnectRequest_sval r)"
| "message_body (M_Proof p) = fixint_bytes (ConnectProof_sval p)"
| "message_body (M_ReConnect r) = fixint_bytes (ConnectRequest_sval r)"
| "message_body (M_ReProof p) = fixint_bytes (ReconnectProof_sval p)"
| "message_body (M_RealmList q) = fixint_bytes (RealmListRequest_sval q)"

definition message_bytes :: "Message \<Rightarrow> bytes" where
  "message_bytes m = AuthCommand_u8 (message_command m) # message_body m"

lemma length_message_body: "message_wf m \<Longrightarrow> length (message_body m) = command_len (message_command m)"
  by (cases m)
    (simp_all only: message_wf.simps message_body.simps message_command.simps
      connect_request.length_bytes connect_proof.length_bytes reconnect_proof.length_bytes
      realmlist_request.length_bytes command_len.simps)

lemma command_len_pos [simp]: "0 < command_len c"
  by (cases c) simp_all

lemma decode_message_iff:
  assumes "bincode_lib L"
  shows "decode_message L c bs = Ok m \<longleftrightarrow>
     message_wf m \<and> c = message_command m \<and> bs = message_body m"
  by (cases c; cases m)
    (auto simp: res_simps connect_request.deserialize_iff [OF assms] connect_proof.deserialize_iff [OF assms]
      reconnect_proof.deserialize_iff [OF assms] realmlist_request.deserialize_iff [OF assms])

lemma decode_message_total:
  assumes "bincode_lib L" and "length bs = command_len c"
  shows "\<exists>m. decode_message L c bs = Ok m"
  using assms(2) connect_request.deserialize_total [OF assms(1), of bs]
    connect_proof.deserialize_total [OF assms(1), of bs]
    reconnect_proof.deserialize_total [OF assms(1), of bs]
    realmlist_request.deserialize_total [OF assms(1), of bs]
  by (cases c) (auto simp: res_simps)

text \<open>A message that arrives together with what follows it is read back as it was sent.\<close>

lemma read_packet_message:
  assumes "bincode_lib L" and "message_wf m"
  shows "read_packet L (Seg (message_bytes m @ rest) # evs) = (Ok m, seg_push rest evs)"
proof -
  have len: "length (message_body m) = command_len (message_command m)"
    using assms(2) by (rule length_message_body)
  then have ne: "message_body m @ rest \<noteq> []"
    by (metis append_is_Nil_conv command_len_pos length_greater_0_conv)
  have dec: "decode_message L (message_command m) (message_body m) = Ok m"
    using assms by (simp add: decode_message_iff)
  show ?thesis
    using len ne by (simp add: read_packet_def message_bytes_def tcp_read_seg dec)
qed

lemma read_packet_split:
  assumes "message_wf m" and "0 < k" and "k < length (message_body m)"
  shows "read_packet L (Seg (AuthCommand_u8 (message_command m) # take k (message_body m)) # evs)
    = (Err (MessageLength k (length (message_body m))), evs)"
proof -
  have "take k (message_body m) \<noteq> []" using assms by auto
  with assms(2,3) length_message_body [OF assms(1)] show ?thesis
    by (simp add: read_packet_def tcp_read_seg seg_push_def)
qed

text \<open>What a read consumes, and its errors.\<close>

lemma read_packet_le: "in_size (snd (read_packet L evs)) \<le> in_size evs"
  using read_exact_le [of 1 evs] tcp_read_le [of _ "snd (read_exact 1 evs)"]
  by (auto simp: read_packet_def split: res.splits prod.splits option.splits)
    (metis dual_order.trans snd_conv)+

lemma read_packet_Ok:
  assumes "bincode_lib L" and "read_packet L evs = (Ok m, evs')"
  shows "message_wf m \<and> in_size evs' < in_size evs"
proof -
  obtain b evs1 c bs where r: "read_exact 1 evs = (Ok b, evs1)"
    "tcp_read (command_len c) evs1 = (Ok bs, evs')" "decode_message L c bs = Ok m"
    using assms(2) by (auto simp: read_packet_def split: res.splits prod.splits option.splits if_splits)
  have "in_size evs = 1 + in_size evs1" using read_exact_Ok [OF r(1)] by simp
  moreover have "in_size evs' \<le> in_size evs1" using tcp_read_le [of "command_len c" evs1] r(2) by simp
  ultimately show ?thesis using r(3) by (simp add: decode_message_iff [OF assms(1)])
qed

lemma read_packet_errors:
  assumes "bincode_lib L"
  shows "fst (read_packet L evs) \<noteq> Panic" and "fst (read_packet L evs) \<noteq> Err (MessageParse e)"
proof -
  obtain r1 evs1 where r1: "read_exact 1 evs = (r1, evs1)" by fastforce
  have "fst (read_packet L evs) \<noteq> Panic \<and> fst (read_packet L evs) \<noteq> Err (MessageParse e)"
  proof (cases r1)
    case (Ok b)
    show ?thesis
    proof (cases "AuthCommand_try_from (b ! 0)")
      case (Some c)
      obtain r2 evs2 where r2: "tcp_read (command_len c) evs1 = (r2, evs2)" by fastforce
      show ?thesis
      proof (cases r2)
        case r2_Ok: (Ok bs)
        show ?thesis
        proof (cases "length bs = command_len c")
          case True
          then obtain m where "decode_message L c bs = Ok m"
            using decode_message_total [OF assms] by blast
          with r1 Ok Some r2 r2_Ok show ?thesis by (simp add: read_packet_def)
        qed (use r1 Ok Some r2 r2_Ok in \<open>simp add: read_packet_def\<close>)
      qed (use r1 Ok Some r2 tcp_read_no_panic [of "command_len c" evs1] in
          \<open>auto simp: read_packet_def\<close>)
    qed (use r1 Ok in \<open>simp add: read_packet_def\<close>)
  qed (use r1 read_exact_no_panic [of 1 evs] in \<open>auto simp: read_packet_def\<close>)
  then show "fst (read_packet L evs) \<noteq> Panic" and "fst (read_packet L evs) \<noteq> Err (MessageParse e)"
    by auto
qed

lemma message_bytes_ne [simp]: "message_bytes m \<noteq> []"
  by (simp add: message_bytes_def)

section \<open>Properties\<close>

text \<open>
  C27. Messages round trip: what a client sends for a message, arriving in one segment with
  whatever follows it, is read back as that message, and exactly its bytes are taken from the
  stream.
\<close>

theorem read_packet_roundtrip:
  assumes "bincode_lib L" and "message_wf m"
  shows "read_packet L (Seg (message_bytes m @ rest) # evs) = (Ok m, seg_push rest evs)"
  using assms by (rule read_packet_message)

theorem read_packet_roundtrip_witness:
  "read_packet ref_lib [Seg [0x10, 1, 2, 3, 4, 9]] = (Ok (M_RealmList \<lparr>rq_data = [1, 2, 3, 4]\<rparr>), [Seg [9]])"
  using read_packet_roundtrip [OF ref_libs.bincode_lib_axioms, of "M_RealmList \<lparr>rq_data = [1, 2, 3, 4]\<rparr>" "[9]" "[]"]
  by (simp add: RealmListRequest_wf_def message_bytes_def RealmListRequest_sval_def seg_push_def)

text \<open>
  C26. The outcomes of reading a message. A message that is returned is exactly what the consumed
  bytes encode; the errors are an unknown command byte, a body that came short and a failure of
  the socket. No read ends in a decoding error or a panic.
\<close>

theorem read_packet_outcomes:
  assumes "bincode_lib L"
  shows "case read_packet L evs of
      (Ok m, evs') \<Rightarrow> message_wf m \<and> in_bytes evs = message_bytes m @ in_bytes evs'
    | (Err (InvalidCommand b), evs') \<Rightarrow> AuthCommand_try_from b = None \<and> in_bytes evs = b # in_bytes evs'
    | (Err (MessageLength got len), evs') \<Rightarrow> got < len
    | (Err (IoRead e), evs') \<Rightarrow> e = UnexpectedEof \<or> e = ReadFault
    | (Err (MessageParse e), evs') \<Rightarrow> False
    | (Panic, evs') \<Rightarrow> False"
proof -
  obtain r evs' where r: "read_packet L evs = (r, evs')" by fastforce
  obtain r1 evs1 where r1: "read_exact 1 evs = (r1, evs1)" by fastforce
  show ?thesis
  proof (cases r1)
    case (Ok bs)
    then obtain b where bs: "bs = [b]" and in1: "in_bytes evs = b # in_bytes evs1"
      using read_exact_Ok [of 1 evs] read_exact_bytes [of 1 evs] r1 by (auto simp: length_Suc_conv)
    show ?thesis
    proof (cases "AuthCommand_try_from b")
      case None
      with r1 Ok bs in1 show ?thesis by (simp add: read_packet_def)
    next
      case (Some c)
      obtain r2 evs2 where r2: "tcp_read (command_len c) evs1 = (r2, evs2)" by fastforce
      show ?thesis
      proof (cases r2)
        case r2_Ok: (Ok body)
        show ?thesis
        proof (cases "length body = command_len c")
          case True
          then obtain m where m: "decode_message L c body = Ok m"
            using decode_message_total [OF assms] by blast
          then have "message_wf m \<and> c = message_command m \<and> body = message_body m"
            by (simp add: decode_message_iff [OF assms])
          with m True r1 Ok bs Some r2 r2_Ok in1 tcp_read_bytes [OF r2 [unfolded r2_Ok]] show ?thesis
            by (simp add: read_packet_def message_bytes_def AuthCommand_try_from_eq)
        next
          case False
          then have "length body < command_len c" using tcp_read_bound [OF r2 [unfolded r2_Ok]] by simp
          with r1 Ok bs Some r2 r2_Ok show ?thesis by (simp add: read_packet_def)
        qed
      next
        case (Err e)
        with r1 Ok bs Some r2 tcp_read_Err [of "command_len c" evs1 e evs2] show ?thesis
          by (simp add: read_packet_def)
      qed (use r2 tcp_read_no_panic [of "command_len c" evs1] in simp)
    qed
  next
    case (Err e)
    with r1 read_exact_Err [of 1 evs e evs1] show ?thesis by (simp add: read_packet_def)
  qed (use r1 read_exact_no_panic [of 1 evs] in simp)
qed

theorem read_packet_outcomes_witness:
  "case read_packet ref_lib [Seg [0x42, 7]] of
      (Err (InvalidCommand b), evs') \<Rightarrow> AuthCommand_try_from b = None \<and> [0x42, 7] = b # in_bytes evs'
    | _ \<Rightarrow> False"
  using read_packet_outcomes [OF ref_libs.bincode_lib_axioms, of "[Seg [0x42, 7]]"]
  by (simp add: read_packet_def AuthCommand_try_from_def seg_push_def)

text \<open>
  The body of a message is read by a single \<open>read\<close>: a message whose body arrives in two
  segments is refused with the length of its first part, though all of it is sent.
\<close>

lemma read_packet_split_refused:
  assumes "message_wf m" and "0 < k" and "k < length (message_body m)"
  shows "read_packet L [Seg (AuthCommand_u8 (message_command m) # take k (message_body m)), Seg (drop k (message_body m))]
    = (Err (MessageLength k (length (message_body m))), [Seg (drop k (message_body m))])"
  using assms by (rule read_packet_split)

lemma read_packet_split_refused_witness:
  "read_packet ref_lib [Seg [0x10, 1, 2], Seg [3, 4]] = (Err (MessageLength 2 4), [Seg [3, 4]])"
  using read_packet_split_refused [of "M_RealmList \<lparr>rq_data = [1, 2, 3, 4]\<rparr>" 2 ref_lib]
  by (simp add: RealmListRequest_wf_def RealmListRequest_sval_def)

end
