(* ===== verification/Auth_Server.thy ===== *)
theory Auth_Server
  imports Auth_Packets
begin

text \<open>
  The connections of the authentication server (services/auth/src/authserver.rs): the state of a
  connection, the handlers of the messages, the loop that serves one connection and the loop over
  the connections. The server is generic over its two services, as in the source; a step's
  surroundings (the services as they answer at that moment, the random bytes drawn, the
  libraries and whether the build checks overflows) are a record \<open>server_env\<close>, so that clocks
  and faults may differ from one step to the next. Handlers return their result, the state of
  the services and the connection.
\<close>

section \<open>State\<close>

datatype RequestState =
    RS_Start
  | RS_ConnectChallenge ConnectToken
  | RS_ReconnectChallenge ReconnectToken
  | RS_Realmlist
  | RS_Rejected AuthCommand ReturnCode

datatype server_error =
    SE_Packet PacketHandleError
  | SE_Io io_error
  | SE_Serialize
  | SE_SizeRead rstr
  | SE_ProofBeforeRequest
  | SE_BadState

record 's server_env =
  se_lib :: lib
  se_checks :: bool
  se_accounts :: "'s account_ops"
  se_realms :: "'s realm_ops"
  se_rng :: bytes

type_synonym 's handled = "(server_error, RequestState) res \<times> 's \<times> tcp"

section \<open>Handlers\<close>

text \<open>
  The account name: \<open>identifier_length\<close> bytes read into a slice of a 16-byte buffer, then checked
  to be UTF-8 (the value \<open>None\<close> when they are not).
\<close>

definition read_username :: "u8 \<Rightarrow> tcp \<Rightarrow> (server_error, rstr option) res \<times> tcp" where
  "read_username identifier_length c =
     (if 16 < unat identifier_length then (Panic, c)
      else case read_exact (unat identifier_length) (tcp_in c) of
             (Err e, evs) \<Rightarrow> (Err (SE_Io e), c\<lparr>tcp_in := evs\<rparr>)
           | (Panic, evs) \<Rightarrow> (Panic, c\<lparr>tcp_in := evs\<rparr>)
           | (Ok bs, evs) \<Rightarrow> (Ok (from_utf8 bs), c\<lparr>tcp_in := evs\<rparr>))"

text \<open>\<open>stream.write_all(..).await?\<close> before the next state is returned.\<close>

definition reply :: "bytes \<Rightarrow> RequestState \<Rightarrow> 's \<Rightarrow> tcp \<Rightarrow> 's handled" where
  "reply bs st s c =
     (case write_all bs c of
        (Ok _, c') \<Rightarrow> (Ok st, s, c')
      | (Err e, c') \<Rightarrow> (Err (SE_Io e), s, c')
      | (Panic, c') \<Rightarrow> (Panic, s, c'))"

definition send_challenge :: "lib \<Rightarrow> ConnectToken \<Rightarrow> 's \<Rightarrow> tcp \<Rightarrow> 's handled" where
  "send_challenge L token s c =
     (let packet = reply_challenge (ConnectChallenge_from L token) in
      case size_wow_varint L packet of
        None \<Rightarrow> (Err SE_Serialize, s, c)
      | Some len \<Rightarrow>
          if 256 < unat len then (Panic, s, c)
          else case serialize_into (unat len) (ser_wow_varint L packet) of
                 None \<Rightarrow> (Err SE_Serialize, s, c)
               | Some bs \<Rightarrow> reply bs (RS_ConnectChallenge token) s c)"

definition handle_connect_request ::
  "'s server_env \<Rightarrow> ConnectRequest \<Rightarrow> 's \<Rightarrow> tcp \<Rightarrow> 's handled" where
  "handle_connect_request E request s c =
     (if cr_build request \<noteq> 12340 then (Ok (RS_Rejected Connect RC_VersionInvalid), s, c)
      else case read_username (cr_identifier_length request) c of
             (Err e, c1) \<Rightarrow> (Err e, s, c1)
           | (Panic, c1) \<Rightarrow> (Panic, s, c1)
           | (Ok None, c1) \<Rightarrow> (Ok (RS_Rejected Connect RC_Failed), s, c1)
           | (Ok (Some username), c1) \<Rightarrow>
               (case as_initiate_login (se_accounts E) (se_rng E) username s of
                  (Ok token, s1) \<Rightarrow> send_challenge (se_lib E) token s1 c1
                | (Err reason, s1) \<Rightarrow> (Ok (RS_Rejected Connect (ReturnCode_from reason)), s1, c1)
                | (Panic, s1) \<Rightarrow> (Panic, s1, c1)))"

definition handle_connect_proof ::
  "'s server_env \<Rightarrow> ConnectProof \<Rightarrow> ConnectToken \<Rightarrow> 's \<Rightarrow> tcp \<Rightarrow> 's handled" where
  "handle_connect_proof E proof token s c =
     (case as_complete_login (se_accounts E) token (cp_user_public_key proof) (cp_user_proof proof) s of
        (Ok server_proof, s1) \<Rightarrow>
          let response = \<lparr>pr_error = 0, pr_server_proof = server_proof, pr_account_flags = 0x00800000,
                pr_survey_id = 0, pr_login_flags = 0\<rparr>
          in (case ser_wow (se_lib E)
                (STup [SU8 (AuthCommand_u8 Proof), ConnectProofResponse_sval response]) of
                None \<Rightarrow> (Err SE_Serialize, s1, c)
              | Some bs \<Rightarrow> reply bs RS_Realmlist s1 c)
      | (Err status, s1) \<Rightarrow> (Ok (RS_Rejected Proof (ReturnCode_from status)), s1, c)
      | (Panic, s1) \<Rightarrow> (Panic, s1, c))"

definition handle_reconnect_request ::
  "'s server_env \<Rightarrow> ConnectRequest \<Rightarrow> 's \<Rightarrow> tcp \<Rightarrow> 's handled" where
  "handle_reconnect_request E request s c =
     (if cr_build request \<noteq> 12340 then (Ok (RS_Rejected ReConnect RC_VersionInvalid), s, c)
      else case read_username (cr_identifier_length request) c of
             (Err e, c1) \<Rightarrow> (Err e, s, c1)
           | (Panic, c1) \<Rightarrow> (Panic, s, c1)
           | (Ok None, c1) \<Rightarrow> (Ok (RS_Rejected ReConnect RC_Failed), s, c1)
           | (Ok (Some username), c1) \<Rightarrow>
               (case as_initiate_relogin (se_accounts E) (se_rng E) username s of
                  (Ok token, s1) \<Rightarrow>
                    (case ser_options (se_lib E) (STup [SU8 (AuthCommand_u8 ReConnect),
                        SU8 (ReturnCode_u8 RC_Success), sbytes (rt_reconnect_proof token),
                        sbytes VERSION_CHALLENGE]) of
                       None \<Rightarrow> (Err SE_Serialize, s1, c1)
                     | Some bs \<Rightarrow> reply bs (RS_ReconnectChallenge token) s1 c1)
                | (Err e, s1) \<Rightarrow> (Ok (RS_Rejected ReConnect (ReturnCode_from e)), s1, c1)
                | (Panic, s1) \<Rightarrow> (Panic, s1, c1)))"

definition handle_reconnect_proof ::
  "'s server_env \<Rightarrow> ReconnectProof \<Rightarrow> ReconnectToken \<Rightarrow> 's \<Rightarrow> tcp \<Rightarrow> 's handled" where
  "handle_reconnect_proof E proof token s c =
     (case as_complete_relogin (se_accounts E) token (rp_proof_data proof) (rp_client_proof proof) s of
        (Ok _, s1) \<Rightarrow>
          (case ser_plain (se_lib E) (STup [SU8 (AuthCommand_u8 ReProof),
              SU8 (ReturnCode_u8 RC_Success), SU16 0]) of
             None \<Rightarrow> (Err SE_Serialize, s1, c)
           | Some bs \<Rightarrow> reply bs RS_Realmlist s1 c)
      | (Err status, s1) \<Rightarrow> (Ok (RS_Rejected ReConnect (ReturnCode_from status)), s1, c)
      | (Panic, s1) \<Rightarrow> (Panic, s1, c))"

fun serialize_realms :: "lib \<Rightarrow> RealmEntry list \<Rightarrow> (server_error, bytes) res" where
  "serialize_realms L [] = Ok []"
| "serialize_realms L (r # rs) =
     res_bind (ok_or SE_Serialize (ser_wow L (RealmEntry_sval r))) (\<lambda>b.
     res_bind (serialize_realms L rs) (\<lambda>bs. Ok (b @ bs)))"

definition realmlist_packet :: "lib \<Rightarrow> bool \<Rightarrow> RealmEntry list \<Rightarrow> (server_error, bytes) res" where
  "realmlist_packet L chk realms =
     res_bind (map_err SE_SizeRead (from_realms L chk realms)) (\<lambda>resp.
     res_bind (add_checked chk (ls_packet_size resp) 8) (\<lambda>_.
     res_bind (ok_or SE_Serialize
        (ser_wow L (STup [SU8 (AuthCommand_u8 RealmList), RealmListResponse_sval resp]))) (\<lambda>head.
     res_bind (serialize_realms L realms) (\<lambda>body.
     Ok (head @ body @ [0x10, 0x0])))))"

definition handle_realmlist :: "'s server_env \<Rightarrow> 's \<Rightarrow> tcp \<Rightarrow> 's handled" where
  "handle_realmlist E s c =
     (case rs_realms (se_realms E) s of
        (rs, s1) \<Rightarrow>
          let realms = map (\<lambda>r. from_realm r 0 False) rs
          in (case realmlist_packet (se_lib E) (se_checks E) realms of
                Ok packet \<Rightarrow> reply packet RS_Realmlist s1 c
              | Err e \<Rightarrow> (Err e, s1, c)
              | Panic \<Rightarrow> (Panic, s1, c)))"

section \<open>Loops\<close>

definition connect_step ::
  "'s server_env \<Rightarrow> RequestState \<Rightarrow> Message \<Rightarrow> 's \<Rightarrow> tcp \<Rightarrow> 's handled" where
  "connect_step E state message s c =
     (case (state, message) of
        (_, M_Connect r) \<Rightarrow> handle_connect_request E r s c
      | (_, M_ReConnect r) \<Rightarrow> handle_reconnect_request E r s c
      | (RS_ConnectChallenge token, M_Proof proof) \<Rightarrow> handle_connect_proof E proof token s c
      | (RS_ReconnectChallenge token, M_ReProof proof) \<Rightarrow> handle_reconnect_proof E proof token s c
      | (RS_Realmlist, M_RealmList _) \<Rightarrow> handle_realmlist E s c
      | (_, M_Proof _) \<Rightarrow> (Err SE_ProofBeforeRequest, s, c)
      | (_, M_ReProof _) \<Rightarrow> (Err SE_ProofBeforeRequest, s, c)
      | _ \<Rightarrow> (Err SE_BadState, s, c))"

definition send_rejection ::
  "lib \<Rightarrow> AuthCommand \<Rightarrow> ReturnCode \<Rightarrow> 's \<Rightarrow> tcp \<Rightarrow> (server_error, unit) res \<times> 's \<times> tcp" where
  "send_rejection L command reason s c =
     (case serialize_into 3 (ser_wow L (reply_unit command reason)) of
        None \<Rightarrow> (Err SE_Serialize, s, c)
      | Some bs \<Rightarrow>
          (case write_all bs c of
             (Ok _, c') \<Rightarrow> (Ok (), s, c')
           | (Err e, c') \<Rightarrow> (Err (SE_Io e), s, c')
           | (Panic, c') \<Rightarrow> (Panic, s, c')))"

text \<open>No handler puts bytes back into the stream.\<close>

lemma read_username_le: "in_size (tcp_in (snd (read_username n c))) \<le> in_size (tcp_in c)"
  using read_exact_le [of "unat n" "tcp_in c"]
  by (auto simp: read_username_def split: prod.splits res.splits)

lemma reply_simps [simp]:
  "tcp_in (snd (snd (reply bs st s c))) = tcp_in c"
  "fst (snd (reply bs st s c)) = s"
  using write_all_in [of bs c] by (cases "write_all bs c", auto simp: reply_def split: res.splits)+

lemma send_challenge_in [simp]:
  "tcp_in (snd (snd (send_challenge L t s c))) = tcp_in c"
  by (simp add: send_challenge_def Let_def split: option.splits)

lemma handle_connect_request_le:
  "in_size (tcp_in (snd (snd (handle_connect_request E r s c)))) \<le> in_size (tcp_in c)"
  using read_username_le [of "cr_identifier_length r" c]
  by (auto simp: handle_connect_request_def split: prod.splits res.splits option.splits)

lemma handle_reconnect_request_le:
  "in_size (tcp_in (snd (snd (handle_reconnect_request E r s c)))) \<le> in_size (tcp_in c)"
  using read_username_le [of "cr_identifier_length r" c]
  by (auto simp: handle_reconnect_request_def split: prod.splits res.splits option.splits)

lemma handle_proofs_in [simp]:
  "tcp_in (snd (snd (handle_connect_proof E p t s c))) = tcp_in c"
  "tcp_in (snd (snd (handle_reconnect_proof E p' t' s c))) = tcp_in c"
  "tcp_in (snd (snd (handle_realmlist E s c))) = tcp_in c"
  by (simp_all add: handle_connect_proof_def handle_reconnect_proof_def handle_realmlist_def Let_def
      split: prod.splits res.splits option.splits)

lemma connect_step_le: "in_size (tcp_in (snd (snd (connect_step E st m s c)))) \<le> in_size (tcp_in c)"
  by (simp add: connect_step_def handle_connect_request_le handle_reconnect_request_le
      split: Message.splits RequestState.splits)

lemma read_packet_decr: "read_packet L evs = (Ok m, evs') \<Longrightarrow> in_size evs' < in_size evs"
  using read_exact_Ok [of 1 evs] tcp_read_le [of _ "snd (read_exact 1 evs)"]
  by (auto simp: read_packet_def split: res.splits prod.splits option.splits if_splits)
    (metis add.commute le_imp_less_Suc plus_1_eq_Suc snd_conv)

lemma connect_step_decr:
  assumes "(Ok m, evs) = read_packet L (tcp_in c)"
    and "(r, s1, c1) = connect_step E st m s (c\<lparr>tcp_in := evs\<rparr>)"
  shows "in_size (tcp_in c1) < in_size (tcp_in c)"
  using read_packet_decr [OF assms(1) [symmetric]] connect_step_le [of E st m s "c\<lparr>tcp_in := evs\<rparr>"]
  by (simp add: assms(2) [symmetric])

text \<open>
  One connection: read a message, handle it, and go on until an error, a panic or a rejection,
  whose reply ends the loop. The surroundings of the \<open>i\<close>-th message are \<open>E i\<close>. Every message
  takes at least its command byte from the stream, so the loop ends with the stream.
\<close>

function connect_loop ::
  "(nat \<Rightarrow> 's server_env) \<Rightarrow> nat \<Rightarrow> RequestState \<Rightarrow> 's \<Rightarrow> tcp \<Rightarrow> (server_error, unit) res \<times> 's \<times> tcp" where
  "connect_loop E i state s c =
     (case read_packet (se_lib (E i)) (tcp_in c) of
        (Err e, evs) \<Rightarrow> (Err (SE_Packet e), s, c\<lparr>tcp_in := evs\<rparr>)
      | (Panic, evs) \<Rightarrow> (Panic, s, c\<lparr>tcp_in := evs\<rparr>)
      | (Ok message, evs) \<Rightarrow>
          (case connect_step (E i) state message s (c\<lparr>tcp_in := evs\<rparr>) of
             (Err e, s1, c1) \<Rightarrow> (Err e, s1, c1)
           | (Panic, s1, c1) \<Rightarrow> (Panic, s1, c1)
           | (Ok state', s1, c1) \<Rightarrow>
               (case state' of
                  RS_Rejected command reason \<Rightarrow> send_rejection (se_lib (E i)) command reason s1 c1
                | _ \<Rightarrow> connect_loop E (Suc i) state' s1 c1)))"
  by pat_completeness auto
termination
  by (relation "measure (\<lambda>(E, i, st, s, c). in_size (tcp_in c))")
    (auto intro: connect_step_decr)

declare connect_loop.simps [simp del]

text \<open>
  The accept loop serves one connection after the other. An error of a connection is logged; a
  failed accept ends the loop, and a panic ends the task of the server.
\<close>

datatype 's conn = Accepted "nat \<Rightarrow> 's server_env" tcp | AcceptError

fun authentication :: "'s conn list \<Rightarrow> 's \<Rightarrow> (server_error, unit) res \<times> 's \<times> tcp list" where
  "authentication [] s = (Ok (), s, [])"
| "authentication (AcceptError # cs) s = (Ok (), s, [])"
| "authentication (Accepted E c # cs) s =
     (case connect_loop E 0 RS_Start s c of
        (Panic, s1, c1) \<Rightarrow> (Panic, s1, [c1])
      | (_, s1, c1) \<Rightarrow>
          (case authentication cs s1 of (r, s2, done) \<Rightarrow> (r, s2, c1 # done)))"

section \<open>Bytes of the replies\<close>

definition challenge_bytes :: "ConnectToken \<Rightarrow> bytes" where
  "challenge_bytes t =
     [0, 0, 0] @ srp_b_pub (ct_server t) @ [1, 7] @ [32] @ rev N_bytes_be @ srp_salt (ct_server t)
       @ VERSION_CHALLENGE @ [0]"

definition proof_bytes :: "bytes \<Rightarrow> bytes" where
  "proof_bytes m = [1, 0] @ m @ [0, 0, 0x80, 0] @ [0, 0, 0, 0] @ [0, 0]"

definition entries_bytes :: "RealmEntry list \<Rightarrow> bytes" where
  "entries_bytes es = concat (map (\<lambda>e. fixint_bytes (RealmEntry_sval e)) es)"

lemma send_rejection_eq:
  assumes "bincode_lib L"
  shows "send_rejection L command reason s c =
    (case write_all [AuthCommand_u8 command, 0, ReturnCode_u8 reason] c of
       (Ok _, c') \<Rightarrow> (Ok (), s, c') | (Err e, c') \<Rightarrow> (Err (SE_Io e), s, c') | (Panic, c') \<Rightarrow> (Panic, s, c'))"
  by (simp add: send_rejection_def bincode_lib.ser_wow [OF assms] reply_unit_def)

lemma serialize_realms_eq:
  assumes "bincode_lib L"
  shows "list_all (str_ok \<circ> RealmEntry_sval) es \<Longrightarrow> serialize_realms L es = Ok (entries_bytes es)"
  by (induction es) (simp_all add: entries_bytes_def bincode_lib.ser_wow [OF assms])

lemma realm_sizes_eq:
  assumes "bincode_lib L"
  shows "list_all (str_ok \<circ> RealmEntry_sval) es \<Longrightarrow> unat acc + length (entries_bytes es) < 2 ^ 64 \<Longrightarrow>
    realm_sizes L chk acc es = Ok (acc + of_nat (length (entries_bytes es)))"
proof (induction es arbitrary: acc)
  case (Cons e es)
  let ?n = "length (fixint_bytes (RealmEntry_sval e))"
  have len: "length (entries_bytes (e # es)) = ?n + length (entries_bytes es)"
    by (simp add: entries_bytes_def)
  have n: "unat acc + ?n < 2 ^ 64" using Cons.prems(2) len by linarith
  then have un: "unat (of_nat ?n :: u64) = ?n" by (simp add: unat_of_nat)
  then have sum: "unat (acc + of_nat ?n) = unat acc + ?n" using n
    unat_add_lem [of acc "of_nat ?n :: u64"] by simp
  have "realm_sizes L chk acc (e # es) = realm_sizes L chk (acc + of_nat ?n) es"
    using Cons.prems(1) n un by (simp add: bincode_lib.size_wow [OF assms] add_checked_def)
  also have "\<dots> = Ok (acc + of_nat ?n + of_nat (length (entries_bytes es)))"
    using Cons.IH [of "acc + of_nat ?n"] Cons.prems sum len by simp
  finally show ?case by (simp add: len)
qed (simp add: entries_bytes_def)

lemma unat_u16: "unat (of_nat k :: u16) = k mod 65536"
  by (simp add: unat_of_nat)

text \<open>A realm list that fits its 16-bit size field, and one that does not.\<close>

lemma from_realms_eq:
  assumes "bincode_lib L" and "list_all (str_ok \<circ> RealmEntry_sval) es"
    and "length (entries_bytes es) < 2 ^ 64"
  shows "from_realms L chk es =
    (if chk \<and> 2 ^ 16 \<le> length (entries_bytes es) mod 2 ^ 16 + 8 then Panic
     else Ok \<lparr>ls_packet_size = of_nat (length (entries_bytes es) + 8), ls_data = [0, 0, 0, 0],
              ls_realm_count = of_nat (length es)\<rparr>)"
proof -
  let ?n = "length (entries_bytes es)"
  have len: "realm_sizes L chk 0 es = Ok (of_nat ?n)"
    using realm_sizes_eq [OF assms(1,2), of 0 chk] assms(3) by simp
  have uc: "(ucast (of_nat ?n :: u64) :: u16) = of_nat ?n"
    by (rule bit_word_eqI) (auto simp: bit_simps)
  have un: "unat (of_nat ?n :: u16) = ?n mod 65536"
    by (rule unat_u16)
  have s: "unat (6 + of_nat ?n :: u16) = ?n mod 65536 + 6" if "?n mod 65536 + 6 < 65536"
    using that un unat_add_lem [of "6 :: u16" "of_nat ?n"] by simp
  have sum: "6 + of_nat ?n + 2 = (of_nat (?n + 8) :: u16)" by simp
  have e: "from_realms L chk es =
      res_bind (add_checked chk 6 (of_nat ?n)) (\<lambda>x. res_bind (add_checked chk x 2) (\<lambda>p.
        Ok \<lparr>ls_packet_size = p, ls_data = [0, 0, 0, 0], ls_realm_count = of_nat (length es)\<rparr>))"
    by (simp add: from_realms_def len uc)
  consider "\<not> chk" | "chk" "65536 \<le> ?n mod 65536 + 6" | "chk" "?n mod 65536 + 6 < 65536" by linarith
  then show ?thesis
  proof cases
    case 3
    have a: "add_checked chk 6 (of_nat ?n :: u16) = (Ok (6 + of_nat ?n) :: (rstr, u16) res)"
      using 3 un by (simp add: add_checked_def)
    have b: "add_checked chk (6 + of_nat ?n :: u16) 2 =
        (if 65536 \<le> ?n mod 65536 + 8 then Panic else Ok (of_nat (?n + 8)) :: (rstr, u16) res)"
      unfolding add_checked_def sum using s [OF 3(2)] 3(1) by simp
    show ?thesis unfolding e a res_bind.simps b using 3(1) by simp
  next
    case 1
    then show ?thesis unfolding e add_checked_def sum [symmetric] by simp
  next
    case 2
    then show ?thesis unfolding e by (simp add: add_checked_def un)
  qed
qed

definition realmlist_bytes :: "RealmEntry list \<Rightarrow> bytes" where
  "realmlist_bytes es = 0x10 # u16_le (of_nat (length (entries_bytes es) + 8)) @ [0, 0, 0, 0]
     @ u16_le (of_nat (length es)) @ entries_bytes es @ [0x10, 0]"

lemma realmlist_packet_eq:
  assumes "bincode_lib L" and "list_all (str_ok \<circ> RealmEntry_sval) es"
    and "length (entries_bytes es) < 2 ^ 64"
  shows "realmlist_packet L chk es =
    (if chk \<and> 2 ^ 16 \<le> length (entries_bytes es) mod 2 ^ 16 + 16 then Panic
     else Ok (realmlist_bytes es))"
proof -
  let ?n = "length (entries_bytes es)"
  let ?resp = "\<lparr>ls_packet_size = of_nat (?n + 8), ls_data = [0, 0, 0, 0], ls_realm_count = of_nat (length es)\<rparr>"
  have head: "ser_wow L (STup [SU8 (AuthCommand_u8 RealmList), RealmListResponse_sval ?resp]) =
      Some (0x10 # u16_le (of_nat (?n + 8)) @ [0, 0, 0, 0] @ u16_le (of_nat (length es)))"
    by (simp add: bincode_lib.ser_wow [OF assms(1)] RealmListResponse_sval_def)
  have tail: "res_bind (ok_or SE_Serialize (ser_wow L (STup [SU8 (AuthCommand_u8 RealmList), RealmListResponse_sval ?resp])))
      (\<lambda>head. res_bind (serialize_realms L es) (\<lambda>body. Ok (head @ body @ [0x10, 0x0]))) = Ok (realmlist_bytes es)"
    unfolding head by (simp add: serialize_realms_eq [OF assms(1,2)] realmlist_bytes_def)
  show ?thesis
  proof (cases "chk \<and> 2 ^ 16 \<le> ?n mod 2 ^ 16 + 8")
    case True
    then show ?thesis by (simp add: realmlist_packet_def from_realms_eq [OF assms])
  next
    case False
    then have fr: "from_realms L chk es = Ok ?resp" unfolding from_realms_eq [OF assms] by simp
    have "unat (of_nat (?n + 8) :: u16) = ?n mod 65536 + 8" if chk
    proof -
      have "?n mod 65536 + 8 < 65536" using False that by simp
      then show ?thesis unfolding unat_u16 by (metis mod_add_left_eq mod_less)
    qed
    then have ac: "add_checked chk (of_nat (?n + 8) :: u16) 8 =
        (if chk \<and> 2 ^ 16 \<le> ?n mod 2 ^ 16 + 16 then Panic else Ok (of_nat (?n + 8) + 8) :: (server_error, u16) res)"
      unfolding add_checked_def by (cases chk) simp_all
    show ?thesis
      unfolding realmlist_packet_def fr map_err.simps res_bind.simps RealmListResponse.simps ac
      by (cases "chk \<and> 2 ^ 16 \<le> ?n mod 2 ^ 16 + 16") (simp_all only: if_True if_False simp_thms res_bind.simps tail)
  qed
qed

lemma send_challenge_eq:
  assumes "libs L" and "ct_security_flags t = 0"
    and "length (srp_b_pub (ct_server t)) = 32" and "length (srp_salt (ct_server t)) = 32"
  shows "send_challenge L t s c = reply (challenge_bytes t) (RS_ConnectChallenge t) s c"
proof -
  have b: "bincode_lib L" and sl: "srp_libs L" using assms(1) by (simp_all add: libs_def)
  let ?p = "reply_challenge (ConnectChallenge_from L t)"
  have bytes: "varint_bytes ?p = challenge_bytes t" and free: "str_free ?p"
    using assms(2) srp_libs.get_g_bytes [OF sl] bignum_lib.get_n_bytes [of L] sl
    by (simp_all add: reply_challenge_def ConnectChallenge_from_def ConnectChallenge_sval_def get_g_def
        get_n_def challenge_bytes_def varint_nat_def N_bytes_be_def srp_libs_def)
  have len: "length (challenge_bytes t) = 119"
    using assms(3,4) by (simp add: challenge_bytes_def N_bytes_be_def VERSION_CHALLENGE_def)
  show ?thesis
    using free by (simp add: send_challenge_def Let_def bincode_lib.size_wow_varint [OF b]
        bincode_lib.ser_wow_varint [OF b] bytes len)
qed

end
