(* ===== verification/Auth_Session.thy ===== *)
theory Auth_Session
  imports Auth_Server Mysql_Realms
begin

text \<open>
  What the connections of the authentication server guarantee. The inductive relation \<open>session\<close>
  is the reachable part of a connection with the history of its handled messages;
  \<open>connect_loop\<close> is shown to be a maximal run of it. On top of it: a connection reaches the
  realm list only through an accepted proof for a challenge issued in the same connection, the
  bytes of a whole conversation, the rejections, and the panic a long account name causes.
\<close>

section \<open>Sessions\<close>

type_synonym 's point = "nat \<times> RequestState \<times> 's \<times> tcp"

type_synonym 's history = "(RequestState \<times> Message \<times> 's) list"

fun rejected :: "RequestState \<Rightarrow> bool" where
  "rejected (RS_Rejected command reason) = True"
| "rejected _ = False"

inductive connect_trans :: "(nat \<Rightarrow> 's server_env) \<Rightarrow> 's point \<Rightarrow> Message \<Rightarrow> 's point \<Rightarrow> bool"
  for E where
  handle: "\<not> rejected st \<Longrightarrow> read_packet (se_lib (E i)) (tcp_in c) = (Ok m, evs) \<Longrightarrow>
    connect_step (E i) st m s (c\<lparr>tcp_in := evs\<rparr>) = (Ok st', s', c') \<Longrightarrow>
    connect_trans E (i, st, s, c) m (Suc i, st', s', c')"

inductive_cases connect_transE: "connect_trans E (i, st, s, c) m q"

inductive session :: "(nat \<Rightarrow> 's server_env) \<Rightarrow> 's \<Rightarrow> tcp \<Rightarrow> 's history \<Rightarrow> 's point \<Rightarrow> bool"
  for E s0 c0 where
  start: "session E s0 c0 [] (0, RS_Start, s0, c0)"
| step: "session E s0 c0 h (i, st, s, c) \<Longrightarrow> connect_trans E (i, st, s, c) m (i', st', s', c') \<Longrightarrow>
    session E s0 c0 (h @ [(st, m, s)]) (i', st', s', c')"

text \<open>The end of a connection: what the loop does where no further message is handled.\<close>

definition finish ::
  "(nat \<Rightarrow> 's server_env) \<Rightarrow> 's point \<Rightarrow> (server_error, unit) res \<times> 's \<times> tcp" where
  "finish E p =
     (case p of (i, st, s, c) \<Rightarrow>
        case st of
          RS_Rejected command reason \<Rightarrow> send_rejection (se_lib (E (i - 1))) command reason s c
        | _ \<Rightarrow>
          (case read_packet (se_lib (E i)) (tcp_in c) of
             (Err e, evs) \<Rightarrow> (Err (SE_Packet e), s, c\<lparr>tcp_in := evs\<rparr>)
           | (Panic, evs) \<Rightarrow> (Panic, s, c\<lparr>tcp_in := evs\<rparr>)
           | (Ok m, evs) \<Rightarrow>
               (case connect_step (E i) st m s (c\<lparr>tcp_in := evs\<rparr>) of
                  (Err e, s1, c1) \<Rightarrow> (Err e, s1, c1)
                | (Panic, s1, c1) \<Rightarrow> (Panic, s1, c1)
                | (Ok st', s1, c1) \<Rightarrow> (Ok (), s1, c1))))"

lemma session_length: "session E s0 c0 h (i, st, s, c) \<Longrightarrow> i = length h"
  by (induction h "(i, st, s, c)" arbitrary: i st s c rule: session.induct)
    (auto elim!: connect_transE)

lemma connect_loop_step:
  assumes "connect_trans E (i, st, s, c) m (i', st', s', c')" and "\<not> rejected st'"
  shows "connect_loop E i st s c = connect_loop E i' st' s' c'"
  using assms by (subst connect_loop.simps) (auto elim!: connect_transE split: RequestState.splits)

lemma connect_loop_reject:
  assumes "connect_trans E (i, st, s, c) m (i', st', s', c')" and "rejected st'"
  shows "connect_loop E i st s c = finish E (i', st', s', c')"
  using assms by (subst connect_loop.simps)
    (auto elim!: connect_transE simp: finish_def split: RequestState.splits)

lemma connect_loop_stop:
  assumes "\<not> rejected st" and "\<nexists>m q. connect_trans E (i, st, s, c) m q"
  shows "connect_loop E i st s c = finish E (i, st, s, c)"
proof -
  have "connect_step (E i) st m s (c\<lparr>tcp_in := evs\<rparr>) \<noteq> (Ok st', s', c')"
    if "read_packet (se_lib (E i)) (tcp_in c) = (Ok m, evs)" for m evs st' s' c'
    using assms that connect_trans.handle [where E = E and i = i and c = c] by blast
  note no_step = this
  have finish: "finish E (i, st, s, c) =
      (case read_packet (se_lib (E i)) (tcp_in c) of
         (Err e, evs) \<Rightarrow> (Err (SE_Packet e), s, c\<lparr>tcp_in := evs\<rparr>)
       | (Panic, evs) \<Rightarrow> (Panic, s, c\<lparr>tcp_in := evs\<rparr>)
       | (Ok m, evs) \<Rightarrow>
           (case connect_step (E i) st m s (c\<lparr>tcp_in := evs\<rparr>) of
              (Err e, s1, c1) \<Rightarrow> (Err e, s1, c1)
            | (Panic, s1, c1) \<Rightarrow> (Panic, s1, c1)
            | (Ok st', s1, c1) \<Rightarrow> (Ok (), s1, c1)))"
    using assms(1) by (cases st; hypsubst; simp add: finish_def)
  obtain r evs where r: "read_packet (se_lib (E i)) (tcp_in c) = (r, evs)" by fastforce
  show ?thesis
  proof (cases r)
    case (Ok m)
    obtain q s1 c1 where q: "connect_step (E i) st m s (c\<lparr>tcp_in := evs\<rparr>) = (q, s1, c1)"
      using prod_cases3 by blast
    with r Ok no_step [of m evs] have "(\<exists>e. q = Err e) \<or> q = Panic" by (cases q) auto
    with r Ok q show ?thesis unfolding finish by (subst connect_loop.simps) auto
  qed (use r in \<open>subst connect_loop.simps, simp add: finish\<close>)+
qed

text \<open>The loop is a maximal session.\<close>

lemma connect_loop_session:
  assumes "session E s0 c0 h (i, st, s, c)" and "\<not> rejected st"
  shows "\<exists>h' q. session E s0 c0 h' q \<and> connect_loop E i st s c = finish E q \<and>
    (\<nexists>m q'. connect_trans E q m q')"
  using assms
proof (induction "in_size (tcp_in c)" arbitrary: h i st s c rule: less_induct)
  case less
  show ?case
  proof (cases "\<exists>m q. connect_trans E (i, st, s, c) m q")
    case False
    with less.prems connect_loop_stop [of st E i s c] show ?thesis by blast
  next
    case True
    then obtain m i' st' s' c' where t: "connect_trans E (i, st, s, c) m (i', st', s', c')" by fast
    have s': "session E s0 c0 (h @ [(st, m, s)]) (i', st', s', c')"
      using less.prems(1) t by (rule session.step)
    show ?thesis
    proof (cases "rejected st'")
      case True
      then have "\<nexists>m q'. connect_trans E (i', st', s', c') m q'" by (auto elim: connect_transE)
      with s' connect_loop_reject [OF t True] show ?thesis by blast
    next
      case False
      have "in_size (tcp_in c') < in_size (tcp_in c)"
        using t by (auto elim!: connect_transE intro: connect_step_decr [OF sym sym])
      from less.hyps [OF this s' False] connect_loop_step [OF t False] show ?thesis by simp
    qed
  qed
qed

section \<open>Where a state comes from\<close>

lemma reply_Ok: "reply bs st s c = (Ok st', s', c') \<Longrightarrow> st' = st \<and> s' = s \<and> tcp_out c' = tcp_out c @ bs"
  by (auto simp: reply_def dest: write_all_Ok split: prod.splits res.splits)

lemma send_challenge_Ok: "send_challenge L t s c = (Ok st', s', c') \<Longrightarrow> st' = RS_ConnectChallenge t"
  by (auto simp: send_challenge_def Let_def dest: reply_Ok split: option.splits if_splits)

lemma handle_connect_request_Ok:
  "handle_connect_request E r s c = (Ok st', s', c') \<Longrightarrow> \<not> rejected st' \<Longrightarrow>
     \<exists>u t. st' = RS_ConnectChallenge t \<and> cr_build r = 12340 \<and>
       fst (as_initiate_login (se_accounts E) (se_rng E) u s) = Ok t"
  by (auto simp: handle_connect_request_def dest!: send_challenge_Ok
      split: if_splits prod.splits res.splits option.splits) (metis fst_conv)

lemma handle_reconnect_request_Ok:
  "handle_reconnect_request E r s c = (Ok st', s', c') \<Longrightarrow> \<not> rejected st' \<Longrightarrow>
     \<exists>u t. st' = RS_ReconnectChallenge t \<and> cr_build r = 12340 \<and>
       fst (as_initiate_relogin (se_accounts E) (se_rng E) u s) = Ok t"
  by (auto simp: handle_reconnect_request_def dest!: reply_Ok
      split: if_splits prod.splits res.splits option.splits) (metis fst_conv)

lemma handle_connect_proof_Ok:
  "handle_connect_proof E p t s c = (Ok st', s', c') \<Longrightarrow> \<not> rejected st' \<Longrightarrow>
     st' = RS_Realmlist \<and>
     (\<exists>m. fst (as_complete_login (se_accounts E) t (cp_user_public_key p) (cp_user_proof p) s) = Ok m)"
  by (auto simp: handle_connect_proof_def Let_def dest!: reply_Ok
      split: prod.splits res.splits option.splits)

lemma handle_reconnect_proof_Ok:
  "handle_reconnect_proof E p t s c = (Ok st', s', c') \<Longrightarrow> \<not> rejected st' \<Longrightarrow>
     st' = RS_Realmlist \<and>
     (\<exists>m. fst (as_complete_relogin (se_accounts E) t (rp_proof_data p) (rp_client_proof p) s) = Ok m)"
  by (auto simp: handle_reconnect_proof_def dest!: reply_Ok
      split: prod.splits res.splits option.splits)

lemma handle_realmlist_Ok:
  "handle_realmlist E s c = (Ok st', s', c') \<Longrightarrow> st' = RS_Realmlist"
  by (auto simp: handle_realmlist_def Let_def dest!: reply_Ok split: prod.splits res.splits)

text \<open>One step of a connection that goes on, by the message that was handled.\<close>

lemma connect_step_cases:
  assumes "connect_step E st m s c = (Ok st', s', c')" and "\<not> rejected st'"
  obtains (connect) r u t where "m = M_Connect r" "st' = RS_ConnectChallenge t" "cr_build r = 12340"
      "fst (as_initiate_login (se_accounts E) (se_rng E) u s) = Ok t"
  | (reconnect) r u t where "m = M_ReConnect r" "st' = RS_ReconnectChallenge t" "cr_build r = 12340"
      "fst (as_initiate_relogin (se_accounts E) (se_rng E) u s) = Ok t"
  | (proved) p t k where "m = M_Proof p" "st = RS_ConnectChallenge t" "st' = RS_Realmlist"
      "fst (as_complete_login (se_accounts E) t (cp_user_public_key p) (cp_user_proof p) s) = Ok k"
  | (reproved) p t k where "m = M_ReProof p" "st = RS_ReconnectChallenge t" "st' = RS_Realmlist"
      "fst (as_complete_relogin (se_accounts E) t (rp_proof_data p) (rp_client_proof p) s) = Ok k"
  | (realmlist) q where "m = M_RealmList q" "st = RS_Realmlist" "st' = RS_Realmlist"
proof (cases m)
  case (M_Connect r)
  then show ?thesis
    using assms handle_connect_request_Ok [of E r s c st' s' c'] connect
    by (auto simp: connect_step_def split: RequestState.splits)
next
  case (M_ReConnect r)
  then show ?thesis
    using assms handle_reconnect_request_Ok [of E r s c st' s' c'] reconnect
    by (auto simp: connect_step_def split: RequestState.splits)
next
  case (M_Proof p)
  then show ?thesis
    using assms handle_connect_proof_Ok [of E p _ s c st' s' c'] proved
    by (auto simp: connect_step_def split: RequestState.splits)
next
  case (M_ReProof p)
  then show ?thesis
    using assms handle_reconnect_proof_Ok [of E p _ s c st' s' c'] reproved
    by (auto simp: connect_step_def split: RequestState.splits)
next
  case (M_RealmList q)
  then show ?thesis
    using assms handle_realmlist_Ok [of E s c st' s' c'] realmlist
    by (auto simp: connect_step_def split: RequestState.splits)
qed

section \<open>Authentication\<close>

definition only_lists :: "'s history \<Rightarrow> bool" where
  "only_lists h \<longleftrightarrow> (\<forall>(st, m, s) \<in> set h. st = RS_Realmlist \<and> message_command m = RealmList)"

text \<open>
  The history of an authenticated connection: a challenge the account service issued for a name
  it does not hold to be barred, answered at once by the right proof (or a reconnect challenge
  answered by the right digest over its nonce), and after that nothing but realm list requests.
\<close>

definition logged_in ::
  "lib \<Rightarrow> (nat \<Rightarrow> 's server_env) \<Rightarrow> (nat \<Rightarrow> rstr \<Rightarrow> 's \<Rightarrow> bool) \<Rightarrow> 's history \<Rightarrow> bool" where
  "logged_in L E barred h \<longleftrightarrow>
     (\<exists>h1 st r s1 u t p s2 k rest.
        h = h1 @ (st, M_Connect r, s1) # (RS_ConnectChallenge t, M_Proof p, s2) # rest \<and>
        cr_build r = 12340 \<and>
        fst (as_initiate_login (se_accounts (E (length h1))) (se_rng (E (length h1))) u s1) = Ok t \<and>
        \<not> barred (length h1) u s1 \<and>
        (verify_challenge_response L (ct_server t) (cp_user_public_key p) (cp_user_proof p)
           :: (LoginFailure, bytes option) res) = Ok (Some k) \<and>
        only_lists rest)"

definition reconnected :: "lib \<Rightarrow> (nat \<Rightarrow> 's server_env) \<Rightarrow> 's history \<Rightarrow> bool" where
  "reconnected L E h \<longleftrightarrow>
     (\<exists>h1 st r s1 u t p s2 rest.
        h = h1 @ (st, M_ReConnect r, s1) # (RS_ReconnectChallenge t, M_ReProof p, s2) # rest \<and>
        cr_build r = 12340 \<and>
        fst (as_initiate_relogin (se_accounts (E (length h1))) (se_rng (E (length h1))) u s1) = Ok t \<and>
        rp_client_proof p = sha1 L (ac_username (rt_account t) @ rp_proof_data p
          @ se_rng (E (length h1)) @ rt_session_key t) \<and>
        only_lists rest)"

text \<open>The last message handled before a challenge is the request it answers.\<close>

definition challenged ::
  "(nat \<Rightarrow> 's server_env) \<Rightarrow> (nat \<Rightarrow> rstr \<Rightarrow> 's \<Rightarrow> bool) \<Rightarrow> 's history \<Rightarrow> ConnectToken \<Rightarrow> bool" where
  "challenged E barred h t \<longleftrightarrow>
     (\<exists>h1 st r s1 u. h = h1 @ [(st, M_Connect r, s1)] \<and> cr_build r = 12340 \<and>
        fst (as_initiate_login (se_accounts (E (length h1))) (se_rng (E (length h1))) u s1) = Ok t \<and>
        \<not> barred (length h1) u s1)"

definition rechallenged :: "(nat \<Rightarrow> 's server_env) \<Rightarrow> 's history \<Rightarrow> ReconnectToken \<Rightarrow> bool" where
  "rechallenged E h t \<longleftrightarrow>
     (\<exists>h1 st r s1 u. h = h1 @ [(st, M_ReConnect r, s1)] \<and> cr_build r = 12340 \<and>
        fst (as_initiate_relogin (se_accounts (E (length h1))) (se_rng (E (length h1))) u s1) = Ok t \<and>
        rt_reconnect_proof t = se_rng (E (length h1)))"

definition session_inv ::
  "lib \<Rightarrow> (nat \<Rightarrow> 's server_env) \<Rightarrow> (nat \<Rightarrow> rstr \<Rightarrow> 's \<Rightarrow> bool) \<Rightarrow> 's history \<Rightarrow> RequestState \<Rightarrow> bool" where
  "session_inv L E barred h st =
     (case st of
        RS_ConnectChallenge t \<Rightarrow> challenged E barred h t
      | RS_ReconnectChallenge t \<Rightarrow> rechallenged E h t
      | RS_Realmlist \<Rightarrow> logged_in L E barred h \<or> reconnected L E h
      | _ \<Rightarrow> True)"

lemma only_lists_snoc:
  "only_lists h \<Longrightarrow> only_lists (h @ [(RS_Realmlist, M_RealmList q, s)])"
  by (auto simp: only_lists_def)

lemma logged_in_snoc:
  assumes "logged_in L E barred h"
  shows "logged_in L E barred (h @ [(RS_Realmlist, M_RealmList q, s)])"
proof -
  from assms obtain h1 st r s1 u t p s2 k rest where
    "h = h1 @ (st, M_Connect r, s1) # (RS_ConnectChallenge t, M_Proof p, s2) # rest"
    "cr_build r = 12340"
    "fst (as_initiate_login (se_accounts (E (length h1))) (se_rng (E (length h1))) u s1) = Ok t"
    "\<not> barred (length h1) u s1"
    "(verify_challenge_response L (ct_server t) (cp_user_public_key p) (cp_user_proof p)
       :: (LoginFailure, bytes option) res) = Ok (Some k)"
    "only_lists rest"
    unfolding logged_in_def by blast
  then show ?thesis
    unfolding logged_in_def
    by (intro exI [of _ h1] exI [of _ st] exI [of _ r] exI [of _ s1] exI [of _ u] exI [of _ t]
        exI [of _ p] exI [of _ s2] exI [of _ k] exI [of _ "rest @ [(RS_Realmlist, M_RealmList q, s)]"])
      (simp add: only_lists_snoc)
qed

lemma reconnected_snoc:
  assumes "reconnected L E h"
  shows "reconnected L E (h @ [(RS_Realmlist, M_RealmList q, s)])"
proof -
  from assms obtain h1 st r s1 u t p s2 rest where
    "h = h1 @ (st, M_ReConnect r, s1) # (RS_ReconnectChallenge t, M_ReProof p, s2) # rest"
    "cr_build r = 12340"
    "fst (as_initiate_relogin (se_accounts (E (length h1))) (se_rng (E (length h1))) u s1) = Ok t"
    "rp_client_proof p = sha1 L (ac_username (rt_account t) @ rp_proof_data p
       @ se_rng (E (length h1)) @ rt_session_key t)"
    "only_lists rest"
    unfolding reconnected_def by blast
  then show ?thesis
    unfolding reconnected_def
    by (intro exI [of _ h1] exI [of _ st] exI [of _ r] exI [of _ s1] exI [of _ u] exI [of _ t]
        exI [of _ p] exI [of _ s2] exI [of _ "rest @ [(RS_Realmlist, M_RealmList q, s)]"])
      (simp add: only_lists_snoc)
qed

lemma challenged_login:
  assumes "challenged E barred h t"
    and "(verify_challenge_response L (ct_server t) (cp_user_public_key p) (cp_user_proof p)
       :: (LoginFailure, bytes option) res) = Ok (Some k)"
  shows "logged_in L E barred (h @ [(RS_ConnectChallenge t, M_Proof p, s)])"
  using assms unfolding challenged_def logged_in_def by (fastforce simp: only_lists_def)

lemma rechallenged_login:
  assumes "rechallenged E h t"
    and "rp_client_proof p = sha1 L (ac_username (rt_account t) @ rp_proof_data p
          @ rt_reconnect_proof t @ rt_session_key t)"
  shows "reconnected L E (h @ [(RS_ReconnectChallenge t, M_ReProof p, s)])"
  using assms unfolding rechallenged_def reconnected_def by (fastforce simp: only_lists_def)

lemma session_keeps_inv:
  assumes svc: "\<And>i. account_service L (se_accounts (E i)) (barred i)"
    and "session E s0 c0 h (i, st, s, c)"
  shows "session_inv L E barred h st"
  using assms(2)
proof (induction h "(i, st, s, c)" arbitrary: i st s c rule: session.induct)
  case (step h i st s c m i' st' s' c')
  have i: "i = length h" using step.hyps(1) by (rule session_length)
  from step.hyps(3) obtain evs where
    cs: "connect_step (E i) st m s (c\<lparr>tcp_in := evs\<rparr>) = (Ok st', s', c')"
    by (auto elim: connect_transE)
  show ?case
  proof (cases "rejected st'")
    case True
    then show ?thesis by (cases st') (auto simp: session_inv_def)
  next
    case False
    with cs show ?thesis
    proof (cases rule: connect_step_cases)
      case (connect r u t)
      then have "\<not> barred i u s" using account_service.initiate_login_barred [OF svc] by blast
      with connect i show ?thesis by (auto simp: session_inv_def challenged_def)
    next
      case (reconnect r u t)
      then have "rt_reconnect_proof t = se_rng (E i)"
        using account_service.initiate_relogin_nonce [OF svc] by blast
      with reconnect i show ?thesis by (auto simp: session_inv_def rechallenged_def)
    next
      case (proved p t k)
      with step.hyps(2) account_service.login_proof [OF svc proved(4)] show ?thesis
        by (auto simp: session_inv_def intro: challenged_login)
    next
      case (reproved p t k)
      with step.hyps(2) account_service.relogin_proof [OF svc reproved(4)] show ?thesis
        by (auto simp: session_inv_def intro: rechallenged_login)
    next
      case (realmlist q)
      with step.hyps(2) show ?thesis
        by (auto simp: session_inv_def intro: logged_in_snoc reconnected_snoc)
    qed
  qed
qed (simp add: session_inv_def)

section \<open>The steps of a conversation\<close>

lemma reply_clean:
  "tcp_wfaults c = [] \<Longrightarrow> reply bs st s c = (Ok st, s, c\<lparr>tcp_out := tcp_out c @ bs\<rparr>)"
  by (simp add: reply_def)

lemma read_username_seg:
  assumes "length name \<le> 16" and "utf8_valid name"
    and "tcp_in c = seg_push (name @ rest) evs" and "n = of_nat (length name)"
  shows "read_username n c = (Ok (Some name), c\<lparr>tcp_in := seg_push rest evs\<rparr>)"
proof -
  have "unat (of_nat (length name) :: u8) = length name"
    using assms(1) by (simp add: unat_of_nat)
  with assms show ?thesis
    by (simp add: read_username_def read_exact_seg from_utf8_def)
qed

lemma seg_push_Nil [simp]: "seg_push [] evs = evs"
  by (simp add: seg_push_def)

text \<open>The sizes the fields of a challenge have on the wire.\<close>

definition token_wf :: "ConnectToken \<Rightarrow> bool" where
  "token_wf t \<longleftrightarrow> ct_security_flags t = 0 \<and> length (srp_b_pub (ct_server t)) = 32 \<and>
     length (srp_salt (ct_server t)) = 32"

lemma trans_connect:
  assumes "libs (se_lib (E i))" and "\<not> rejected st" and "tcp_wfaults c = []"
    and "tcp_in c = Seg (message_bytes (M_Connect r) @ name) # evs"
    and "ConnectRequest_wf r" and "cr_build r = 12340"
    and "cr_identifier_length r = of_nat (length name)" and "length name \<le> 16" and "utf8_valid name"
    and "as_initiate_login (se_accounts (E i)) (se_rng (E i)) name s = (Ok t, s1)" and "token_wf t"
  shows "connect_trans E (i, st, s, c) (M_Connect r)
    (Suc i, RS_ConnectChallenge t, s1, c\<lparr>tcp_in := evs, tcp_out := tcp_out c @ challenge_bytes t\<rparr>)"
proof (rule connect_trans.handle)
  have b: "bincode_lib (se_lib (E i))" using assms(1) by (simp add: libs_def)
  show "read_packet (se_lib (E i)) (tcp_in c) = (Ok (M_Connect r), seg_push name evs)"
    unfolding assms(4) using read_packet_message [OF b, of "M_Connect r" name evs] assms(5) by simp
  let ?c = "c\<lparr>tcp_in := seg_push name evs\<rparr>"
  have "read_username (cr_identifier_length r) ?c = (Ok (Some name), c\<lparr>tcp_in := evs\<rparr>)"
    using read_username_seg [of name ?c "[]" evs] assms(7,8,9) by simp
  then show "connect_step (E i) st (M_Connect r) s ?c = (Ok (RS_ConnectChallenge t), s1,
      c\<lparr>tcp_in := evs, tcp_out := tcp_out c @ challenge_bytes t\<rparr>)"
    using assms(3,6,10,11)
    by (cases st) (simp_all add: connect_step_def handle_connect_request_def token_wf_def
        send_challenge_eq [OF assms(1)] reply_clean)
qed (rule assms(2))

lemma trans_proof:
  assumes "bincode_lib (se_lib (E i))" and "tcp_wfaults c = []"
    and "tcp_in c = Seg (message_bytes (M_Proof p)) # evs" and "ConnectProof_wf p"
    and "as_complete_login (se_accounts (E i)) t (cp_user_public_key p) (cp_user_proof p) s = (Ok m, s1)"
  shows "connect_trans E (i, RS_ConnectChallenge t, s, c) (M_Proof p)
    (Suc i, RS_Realmlist, s1, c\<lparr>tcp_in := evs, tcp_out := tcp_out c @ proof_bytes m\<rparr>)"
proof (rule connect_trans.handle)
  show "read_packet (se_lib (E i)) (tcp_in c) = (Ok (M_Proof p), evs)"
    unfolding assms(3) using read_packet_message [OF assms(1), of "M_Proof p" "[]" evs] assms(4) by simp
  have "u32_le 0x00800000 = [0, 0, 0x80, 0]" and "u32_le 0 = [0, 0, 0, 0]" and "u16_le 0 = [0, 0]"
    by (simp_all add: u32_le_def u16_le_def le_bytes_short)
  then show "connect_step (E i) (RS_ConnectChallenge t) (M_Proof p) s (c\<lparr>tcp_in := evs\<rparr>) = (Ok RS_Realmlist, s1,
      c\<lparr>tcp_in := evs, tcp_out := tcp_out c @ proof_bytes m\<rparr>)"
    using assms(2,5)
    by (simp add: connect_step_def handle_connect_proof_def Let_def ConnectProofResponse_sval_def
        bincode_lib.ser_wow [OF assms(1)] reply_clean proof_bytes_def)
qed simp

lemma trans_realmlist:
  assumes "bincode_lib (se_lib (E i))" and "tcp_wfaults c = []"
    and "tcp_in c = Seg (message_bytes (M_RealmList q)) # evs" and "RealmListRequest_wf q"
    and "rs_realms (se_realms (E i)) s = (rs, s1)"
    and "realmlist_packet (se_lib (E i)) (se_checks (E i)) (map (\<lambda>r. from_realm r 0 False) rs) = Ok packet"
  shows "connect_trans E (i, RS_Realmlist, s, c) (M_RealmList q)
    (Suc i, RS_Realmlist, s1, c\<lparr>tcp_in := evs, tcp_out := tcp_out c @ packet\<rparr>)"
proof (rule connect_trans.handle)
  show "read_packet (se_lib (E i)) (tcp_in c) = (Ok (M_RealmList q), evs)"
    unfolding assms(3) using read_packet_message [OF assms(1), of "M_RealmList q" "[]" evs] assms(4) by simp
  show "connect_step (E i) RS_Realmlist (M_RealmList q) s (c\<lparr>tcp_in := evs\<rparr>) = (Ok RS_Realmlist, s1,
      c\<lparr>tcp_in := evs, tcp_out := tcp_out c @ packet\<rparr>)"
    using assms(2,5,6) by (simp add: connect_step_def handle_realmlist_def reply_clean)
qed simp

lemma connect_loop_closed:
  "\<not> rejected st \<Longrightarrow> tcp_in c = [] \<Longrightarrow>
    connect_loop E i st s c = (Err (SE_Packet (IoRead UnexpectedEof)), s, c)"
  by (subst connect_loop.simps) (simp add: read_packet_def)

text \<open>The loop follows its session.\<close>

lemma session_loop:
  assumes "session E s0 c0 h (i, st, s, c)"
  shows "connect_loop E 0 RS_Start s0 c0 =
    (if rejected st then finish E (i, st, s, c) else connect_loop E i st s c)"
  using assms
proof (induction h "(i, st, s, c)" arbitrary: i st s c rule: session.induct)
  case (step h i st s c m i' st' s' c')
  have "\<not> rejected st" using step.hyps(3) by (auto elim: connect_transE)
  with step.hyps(2) have "connect_loop E 0 RS_Start s0 c0 = connect_loop E i st s c" by simp
  with step.hyps(3) show ?case
    using connect_loop_reject [OF step.hyps(3)] connect_loop_step [OF step.hyps(3)] by simp
qed simp

section \<open>The server on its database\<close>

text \<open>
  The server of the source (\<open>main\<close> gives it the MySQL services): the database environment and
  the random bytes of every step are free.
\<close>

definition mysql_server ::
  "lib \<Rightarrow> bool \<Rightarrow> (nat \<Rightarrow> db_env) \<Rightarrow> (nat \<Rightarrow> bytes) \<Rightarrow> nat \<Rightarrow> mysql_state server_env" where
  "mysql_server L chk Ev rng i =
     \<lparr>se_lib = L, se_checks = chk, se_accounts = shared_accounts (mysql_accounts L (Ev i)),
      se_realms = mysql_realms (Ev i), se_rng = rng i\<rparr>"

lemma mysql_server_sel [simp]:
  "se_lib (mysql_server L chk Ev rng i) = L"
  "se_checks (mysql_server L chk Ev rng i) = chk"
  "se_rng (mysql_server L chk Ev rng i) = rng i"
  by (simp_all add: mysql_server_def)

lemma mysql_server_accounts:
  "as_initiate_login (se_accounts (mysql_server L chk Ev rng i)) r u s = (initiate_login L (Ev i) r u (my_db s), s)"
  "as_complete_login (se_accounts (mysql_server L chk Ev rng i)) t pk pr s =
     on_db (complete_login L (Ev i) t pk pr (my_db s)) s"
  "as_initiate_relogin (se_accounts (mysql_server L chk Ev rng i)) r u s = (initiate_relogin (Ev i) r u (my_db s), s)"
  "as_complete_relogin (se_accounts (mysql_server L chk Ev rng i)) t' pk pr s = (complete_relogin L t' pk pr, s)"
  "rs_realms (se_realms (mysql_server L chk Ev rng i)) s = realms (Ev i) s"
  by (simp_all add: mysql_server_def shared_accounts_def mysql_accounts_def mysql_realms_def on_db_def)

lemma initiate_login_token_wf:
  assumes "initiate_login L E rng u db = Ok t"
  shows "token_wf t"
  using assms
  by (auto simp: initiate_login_Ok get_by_username_Some ConnectToken_new_def srp_new_def new_with_b_def
      calculate_b_pub_def Let_def res_simps token_wf_def dest: row_account_Ok)

text \<open>The last request of a conversation: the realm list, and the client closes.\<close>

lemma connect_loop_realmlist:
  assumes "bincode_lib L" and "realms (Ev i) s = (rs, s2)" and "es = map (\<lambda>r. from_realm r 0 False) rs"
    and "list_all (str_ok \<circ> RealmEntry_sval) es" and "length (entries_bytes es) + 16 < 2 ^ 16"
    and "RealmListRequest_wf q" and "tcp_wfaults c = []" and "tcp_in c = [Seg (message_bytes (M_RealmList q))]"
  shows "connect_loop (mysql_server L chk Ev rng) i RS_Realmlist s c =
    (Err (SE_Packet (IoRead UnexpectedEof)), s2, c\<lparr>tcp_in := [], tcp_out := tcp_out c @ realmlist_bytes es\<rparr>)"
proof -
  let ?E = "mysql_server L chk Ev rng" and ?c = "c\<lparr>tcp_in := [], tcp_out := tcp_out c @ realmlist_bytes es\<rparr>"
  have "realmlist_packet L chk es = Ok (realmlist_bytes es)"
    using assms(5) by (simp add: realmlist_packet_eq [OF assms(1,4)])
  with assms have "connect_trans ?E (i, RS_Realmlist, s, c) (M_RealmList q) (Suc i, RS_Realmlist, s2, ?c)"
    by (intro trans_realmlist) (simp_all add: mysql_server_accounts)
  from connect_loop_step [OF this] show ?thesis by (simp add: connect_loop_closed)
qed

section \<open>A sample client\<close>

definition demo_request :: ConnectRequest where
  "demo_request = \<lparr>cr_error = 8, cr_size = 32, cr_game_name = [87, 111, 87, 0], cr_version_major = 3,
     cr_version_minor = 3, cr_version_patch = 5, cr_build = 12340, cr_platform = [54, 56, 120, 0],
     cr_os = [110, 105, 87, 0], cr_country = [83, 85, 110, 101], cr_timezone_bias = 0,
     cr_ipv4 = [127, 0, 0, 1], cr_identifier_length = 2\<rparr>"

definition demo_proof :: ConnectProof where
  "demo_proof = \<lparr>cp_user_public_key = client_a_pub fixed_digest_lib 0, cp_user_proof = 90 # replicate 19 0,
     cp_crc_hash = replicate 20 0, cp_number_of_keys = 0, cp_security_flags = 0\<rparr>"

definition demo_client :: tcp where
  "demo_client = \<lparr>tcp_in = [Seg (message_bytes (M_Connect demo_request) @ ascii ''AR''),
     Seg (message_bytes (M_Proof demo_proof)), Seg (message_bytes (M_RealmList \<lparr>rq_data = [0, 0, 0, 0]\<rparr>))],
     tcp_out = [], tcp_wfaults = []\<rparr>"

definition demo_server :: "nat \<Rightarrow> mysql_state server_env" where
  "demo_server = mysql_server fixed_digest_lib True (\<lambda>_. demo_env) (\<lambda>_. replicate 31 0 @ [1])"

definition demo_start :: mysql_state where
  "demo_start = \<lparr>my_db = demo_db\<lparr>db_account := [demo_row]\<rparr>, my_next_update = 0,
     my_update_interval = 10000000000, my_realms = []\<rparr>"

lemma demo_wf: "ConnectRequest_wf demo_request" "ConnectProof_wf demo_proof"
  "length (ascii ''AR'') = 2" "utf8_valid (ascii ''AR'')"
  by (simp_all add: ConnectRequest_wf_def demo_request_def ConnectProof_wf_def demo_proof_def
      client_a_pub_def ascii_def)

lemma demo_initiate:
  "initiate_login fixed_digest_lib demo_env (replicate 31 0 @ [1]) (ascii ''AR'') (my_db demo_start)
     = Ok \<lparr>ct_server = fixed_digest_server, ct_security_flags = 0\<rparr>"
  using demo_login [of "[]"] by (simp add: demo_start_def demo_db_def)

lemma demo_session:
  "\<exists>h n s c. session demo_server demo_start demo_client h (n, RS_Realmlist, s, c)"
proof -
  let ?t = "\<lparr>ct_server = fixed_digest_server, ct_security_flags = 0\<rparr>"
  obtain m k where acc: "connect_accept fixed_digest_lib ?t (cp_user_public_key demo_proof)
      (cp_user_proof demo_proof) = Ok (m, k)"
    using fixed_digest_accepts by (auto simp: demo_proof_def)
  have b: "bincode_lib fixed_digest_lib" by (rule fixed_digest.bincode_lib_axioms)
  have t: "token_wf ?t" using initiate_login_token_wf [OF demo_initiate] .
  let ?c = "demo_client\<lparr>tcp_in := tl (tcp_in demo_client), tcp_out := tcp_out demo_client @ challenge_bytes ?t\<rparr>"
  have "connect_trans demo_server (0, RS_Start, demo_start, demo_client) (M_Connect demo_request)
      (Suc 0, RS_ConnectChallenge ?t, demo_start, ?c)"
    by (rule trans_connect [where name = "ascii ''AR''"])
      (use t demo_wf demo_initiate fixed_digest.libs_axioms in
        \<open>simp_all add: demo_server_def demo_client_def mysql_server_accounts, simp_all add: demo_request_def\<close>)
  from session.step [OF session.start this]
  have s1: "session demo_server demo_start demo_client [(RS_Start, M_Connect demo_request, demo_start)]
      (Suc 0, RS_ConnectChallenge ?t, demo_start, ?c)" by simp
  let ?s = "demo_start\<lparr>my_db := update_session demo_env session_username k (my_db demo_start)\<rparr>"
  have "complete_login fixed_digest_lib demo_env ?t (cp_user_public_key demo_proof)
      (cp_user_proof demo_proof) (my_db demo_start) = (Ok m, my_db ?s)"
    using acc by (simp add: complete_login_def demo_env_def)
  then have "connect_trans demo_server (Suc 0, RS_ConnectChallenge ?t, demo_start, ?c) (M_Proof demo_proof)
      (Suc (Suc 0), RS_Realmlist, ?s, ?c\<lparr>tcp_in := tl (tcp_in ?c), tcp_out := tcp_out ?c @ proof_bytes m\<rparr>)"
    by (intro trans_proof)
      (use b demo_wf in \<open>simp_all add: demo_server_def demo_client_def mysql_server_accounts on_db_def\<close>)
  from session.step [OF s1 this] show ?thesis by blast
qed

section \<open>Properties\<close>

text \<open>
  C2. A connection in the realm list state has authenticated: its history is a login (a challenge
  issued in this connection for a name that was not barred then, answered by the SRP6 proof; a name is
  barred when its account has ban rows and all of them are in force)
  or a reconnect (a challenge whose nonce was drawn in this connection, answered by the digest
  over it and the session key), followed by realm list requests only.
\<close>

theorem realmlist_needs_proof:
  assumes "session (mysql_server L chk Ev rng) s0 c0 h (n, RS_Realmlist, s, c)"
  shows "logged_in L (mysql_server L chk Ev rng) (\<lambda>i u s. name_barred (Ev i) u (my_db s)) h \<or>
    reconnected L (mysql_server L chk Ev rng) h"
proof -
  have "account_service L (se_accounts (mysql_server L chk Ev rng i)) (\<lambda>u s. name_barred (Ev i) u (my_db s))" for i
    unfolding mysql_server_def by (simp add: shared.account_service_axioms)
  from session_keeps_inv [OF this assms] show ?thesis by (simp add: session_inv_def)
qed

theorem realmlist_needs_proof_witness:
  "\<exists>h. logged_in fixed_digest_lib demo_server (\<lambda>i u s. name_barred demo_env u (my_db s)) h \<or>
    reconnected fixed_digest_lib demo_server h"
proof -
  obtain h n s c where "session demo_server demo_start demo_client h (n, RS_Realmlist, s, c)"
    using demo_session by blast
  then show ?thesis
    using realmlist_needs_proof [of fixed_digest_lib True "\<lambda>_. demo_env" "\<lambda>_. replicate 31 0 @ [1]"]
    unfolding demo_server_def by blast
qed

text \<open>
  C24. A whole conversation: a client that sends a connect request with its name, the proof for the
  challenge and a realm list request gets, in this order, the 119-byte challenge, the proof
  response and the realm list the database holds, and the session key is stored on the way. The
  loop ends when the client closes the connection.
\<close>

theorem login_conversation:
  assumes "libs L"
    and "initiate_login L (Ev 0) (rng 0) name (my_db s) = Ok t"
    and "connect_accept L t (cp_user_public_key p) (cp_user_proof p) = Ok (m, k)"
    and "ev_fault (Ev 1) Q_update_session = None"
    and "realms (Ev 2) (s\<lparr>my_db := update_session (Ev 1) session_username k (my_db s)\<rparr>) = (rs, s2)"
    and "es = map (\<lambda>r. from_realm r 0 False) rs"
    and "list_all (str_ok \<circ> RealmEntry_sval) es" and "length (entries_bytes es) + 16 < 2 ^ 16"
    and "ConnectRequest_wf r" and "cr_build r = 12340" and "cr_identifier_length r = of_nat (length name)"
    and "length name \<le> 16" and "utf8_valid name" and "ConnectProof_wf p" and "RealmListRequest_wf q"
    and "tcp_wfaults c = []"
    and "tcp_in c = [Seg (message_bytes (M_Connect r) @ name), Seg (message_bytes (M_Proof p)),
           Seg (message_bytes (M_RealmList q))]"
  shows "connect_loop (mysql_server L chk Ev rng) 0 RS_Start s c =
    (Err (SE_Packet (IoRead UnexpectedEof)), s2,
     c\<lparr>tcp_in := [], tcp_out := tcp_out c @ challenge_bytes t @ proof_bytes m @ realmlist_bytes es\<rparr>)"
proof -
  let ?E = "mysql_server L chk Ev rng"
  have b: "bincode_lib L" using assms(1) by (simp add: libs_def)
  let ?c1 = "c\<lparr>tcp_in := tl (tcp_in c), tcp_out := tcp_out c @ challenge_bytes t\<rparr>"
  have t1: "connect_trans ?E (0, RS_Start, s, c) (M_Connect r) (Suc 0, RS_ConnectChallenge t, s, ?c1)"
    using assms initiate_login_token_wf [OF assms(2)]
    by (intro trans_connect [where name = name]) (simp_all add: mysql_server_accounts)
  let ?s1 = "s\<lparr>my_db := update_session (Ev 1) session_username k (my_db s)\<rparr>"
  let ?c2 = "?c1\<lparr>tcp_in := tl (tcp_in ?c1), tcp_out := tcp_out ?c1 @ proof_bytes m\<rparr>"
  have t2: "connect_trans ?E (Suc 0, RS_ConnectChallenge t, s, ?c1) (M_Proof p)
      (Suc (Suc 0), RS_Realmlist, ?s1, ?c2)"
    using assms b by (intro trans_proof) (simp_all add: mysql_server_accounts on_db_def complete_login_def)
  have "connect_loop ?E 0 RS_Start s c = connect_loop ?E 2 RS_Realmlist ?s1 ?c2"
    using connect_loop_step [OF t1] connect_loop_step [OF t2] by (simp add: numeral_2_eq_2)
  also have "\<dots> = (Err (SE_Packet (IoRead UnexpectedEof)), s2,
      ?c2\<lparr>tcp_in := [], tcp_out := tcp_out ?c2 @ realmlist_bytes es\<rparr>)"
    using assms(15-17) by (intro connect_loop_realmlist [where Ev = Ev and i = 2, OF b assms(5-8)]) simp_all
  finally show ?thesis by simp
qed

theorem login_conversation_witness:
  "\<exists>s2 out. connect_loop demo_server 0 RS_Start demo_start demo_client =
     (Err (SE_Packet (IoRead UnexpectedEof)), s2, demo_client\<lparr>tcp_in := [], tcp_out := out\<rparr>)"
proof -
  let ?t = "\<lparr>ct_server = fixed_digest_server, ct_security_flags = 0\<rparr>"
  obtain m k where acc: "connect_accept fixed_digest_lib ?t (cp_user_public_key demo_proof)
      (cp_user_proof demo_proof) = Ok (m, k)"
    using fixed_digest_accepts by (auto simp: demo_proof_def)
  let ?s = "demo_start\<lparr>my_db := update_session demo_env session_username k (my_db demo_start)\<rparr>"
  obtain rs s2 where rs: "realms demo_env ?s = (rs, s2)" by fastforce
  then have rs1: "rs = [\<lparr>rl_id = 1, rl_name = ascii ''R'', rl_realm_type = RT_PVP, rl_build = 12340,
      rl_external_address = ascii ''a'', rl_local_address = [], rl_local_subnet_mask = [], rl_port = 80,
      rl_flags = 0, rl_timezone = 1, rl_population = 0\<rparr>]"
    by (simp add: realms_def select_realms_def update_session_def demo_start_def demo_env_def demo_db_def
        demo_realm_def row_realm_def RealmType_decode_def Let_def)
  let ?es = "map (\<lambda>r. from_realm r 0 False) rs"
  have es: "list_all (str_ok \<circ> RealmEntry_sval) ?es" "length (entries_bytes ?es) + 16 < 2 ^ 16"
    by (simp_all add: rs1 from_realm_def RealmEntry_sval_def ascii_def dec_str.simps entries_bytes_def)
  have "connect_loop (mysql_server fixed_digest_lib True (\<lambda>_. demo_env) (\<lambda>_. replicate 31 0 @ [1])) 0 RS_Start
      demo_start demo_client = (Err (SE_Packet (IoRead UnexpectedEof)), s2,
      demo_client\<lparr>tcp_in := [], tcp_out := tcp_out demo_client @ challenge_bytes ?t @ proof_bytes m @ realmlist_bytes ?es\<rparr>)"
    by (rule login_conversation [OF fixed_digest.libs_axioms demo_initiate acc _ rs refl es demo_wf(1) _ _ _
          demo_wf(4,2), where q = "\<lparr>rq_data = [0, 0, 0, 0]\<rparr>"])
      (simp_all add: demo_env_def demo_request_def demo_wf(3) RealmListRequest_wf_def demo_client_def)
  then show ?thesis unfolding demo_server_def by blast
qed



text \<open>
  A connect or reconnect request that announces a name of more than 16 bytes panics, whatever
  the state of the connection, and the task that serves the connections ends with it: no
  connection behind it is served.
\<close>

lemma long_name_panics:
  assumes "bincode_lib (se_lib (E 0))"
    and "tcp_in c = Seg (message_bytes m @ rest) # evs" and "m = M_Connect r \<or> m = M_ReConnect r"
    and "ConnectRequest_wf r" and "cr_build r = 12340" and "16 < unat (cr_identifier_length r)"
  shows "fst (connect_loop E 0 st s c) = Panic \<and>
    authentication (Accepted E c # cs) s = (Panic, s, [c\<lparr>tcp_in := seg_push rest evs\<rparr>])"
proof -
  have "read_packet (se_lib (E 0)) (tcp_in c) = (Ok m, seg_push rest evs)"
    unfolding assms(2) using read_packet_message [OF assms(1), of m rest evs] assms(3,4) by auto
  moreover have "connect_step (E 0) st m s (c\<lparr>tcp_in := seg_push rest evs\<rparr>) =
      (Panic, s, c\<lparr>tcp_in := seg_push rest evs\<rparr>)" for st
    using assms(3,5,6) by (cases st) (auto simp: connect_step_def handle_connect_request_def
        handle_reconnect_request_def read_username_def)
  ultimately have "connect_loop E 0 st s c = (Panic, s, c\<lparr>tcp_in := seg_push rest evs\<rparr>)" for st
    by (subst connect_loop.simps) simp
  then show ?thesis by simp
qed

lemma long_name_panics_witness:
  "fst (authentication [Accepted demo_server (demo_client\<lparr>tcp_in :=
      [Seg (message_bytes (M_Connect (demo_request\<lparr>cr_identifier_length := 17\<rparr>)))]\<rparr>),
    Accepted demo_server demo_client] demo_start) = Panic"
proof -
  let ?r = "demo_request\<lparr>cr_identifier_length := 17\<rparr>"
  let ?c = "demo_client\<lparr>tcp_in := [Seg (message_bytes (M_Connect ?r))]\<rparr>"
  have "ConnectRequest_wf ?r" using demo_wf(1) by (simp add: ConnectRequest_wf_def)
  then show ?thesis
    using long_name_panics [of demo_server ?c "M_Connect ?r" "[]" "[]" ?r RS_Start demo_start]
      fixed_digest.bincode_lib_axioms
    by (simp add: demo_server_def demo_request_def)
qed

text \<open>
  C19. The loop of a connection ends on every input, and it is a maximal run of the session
  relation: it handles the messages one after the other from the start state until none can be
  handled, and its result is the end of the connection there.
\<close>

theorem connect_loop_refines_session:
  "\<exists>h q. session E s c h q \<and> connect_loop E 0 RS_Start s c = finish E q \<and>
    (\<nexists>m q'. connect_trans E q m q')"
  by (rule connect_loop_session [OF session.start]) simp

text \<open>
  C31. The realm list packet. Its size field counts the bytes behind it as long as the list is
  shorter than \<open>2 ^ 16 - 8\<close> bytes. A longer list is announced with the size modulo \<open>2 ^ 16\<close>; a
  build with overflow checks panics instead, and already from \<open>2 ^ 16 - 16\<close> on.
\<close>

theorem realmlist_size_field:
  assumes "bincode_lib L" and "list_all (str_ok \<circ> RealmEntry_sval) es"
    and "length (entries_bytes es) < 2 ^ 64"
  shows "realmlist_packet L chk es =
      (if chk \<and> 2 ^ 16 \<le> length (entries_bytes es) mod 2 ^ 16 + 16 then Panic
       else Ok (realmlist_bytes es)) \<and>
    le_val (take 2 (drop 1 (realmlist_bytes es))) = length (drop 3 (realmlist_bytes es)) mod 2 ^ 16 \<and>
    drop 9 (realmlist_bytes es) = entries_bytes es @ [0x10, 0]"
proof -
  let ?b = "realmlist_bytes es" and ?n = "of_nat (length (entries_bytes es) + 8) :: u16"
  have b: "?b = 0x10 # u16_le ?n @ ([0, 0, 0, 0] @ u16_le (of_nat (length es))) @ (entries_bytes es @ [0x10, 0])"
    by (simp add: realmlist_bytes_def)
  have "take 2 (drop 1 ?b) = u16_le ?n" unfolding b by simp
  moreover have "drop 3 ?b = ([0, 0, 0, 0] @ u16_le (of_nat (length es))) @ (entries_bytes es @ [0x10, 0])"
    unfolding b by simp
  moreover have "drop 9 ?b = entries_bytes es @ [0x10, 0]" unfolding b by simp
  moreover have "length (entries_bytes es) + 8 = 6 + (length (entries_bytes es) + 2)" by simp
  ultimately show ?thesis
    by (simp add: realmlist_packet_eq [OF assms] unat_u16 del: of_nat_add)
qed

theorem realmlist_size_field_witness:
  "realmlist_packet ref_lib True [\<lparr>re_realm_type = 1, re_locked = False, re_flags = 0, re_name = ascii ''R'',
     re_socket = ascii ''a:80'', re_population = 0, re_character_count = 0, re_timezone = 8, re_realm_id = 2\<rparr>]
   = Ok ([0x10, 25, 0, 0, 0, 0, 0, 1, 0, 1, 0, 0, 82, 0, 97, 58, 56, 48, 0, 0, 0, 0, 0, 0, 8, 2, 0x10, 0])"
  using realmlist_size_field [OF ref_libs.bincode_lib_axioms, of "[\<lparr>re_realm_type = 1, re_locked = False,
     re_flags = 0, re_name = ascii ''R'', re_socket = ascii ''a:80'', re_population = 0, re_character_count = 0,
     re_timezone = 8, re_realm_id = 2\<rparr>]" True]
  by (simp add: RealmEntry_sval_def ascii_def entries_bytes_def realmlist_bytes_def u16_le_def u32_le_def
      le_bytes_short)

end
