(* ===== verification/Auth_Heartbeat.thy ===== *)
theory Auth_Heartbeat
  imports Auth_Session "HOL-Library.AList" "HOL-Library.Multiset"
begin

text \<open>
  The heartbeats of the world servers (services/auth/src/authserver.rs): datagrams received into
  one 6-byte buffer that is kept from one datagram to the next, and the updater that turns the
  times of the last heartbeats into realm flags. The map of heartbeats is a list of pairs with
  distinct keys; the order of the list is the iteration order of the \<open>HashMap\<close>, which nothing
  depends on. Instants are nanoseconds of the monotonic clock.
\<close>

section \<open>Receiving\<close>

datatype udp_event = Datagram bytes | RecvError

type_synonym heartbeats = "(u8 \<times> int) list"

definition hb_insert :: "u8 \<Rightarrow> int \<Rightarrow> heartbeats \<Rightarrow> heartbeats" where
  "hb_insert realm now hb = AList.update realm now hb"

text \<open>\<open>recv\<close> fills the front of the buffer; a longer datagram is cut off.\<close>

definition udp_recv :: "bytes \<Rightarrow> bytes \<Rightarrow> bytes" where
  "udp_recv datagram buffer =
     take (length buffer) datagram @ drop (min (length buffer) (length datagram)) buffer"

definition heartbeat_ty :: sty where
  "heartbeat_ty = TTup [TU8, TU8, TU32]"

text \<open>One turn of the loop of \<open>world_server_heartbeat\<close>.\<close>

definition heartbeat_step ::
  "lib \<Rightarrow> int \<Rightarrow> udp_event \<Rightarrow> bytes \<times> heartbeats \<Rightarrow> bytes \<times> heartbeats" where
  "heartbeat_step L now ev st =
     (case st of (buffer, hb) \<Rightarrow>
        case ev of
          RecvError \<Rightarrow> (buffer, hb)
        | Datagram d \<Rightarrow>
            let buffer' = udp_recv d buffer in
            (case de_wow L heartbeat_ty buffer' of
               Some (STup [SU8 t, SU8 realm_id, SU32 realm_pop]) \<Rightarrow>
                 (buffer', if t = 0 then hb_insert realm_id now hb else hb)
             | _ \<Rightarrow> (buffer', hb)))"

section \<open>Updating\<close>

definition expired :: "int \<Rightarrow> int \<Rightarrow> bool" where
  "expired now v \<longleftrightarrow> max 0 (now - v) div 1000000000 > 15"

text \<open>
  One tick of \<open>realmlist_updater\<close>: the expired entries are drained and reported offline, the
  others are reported recommended; an error of the realm list is logged only.
\<close>

definition updater_data :: "int \<Rightarrow> heartbeats \<Rightarrow> (u8 \<times> RealmFlags) list \<times> heartbeats" where
  "updater_data now hb =
     (let drained = filter (\<lambda>(k, v). expired now v) hb;
          kept = filter (\<lambda>(k, v). \<not> expired now v) hb
      in (map (\<lambda>(k, v). (k, RF_Offline)) drained @ map (\<lambda>(k, v). (k, RF_Recommended)) kept, kept))"

definition updater_tick ::
  "'s realm_ops \<Rightarrow> int \<Rightarrow> heartbeats \<times> 's \<Rightarrow> heartbeats \<times> 's" where
  "updater_tick rs now st =
     (case st of (hb, s) \<Rightarrow>
        case updater_data now hb of (data, kept) \<Rightarrow> (kept, snd (rs_update_status rs data s)))"

text \<open>
  The two tasks share the map: a run is a sequence of received datagrams and ticks in the order
  in which they take the lock.
\<close>

datatype 's hb_event = HB_recv int udp_event | HB_tick "'s realm_ops" int

record 's hb_state =
  hs_buffer :: bytes
  hs_heartbeat :: heartbeats
  hs_service :: 's

fun hb_step :: "lib \<Rightarrow> 's hb_event \<Rightarrow> 's hb_state \<Rightarrow> 's hb_state" where
  "hb_step L (HB_recv now ev) st =
     (case heartbeat_step L now ev (hs_buffer st, hs_heartbeat st) of
        (buffer, hb) \<Rightarrow> st\<lparr>hs_buffer := buffer, hs_heartbeat := hb\<rparr>)"
| "hb_step L (HB_tick rs now) st =
     (case updater_tick rs now (hs_heartbeat st, hs_service st) of
        (hb, s) \<Rightarrow> st\<lparr>hs_heartbeat := hb, hs_service := s\<rparr>)"

definition hb_run :: "lib \<Rightarrow> 's hb_event list \<Rightarrow> 's hb_state \<Rightarrow> 's hb_state" where
  "hb_run L evs st = fold (hb_step L) evs st"

definition hb_new :: "'s \<Rightarrow> 's hb_state" where
  "hb_new s = \<lparr>hs_buffer = replicate 6 0, hs_heartbeat = [], hs_service = s\<rparr>"

section \<open>Lemmas\<close>

lemma length_udp_recv [simp]: "length (udp_recv d buffer) = length buffer"
  by (simp add: udp_recv_def)

lemma hb_insert_lookup: "map_of (hb_insert r now hb) k = (if k = r then Some now else map_of hb k)"
  by (simp add: hb_insert_def update_conv')

lemma hb_insert_distinct: "distinct (map fst hb) \<Longrightarrow> distinct (map fst (hb_insert r now hb))"
  by (simp add: hb_insert_def distinct_update)

text \<open>A buffer of six bytes always decodes.\<close>

lemma heartbeat_decode:
  assumes "bincode_lib L" and "length buffer = 6"
  shows "de_wow L heartbeat_ty buffer =
    Some (STup [SU8 (buffer ! 0), SU8 (buffer ! 1), SU32 (of_nat (le_val (drop 2 buffer)))])"
proof -
  obtain a b p where buffer: "buffer = a # b # p" "length p = 4"
    using assms(2) by (auto simp: length_Suc_conv numeral_eq_Suc)
  show ?thesis
    by (simp add: bincode_lib.de_wow [OF assms(1)] heartbeat_ty_def buffer u32_le_of_le_val)
qed

lemma heartbeat_step_eq:
  assumes "bincode_lib L" and "length buffer = 6"
  shows "heartbeat_step L now (Datagram d) (buffer, hb) =
    (udp_recv d buffer,
     if udp_recv d buffer ! 0 = 0 then hb_insert (udp_recv d buffer ! 1) now hb else hb)"
  using assms by (simp add: heartbeat_step_def heartbeat_decode Let_def)

lemma updater_data_keys:
  assumes "updater_data now hb = (data, kept)"
  shows "kept = filter (\<lambda>(k, v). \<not> expired now v) hb"
    and "data = map (\<lambda>(k, v). (k, RF_Offline)) (filter (\<lambda>(k, v). expired now v) hb)
      @ map (\<lambda>(k, v). (k, RF_Recommended)) kept"
  using assms by (auto simp: updater_data_def Let_def)

lemma map_of_filter_distinct:
  "distinct (map fst hb) \<Longrightarrow> map_of (filter (\<lambda>(k, v). P v) hb) k =
     (case map_of hb k of Some v \<Rightarrow> if P v then Some v else None | None \<Rightarrow> None)"
proof (induction hb)
  case (Cons x hb)
  obtain j v where x: "x = (j, v)" by fastforce
  have "map_of hb j = None" using Cons.prems x by (auto simp: map_of_eq_None_iff)
  with Cons x show ?case by auto
qed simp

lemma hb_step_inv:
  assumes "length (hs_buffer st) = 6" and "distinct (map fst (hs_heartbeat st))"
  shows "length (hs_buffer (hb_step L ev st)) = 6 \<and> distinct (map fst (hs_heartbeat (hb_step L ev st)))"
proof (cases ev)
  case (HB_recv now u)
  with assms show ?thesis
    by (auto simp: heartbeat_step_def Let_def hb_insert_distinct
        split: udp_event.splits option.splits sval.splits list.splits)
next
  case (HB_tick rs now)
  with assms show ?thesis
    by (simp add: updater_tick_def updater_data_def Let_def distinct_map_filter split: prod.splits)
qed

lemma hb_run_inv:
  assumes "length (hs_buffer st) = 6" and "distinct (map fst (hs_heartbeat st))"
  shows "length (hs_buffer (hb_run L evs st)) = 6 \<and> distinct (map fst (hs_heartbeat (hb_run L evs st)))"
  using assms
proof (induction evs arbitrary: st)
  case (Cons ev evs)
  from hb_step_inv [OF Cons.prems] Cons.IH [of "hb_step L ev st"] show ?case by (simp add: hb_run_def)
qed (simp add: hb_run_def)

lemma hb_run_new:
  "length (hs_buffer (hb_run L evs (hb_new s))) = 6"
  "distinct (map fst (hs_heartbeat (hb_run L evs (hb_new s))))"
  using hb_run_inv [of "hb_new s" L evs] by (simp_all add: hb_new_def)

lemma hb_run_snoc: "hb_run L (evs @ [ev]) st = hb_step L ev (hb_run L evs st)"
  by (simp add: hb_run_def)

lemma expired_iff: "expired now v \<longleftrightarrow> 16000000000 \<le> now - v"
  unfolding expired_def by linarith

lemma u32_of_u8: "j = (ucast (k :: u8) :: u32) \<longleftrightarrow> j < 256 \<and> k = ucast j"
proof
  assume "j = ucast k"
  moreover have "(ucast (ucast k :: u32) :: u8) = k" by (rule bit_word_eqI) (auto simp: bit_simps)
  moreover have "(ucast k :: u32) < 256"
    by (simp add: word_less_nat_alt unsigned_ucast_eq take_bit_eq_mod
        le_less_trans [OF mod_less_eq_dividend unat_u8_lt])
  ultimately show "j < 256 \<and> k = ucast j" by simp
next
  assume "j < 256 \<and> k = ucast j"
  then show "j = ucast k"
    by (simp add: word_less_nat_alt word_unat_eq_iff unsigned_ucast_eq take_bit_eq_mod)
qed

text \<open>The flags an update stores for the entries of the map.\<close>

lemma map_of_status:
  assumes "distinct (map fst hb)" and "updater_data now hb = (data, kept)"
  shows "map_of (rev (map (\<lambda>(i, f). (ucast i :: u32, RealmFlags_u8 f)) data)) j =
    (if j < 256 then map_option (\<lambda>v. if expired now v then 2 else 32) (map_of hb (ucast j)) else None)"
proof -
  let ?enc = "\<lambda>(i, f). (ucast i :: u32, RealmFlags_u8 f)"
  let ?P = "\<lambda>(k :: u8, v). expired now v" and ?xs = "map ?enc data"
  have data: "(j, f) \<in> set ?xs \<longleftrightarrow>
      (\<exists>k v. (k, v) \<in> set hb \<and> j = ucast k \<and> f = (if expired now v then 2 else 32))" for f
    unfolding updater_data_keys [OF assms(2)] by (auto simp: image_iff Bex_def)
  have "map fst data = map fst (filter ?P hb @ filter (\<lambda>x. \<not> ?P x) hb)"
    using updater_data_keys [OF assms(2)] by (simp add: case_prod_unfold comp_def)
  moreover have "mset (map fst (filter ?P hb @ filter (\<lambda>x. \<not> ?P x) hb)) = mset (map fst hb)"
    by (simp flip: image_mset_union add: mset_filter multiset_partition [symmetric])
  ultimately have "distinct (map fst data)"
    using assms(1) by (metis mset_eq_imp_distinct_iff)
  moreover have "map fst ?xs = map (ucast :: u8 \<Rightarrow> u32) (map fst data)"
    by (simp add: case_prod_unfold comp_def)
  moreover have "inj (ucast :: u8 \<Rightarrow> u32)"
    by (rule injI) (metis u32_of_u8)
  ultimately have "distinct (map fst ?xs)"
    by (metis distinct_map inj_on_subset subset_UNIV)
  then have "distinct (map fst (rev ?xs))" by (simp only: rev_map [symmetric] distinct_rev)
  from map_of_eq_Some_iff [OF this] have "map_of (rev ?xs) j = Some f \<longleftrightarrow> (j, f) \<in> set ?xs" for f
    by (simp only: set_rev)
  also have "(j, f) \<in> set ?xs \<longleftrightarrow> (if j < 256 then map_option (\<lambda>v. if expired now v then 2 else 32)
      (map_of hb (ucast j)) else None) = Some f" for f
    unfolding data using assms(1) by (auto simp: u32_of_u8)
  finally show ?thesis by (metis not_None_eq)
qed

text \<open>What a datagram and a tick do after any run of the two tasks.\<close>

lemma heartbeat_lookup:
  assumes "bincode_lib L" and "length d = 6"
    and "st = hb_run L evs (hb_new s)"
  shows "map_of (hs_heartbeat (hb_step L (HB_recv now (Datagram d)) st)) r =
      (if d ! 0 = 0 \<and> r = d ! 1 then Some now else map_of (hs_heartbeat st) r) \<and>
    hb_step L (HB_recv now RecvError) st = st"
proof -
  have b: "length (hs_buffer st) = 6" unfolding assms(3) by (rule hb_run_new)
  with assms(2) have "udp_recv d (hs_buffer st) = d" by (simp add: udp_recv_def)
  with b show ?thesis
    by (simp add: heartbeat_step_eq [OF assms(1)] hb_insert_lookup) (simp add: heartbeat_step_def)
qed

lemma updater_tick_lookup:
  assumes "\<And>n. ev_fault E (Q_update_status n) = None"
    and "hb = hs_heartbeat (hb_run L evs (hb_new s0))"
    and "updater_tick (mysql_realms E) now (hb, s) = (hb', s')"
  shows "realm_flag (my_db s') j =
      (case if j < 256 then map_of hb (ucast j) else None of
         Some v \<Rightarrow> Some (if now - v \<ge> 16000000000 then 2 else 32)
       | None \<Rightarrow> realm_flag (my_db s) j) \<and>
    map_of hb' r = (case map_of hb r of
         Some v \<Rightarrow> if now - v \<ge> 16000000000 then None else Some v | None \<Rightarrow> None)"
proof -
  have d: "distinct (map fst hb)" unfolding assms(2) by (rule hb_run_new)
  obtain data kept where u: "updater_data now hb = (data, kept)" by fastforce
  with assms(3) have hb': "hb' = kept" and s': "s' = snd (update_status E data s)"
    by (auto simp: updater_tick_def mysql_realms_def)
  obtain x db where x: "update_rows E 0 data (my_db s) = (x, db)" by fastforce
  from update_rows_prefix [OF x] assms(1)
  have look: "realm_flag db j =
      (case map_of (rev (map (\<lambda>(i, f). (ucast i :: u32, RealmFlags_u8 f)) data)) j of
         Some f \<Rightarrow> Some f | None \<Rightarrow> realm_flag (my_db s) j)"
    by auto
  have db: "my_db s' = db" by (simp add: s' update_status_def x)
  have "realm_flag (my_db s') j =
      (case if j < 256 then map_of hb (ucast j) else None of
         Some v \<Rightarrow> Some (if now - v \<ge> 16000000000 then 2 else 32)
       | None \<Rightarrow> realm_flag (my_db s) j)"
    unfolding db look map_of_status [OF d u] expired_iff by (auto split: option.splits)
  moreover have "map_of hb' r = (case map_of hb r of
         Some v \<Rightarrow> if now - v \<ge> 16000000000 then None else Some v | None \<Rightarrow> None)"
    unfolding hb' updater_data_keys(1) [OF u] map_of_filter_distinct [OF d] expired_iff
    by (auto split: option.splits)
  ultimately show ?thesis by blast
qed

section \<open>Properties\<close>

text \<open>
  C28. What a tick does to the realms, after any run of the two tasks: every realm of the map is
  stored as offline (and forgotten) when its last heartbeat is 16 seconds old or more, and as
  recommended otherwise; every other realm keeps its flag, and the entries that stay are the
  young ones.
\<close>

theorem updater_tick_flags:
  assumes "\<And>n. ev_fault E (Q_update_status n) = None"
    and "hb = hs_heartbeat (hb_run L evs (hb_new s0))"
    and "updater_tick (mysql_realms E) now (hb, s) = (hb', s')"
  shows "realm_flag (my_db s') j =
      (case if j < 256 then map_of hb (ucast j) else None of
         Some v \<Rightarrow> Some (if now - v \<ge> 16000000000 then 2 else 32)
       | None \<Rightarrow> realm_flag (my_db s) j) \<and>
    map_of hb' r = (case map_of hb r of
         Some v \<Rightarrow> if now - v \<ge> 16000000000 then None else Some v | None \<Rightarrow> None)"
  using assms by (rule updater_tick_lookup)

theorem updater_tick_flags_witness:
  "realm_flag (my_db (snd (updater_tick (mysql_realms demo_env) 20000000000
     (hs_heartbeat (hb_run ref_lib [HB_recv 4000000000 (Datagram [0, 1, 9, 0, 0, 0])] (hb_new ())), demo_state)))) 1 = Some 2"
proof -
  let ?hb = "hs_heartbeat (hb_run ref_lib [HB_recv 4000000000 (Datagram [0, 1, 9, 0, 0, 0])] (hb_new ()))"
  have hb: "?hb = [(1, 4000000000)]"
    by (simp add: hb_run_def hb_new_def heartbeat_step_eq [OF ref_libs.bincode_lib_axioms] udp_recv_def
        hb_insert_def)
  have "(fst (updater_tick (mysql_realms demo_env) 20000000000 (?hb, demo_state)),
      snd (updater_tick (mysql_realms demo_env) 20000000000 (?hb, demo_state))) =
      updater_tick (mysql_realms demo_env) 20000000000 (?hb, demo_state)" by simp
  from updater_tick_flags [OF _ refl this [symmetric], of 1 0] show ?thesis
    by (simp add: hb demo_env_def)
qed

text \<open>
  The buffer is not cleared between datagrams: after a heartbeat, an empty datagram counts as
  another heartbeat of the same realm, and a datagram of the two bytes \<open>0, r\<close> as one of \<open>r\<close>.
\<close>

lemma heartbeat_stale_buffer:
  assumes "bincode_lib L" and "length d = 6" and "d ! 0 = 0"
    and "st = hb_step L (HB_recv now (Datagram d)) (hb_run L evs (hb_new s))"
  shows "map_of (hs_heartbeat (hb_step L (HB_recv later (Datagram [])) st)) (d ! 1) = Some later \<and>
    map_of (hs_heartbeat (hb_step L (HB_recv later (Datagram [0, r])) st)) r = Some later"
proof -
  have b: "length (hs_buffer (hb_run L evs (hb_new s))) = 6" by (rule hb_run_new)
  with assms(2) have d: "hs_buffer st = d"
    by (simp add: assms(4) heartbeat_step_eq [OF assms(1)] udp_recv_def)
  with assms(2,3) show ?thesis
    by (simp add: heartbeat_step_eq [OF assms(1)] udp_recv_def hb_insert_lookup)
qed

lemma heartbeat_stale_buffer_witness:
  "map_of (hs_heartbeat (hb_step ref_lib (HB_recv 9 (Datagram []))
     (hb_step ref_lib (HB_recv 7 (Datagram [0, 3, 0, 0, 0, 0])) (hb_run ref_lib [] (hb_new ()))))) 3 = Some 9"
  using heartbeat_stale_buffer [OF ref_libs.bincode_lib_axioms, of "[0, 3, 0, 0, 0, 0]" _ 7 "[]" "()" 9] by simp

end
