(* ===== verification/World_Server.thy ===== *)
theory World_Server
  imports World Login_Props Auth_Heartbeat
begin

text \<open>
  The world server (services/world/src/worldserver.rs): the challenge it greets a connection
  with, the authentication of the client against the session key the authentication server has
  stored, the loop that pipes packets into the world, and the heartbeat it sends. The accounts
  are reached through \<open>get_by_username\<close> of the account service alone, whose contract is the
  locale \<open>account_lookup\<close>. Connections are served one after the other. The task that handles
  queued packets runs beside the connection; how many packets it handles while the connection
  waits for a read is an argument of the loop (\<open>co_sched\<close>).
\<close>

section \<open>State\<close>

record ('c, 'k) WorldServer =
  ws_id :: RealmId
  ws_realm_seed :: bytes
  ws_clients :: "ClientId \<Rightarrow> Client option"
  ws_world :: "('c, 'k) World"
  ws_update_interval :: u16
  ws_update_counter :: u64
  ws_running :: bool

definition with_world :: "RealmId \<Rightarrow> bytes \<Rightarrow> ('c, 'k) World \<Rightarrow> ('c, 'k) WorldServer" where
  "with_world realm_id seed world =
     \<lparr>ws_id = realm_id, ws_realm_seed = seed, ws_clients = Map.empty, ws_world = world,
      ws_update_interval = 100, ws_update_counter = 0, ws_running = True\<rparr>"

definition WorldServer_new :: "RealmId \<Rightarrow> bytes \<Rightarrow> int \<Rightarrow> 'k \<Rightarrow> ('c, 'k) WorldServer" where
  "WorldServer_new realm_id seed now characters = with_world realm_id seed (World_new realm_id now characters)"

type_synonym account_query = "rstr \<Rightarrow> (AccountOpError, Account option) res"

section \<open>Authentication\<close>

definition server_proof :: "lib \<Rightarrow> rstr \<Rightarrow> bytes \<Rightarrow> bytes \<Rightarrow> bytes \<Rightarrow> bytes" where
  "server_proof L username local_challenge realm_seed session_key =
     sha1 L (username @ replicate 4 0 @ local_challenge @ realm_seed @ session_key)"

definition handle_auth_session ::
  "('c, 'k) world_env \<Rightarrow> account_query \<Rightarrow> RealmId \<Rightarrow> bytes \<Rightarrow> writer \<Rightarrow> Client \<Rightarrow> AuthSession \<Rightarrow> ('c, 'k) World \<Rightarrow>
     (ResponseCode \<times> writer, 'c Session) res \<times> Client \<times> ('c, 'k) World" where
  "handle_auth_session E accounts realm_id realm_seed writer client a w =
     (if au_realm_id a \<noteq> realm_id then (Err (Resp_RealmListRealmNotFound, writer), client, w)
      else if cl_account client \<noteq> None then (Err (Resp_AuthAlreadyOnline, writer), client, w)
      else case accounts (au_username a) of
        Panic \<Rightarrow> (Panic, client, w)
      | Err _ \<Rightarrow> (Err (Resp_AuthUnknownAccount, writer), client, w)
      | Ok None \<Rightarrow> (Err (Resp_AuthUnknownAccount, writer), client, w)
      | Ok (Some account) \<Rightarrow>
          (case ac_session_key account of
             None \<Rightarrow> (Err (Resp_AuthSessionExpired, writer), client, w)
           | Some session_key \<Rightarrow>
               if au_client_proof a \<noteq> server_proof (wl_lib (sv_world (we_send E))) (ac_username account)
                    (au_local_challenge a) realm_seed session_key
               then (Err (Resp_AuthReject, writer), client, w)
               else
                 let client = client\<lparr>cl_account := Some (ac_id account)\<rparr> in
                 (case create_session E client writer session_key (au_addons a) w of
                    (Ok s, w1) \<Rightarrow> (Ok s, client, w1)
                  | (Err (e, writer1), w1) \<Rightarrow> (Err (Resp_AuthSystemError, writer1), client, w1)
                  | (Panic, w1) \<Rightarrow> (Panic, client, w1))))"

text \<open>The answer to a client that is turned away.\<close>

definition refuse ::
  "('c, 'k) world_env \<Rightarrow> ResponseCode \<Rightarrow> writer \<Rightarrow> (world_error, 'a) res \<times> writer" where
  "refuse E code writer =
     (case ser_wow (wl_lib (sv_world (we_send E)))
             (STup [SU16 (swap_bytes 6), SU16 (OpCode_u16 SmsgAuthResponse), SU32 (ResponseCode_u32 code)]) of
        None \<Rightarrow> (Err WE_Serialize, writer)
      | Some bs \<Rightarrow>
          (case write_every bs writer of
             (Ok _, writer1) \<Rightarrow> (Err WE_NotAuthenticated, writer1)
           | (Err e, writer1) \<Rightarrow> (Err (WE_Io e), writer1)
           | (Panic, writer1) \<Rightarrow> (Panic, writer1)))"

text \<open>
  The head of \<open>connect_loop\<close>: the first packet of the connection must open a session. The result
  is the packets that came with it; the writer is the connection's own while there is no session.
\<close>

definition authenticate_client ::
  "('c, 'k) world_env \<Rightarrow> account_query \<Rightarrow> ClientId \<Rightarrow> net_event list \<Rightarrow> writer \<Rightarrow> ('c, 'k) WorldServer \<Rightarrow>
     (world_error, ClientPacket list) res \<times> net_event list \<times> writer \<times> ('c, 'k) WorldServer" where
  "authenticate_client E accounts client_id evs writer v =
     (case read_packets (sv_world (we_send E)) None evs of
        (Err e, _, evs1) \<Rightarrow> (Err e, evs1, writer, v)
      | (Panic, _, evs1) \<Rightarrow> (Panic, evs1, writer, v)
      | (Ok [], _, evs1) \<Rightarrow> (Panic, evs1, writer, v)
      | (Ok (p # packets), _, evs1) \<Rightarrow>
          (case p of
             CP_AuthSession a \<Rightarrow>
               (case ws_clients v client_id of
                  None \<Rightarrow> (Err WE_NoClient, evs1, writer, v)
                | Some client \<Rightarrow>
                    (case handle_auth_session E accounts (ws_id v) (ws_realm_seed v) writer client a (ws_world v) of
                       (r, client1, w1) \<Rightarrow>
                         let v1 = v\<lparr>ws_clients := (ws_clients v)(client_id \<mapsto> client1), ws_world := w1\<rparr> in
                         (case r of
                            Ok s \<Rightarrow> (Ok packets, evs1, writer, v1)
                          | Err (c, writer1) \<Rightarrow>
                              (case refuse E c writer1 of (q, writer2) \<Rightarrow> (q, evs1, writer2, v1))
                          | Panic \<Rightarrow> (Panic, evs1, writer, v1))))
           | _ \<Rightarrow> (Err WE_InvalidPacket, evs1, writer, v)))"

section \<open>The session loop\<close>

text \<open>A received packet: the session's timeout is reset and the packet queued.\<close>

definition pipe_packet :: "('c, 'k) world_env \<Rightarrow> ClientId \<Rightarrow> ClientPacket \<Rightarrow> ('c, 'k) World \<Rightarrow> ('c, 'k) World" where
  "pipe_packet E client_id p w =
     (case wo_sessions w client_id of
        None \<Rightarrow> w
      | Some s \<Rightarrow>
          receive_packet s p (w\<lparr>wo_sessions := (wo_sessions w)(client_id \<mapsto> reset_timeout (we_send E) s)\<rparr>))"

definition pipe_packets ::
  "('c, 'k) world_env \<Rightarrow> ClientId \<Rightarrow> ClientPacket list \<Rightarrow> ('c, 'k) World \<Rightarrow> ('c, 'k) World" where
  "pipe_packets E client_id ps w = fold (pipe_packet E client_id) ps w"

text \<open>The task of \<open>handle_packets\<close> takes the first \<open>m\<close> packets that are queued.\<close>

definition handle_some ::
  "(nat \<Rightarrow> ('c, 'k) world_env) \<Rightarrow> nat \<Rightarrow> ('c, 'k) World \<Rightarrow> (world_error, unit) res \<times> ('c, 'k) World" where
  "handle_some E m w =
     (case handle_queue E 0 (take m (wo_queue w)) w of
        (r, w1) \<Rightarrow> (r, w1\<lparr>wo_queue := wo_queue w1 @ drop m (wo_queue w)\<rparr>))"

lemma read_packets_decr:
  assumes "(Ok ps, h, evs') = read_packets W x evs"
  shows "in_size evs' < in_size evs"
  using assms tcp_read_le [of 2048 evs]
  by (induction "2048 :: nat" evs rule: tcp_read.induct)
    (auto simp: read_packets_def split: res.splits prod.splits if_splits)

text \<open>
  The loop proper: the packets at hand are queued, the other task gets its turn, and the next
  frame is read with the session's cipher. The session is in the map from its creation on.
\<close>

function session_loop ::
  "(nat \<Rightarrow> nat \<Rightarrow> ('c, 'k) world_env) \<Rightarrow> (nat \<Rightarrow> nat) \<Rightarrow> nat \<Rightarrow> ClientId \<Rightarrow> ClientPacket list \<Rightarrow> net_event list \<Rightarrow>
     ('c, 'k) World \<Rightarrow> (world_error, unit) res \<times> ('c, 'k) World" where
  "session_loop E sched n client_id packets evs w =
     (case handle_some (E n) (sched n) (pipe_packets (E n 0) client_id packets w) of
        (Panic, w1) \<Rightarrow> (Panic, w1)
      | (_, w1) \<Rightarrow>
          (case wo_sessions w1 client_id of
             None \<Rightarrow> (Err WE_NoClient, w1)
           | Some s \<Rightarrow>
               (case read_packets (sv_world (we_send (E n 0))) (Some (ss_encryption s)) evs of
                  (r, h, evs1) \<Rightarrow>
                    let w2 = w1\<lparr>wo_sessions := (wo_sessions w1)(client_id \<mapsto> s\<lparr>ss_encryption := the h\<rparr>)\<rparr> in
                    (case r of
                       Ok ps \<Rightarrow> session_loop E sched (Suc n) client_id ps evs1 w2
                     | Err e \<Rightarrow> (Err e, w2)
                     | Panic \<Rightarrow> (Panic, w2)))))"
  by pat_completeness auto
termination
  by (relation "measure (\<lambda>(E, sched, n, i, ps, evs, w). in_size evs)") (auto dest: read_packets_decr)

declare session_loop.simps [simp del]

section \<open>Connections\<close>

text \<open>
  What a connection brings: the drawn identifier and challenge, what arrives on it and what the
  socket takes, the answers of the account service, and the environments and turns of the other
  task.
\<close>

record ('c, 'k) connection =
  co_id :: ClientId
  co_challenge :: bytes
  co_in :: "net_event list"
  co_writer :: writer
  co_accounts :: account_query
  co_env :: "nat \<Rightarrow> nat \<Rightarrow> ('c, 'k) world_env"
  co_sched :: "nat \<Rightarrow> nat"

definition world_connect_loop ::
  "('c, 'k) connection \<Rightarrow> writer \<Rightarrow> ('c, 'k) WorldServer \<Rightarrow>
     (world_error, unit) res \<times> writer \<times> ('c, 'k) WorldServer" where
  "world_connect_loop c writer v =
     (case authenticate_client (co_env c 0 0) (co_accounts c) (co_id c) (co_in c) writer v of
        (Err e, evs, writer1, v1) \<Rightarrow> (Err e, writer1, v1)
      | (Panic, evs, writer1, v1) \<Rightarrow> (Panic, writer1, v1)
      | (Ok packets, evs, writer1, v1) \<Rightarrow>
          (case session_loop (co_env c) (co_sched c) 0 (co_id c) packets evs (ws_world v1) of
             (r, w) \<Rightarrow> (r, writer1, v1\<lparr>ws_world := w\<rparr>)))"

definition auth_challenge :: "lib \<Rightarrow> bytes \<Rightarrow> bytes \<Rightarrow> bytes option" where
  "auth_challenge L seed challenge =
     ser_wow L (STup [SU16 (swap_bytes 42), SU16 (OpCode_u16 SmsgAuthChallenge), SU32 1, sbytes seed, sbytes challenge])"

text \<open>
  One turn of \<open>accept_clients\<close>: an error of the challenge leaves the loop, an error of the
  connection is logged.
\<close>

definition accept_one ::
  "('c, 'k) connection \<Rightarrow> ('c, 'k) WorldServer \<Rightarrow> (world_error, unit) res \<times> writer \<times> ('c, 'k) WorldServer" where
  "accept_one c v =
     (let v1 = v\<lparr>ws_clients := (ws_clients v)(co_id c \<mapsto> \<lparr>cl_id = co_id c, cl_account = None\<rparr>)\<rparr> in
      case auth_challenge (wl_lib (sv_world (we_send (co_env c 0 0)))) (ws_realm_seed v) (co_challenge c) of
        None \<Rightarrow> (Err WE_Serialize, co_writer c, v1)
      | Some bs \<Rightarrow>
          (case write_every bs (co_writer c) of
             (Err e, writer) \<Rightarrow> (Err (WE_Io e), writer, v1)
           | (Panic, writer) \<Rightarrow> (Panic, writer, v1)
           | (Ok _, writer) \<Rightarrow>
               (case world_connect_loop c writer v1 of
                  (Panic, writer1, v2) \<Rightarrow> (Panic, writer1, v2)
                | (_, writer1, v2) \<Rightarrow> (Ok (), writer1, v2\<lparr>ws_clients := (ws_clients v2)(co_id c := None)\<rparr>))))"

fun accept_clients ::
  "('c, 'k) connection list \<Rightarrow> ('c, 'k) WorldServer \<Rightarrow> (world_error, unit) res \<times> ('c, 'k) WorldServer" where
  "accept_clients [] v = (Ok (), v)"
| "accept_clients (c # cs) v =
     (case accept_one c v of
        (Ok _, _, v1) \<Rightarrow> accept_clients cs v1
      | (Err e, _, v1) \<Rightarrow> (Err e, v1)
      | (Panic, _, v1) \<Rightarrow> (Panic, v1))"

section \<open>Heartbeat and update\<close>

text \<open>The datagram of one turn of \<open>auth_server_heartbeat\<close>; the realm's number is cut to a byte.\<close>

definition heartbeat_datagram :: "lib \<Rightarrow> ('c, 'k) WorldServer \<Rightarrow> bytes option" where
  "heartbeat_datagram L v =
     serialize_into 6 (ser_wow L (STup [SU8 0, SU8 (ucast (ws_id v)), SU32 0]))"

text \<open>One turn of \<open>update\<close>, which the world has nothing to do for yet.\<close>

definition update_tick :: "('c, 'k) WorldServer \<Rightarrow> ('c, 'k) WorldServer" where
  "update_tick v = (if ws_running v then v\<lparr>ws_update_counter := ws_update_counter v + 1\<rparr> else v)"

section \<open>Lemmas\<close>

text \<open>The connection changes nobody's identity while it runs.\<close>

lemma pipe_packets_keeps:
  "map_option ss_client (wo_sessions (pipe_packets E i ps w) j) = map_option ss_client (wo_sessions w j)"
proof (induction ps arbitrary: w)
  case (Cons p ps)
  have "map_option ss_client (wo_sessions (pipe_packet E i p w) j) = map_option ss_client (wo_sessions w j)"
    by (auto simp: pipe_packet_def receive_packet_def reset_timeout_def split: option.splits)
  with Cons [of "pipe_packet E i p w"] show ?case by (simp add: pipe_packets_def)
qed (simp add: pipe_packets_def)

lemma handle_some_keeps:
  assumes "handle_some E m w = (r, w')"
  shows "map_option ss_client (wo_sessions w' j) = map_option ss_client (wo_sessions w j)"
  using assms handle_queue_keeps [of E 0 "take m (wo_queue w)" w]
  by (auto simp: handle_some_def split: prod.splits)

text \<open>What every turn of the other task and every read keep, the loop keeps.\<close>

lemma session_loop_invariant:
  assumes turn: "\<And>n ps w q w1. P w \<Longrightarrow>
      handle_some (E n) (sched n) (pipe_packets (E n 0) i ps w) = (q, w1) \<Longrightarrow> P w1"
    and cipher: "\<And>w s h. P w \<Longrightarrow> wo_sessions w i = Some s \<Longrightarrow>
      P (w\<lparr>wo_sessions := (wo_sessions w)(i \<mapsto> s\<lparr>ss_encryption := h\<rparr>)\<rparr>)"
  shows "session_loop E sched n i ps evs w = (r, w') \<Longrightarrow> P w \<Longrightarrow> P w'"
proof (induction "in_size evs" arbitrary: n ps evs w rule: less_induct)
  case less
  obtain q w1 where q: "handle_some (E n) (sched n) (pipe_packets (E n 0) i ps w) = (q, w1)" by fastforce
  have w1: "P w1" by (rule turn [OF less(3) q])
  show ?case
  proof (cases "q = Panic \<or> wo_sessions w1 i = None")
    case True
    with less(2) q w1 show ?thesis
      by (subst (asm) session_loop.simps) (auto split: res.splits)
  next
    case False
    then obtain s where s: "wo_sessions w1 i = Some s" by auto
    obtain x h evs1 where x: "read_packets (sv_world (we_send (E n 0))) (Some (ss_encryption s)) evs = (x, h, evs1)"
      using prod_cases3 by blast
    let ?w = "w1\<lparr>wo_sessions := (wo_sessions w1)(i \<mapsto> s\<lparr>ss_encryption := the h\<rparr>)\<rparr>"
    have w2: "P ?w" by (rule cipher [OF w1 s])
    have loop: "(r, w') = (case x of Ok ps \<Rightarrow> session_loop E sched (Suc n) i ps evs1 ?w
        | Err e \<Rightarrow> (Err e, ?w) | Panic \<Rightarrow> (Panic, ?w))"
      using less(2) q s x False by (subst (asm) session_loop.simps) (auto simp: Let_def split: res.splits)
    show ?thesis
    proof (cases x)
      case (Ok ps')
      with x have "in_size evs1 < in_size evs" by (metis read_packets_decr)
      with less(1) [of evs1 "Suc n" ps' ?w] loop Ok w2 show ?thesis by simp
    qed (use loop w2 in simp_all)
  qed
qed

lemma session_loop_keeps:
  assumes "session_loop E sched n i ps evs w = (r, w')"
  shows "map_option ss_client (wo_sessions w' j) = map_option ss_client (wo_sessions w j)"
proof (rule session_loop_invariant [OF _ _ assms,
      of "\<lambda>x. map_option ss_client (wo_sessions x j) = map_option ss_client (wo_sessions w j)"])
  show "map_option ss_client (wo_sessions w2 j) = map_option ss_client (wo_sessions w j)"
    if "map_option ss_client (wo_sessions w1 j) = map_option ss_client (wo_sessions w j)"
      and "handle_some (E n) (sched n) (pipe_packets (E n 0) i ps w1) = (q, w2)" for n ps w1 q w2
    using handle_some_keeps [OF that(2), of j] that(1) by (simp add: pipe_packets_keeps)
qed auto

text \<open>
  The contract of \<open>get_by_username\<close>: an account it finds is stored, with the name asked for (as
  far as the database tells names apart) and its session key.
\<close>

locale account_lookup =
  fixes lookup :: "rstr \<Rightarrow> 'd \<Rightarrow> (AccountOpError, Account option) res"
    and stored :: "'d \<Rightarrow> (AccountId \<times> rstr \<times> bytes option) set"
    and same_name :: "rstr \<Rightarrow> rstr \<Rightarrow> bool"
  assumes lookup_stored:
    "lookup u d = Ok (Some a) \<Longrightarrow>
       (ac_id a, ac_username a, ac_session_key a) \<in> stored d \<and> same_name (ac_username a) u"
begin

lemma session_needs_key:
  assumes "handle_auth_session E (\<lambda>u. lookup u d) realm seed wr client a w = (Ok s, client', w')"
  shows "\<exists>i name k. (i, name, Some k) \<in> stored d \<and> same_name name (au_username a) \<and> au_realm_id a = realm \<and>
    au_client_proof a = server_proof (wl_lib (sv_world (we_send E))) name (au_local_challenge a) seed k \<and>
    client' = client\<lparr>cl_account := Some i\<rparr> \<and>
    create_session E client' wr k (au_addons a) w = (Ok s, w')"
  using assms lookup_stored [of "au_username a" d]
  by (fastforce simp: handle_auth_session_def Let_def split: if_splits res.splits option.splits prod.splits)

end

definition stored_keys :: "auth_db \<Rightarrow> (AccountId \<times> rstr \<times> bytes option) set" where
  "stored_keys db = (\<lambda>r. (ar_id r, ar_username r, ar_session_key_auth r)) ` set (db_account db)"

interpretation mysql_lookup: account_lookup "get_by_username D" stored_keys "ev_text_eq D" for D
proof
  fix u d a assume "get_by_username D u d = Ok (Some a)"
  then obtain r a' where r: "find (\<lambda>r. ev_text_eq D (ar_username r) u) (db_account d) = Some r"
    and a': "row_account D r = Ok a'"
    and a: "a = apply_ban D (fetch_ban D (account_bans (ar_id r) d)) a'"
    by (auto simp: get_by_username_Some)
  have "ac_id a = ar_id r" "ac_username a = ar_username r" "ac_session_key a = ar_session_key_auth r"
    using row_account_Ok [OF a'] by (simp_all add: a)
  with r show "(ac_id a, ac_username a, ac_session_key a) \<in> stored_keys d \<and> ev_text_eq D (ac_username a) u"
    by (auto simp: stored_keys_def find_Some_iff)
qed

lemma Session_new_client: "Session_new E client st k ads = Ok s \<Longrightarrow> ss_client s = client \<and> ss_client_id s = cl_id client"
  by (auto simp: Session_new_def finalize_session_def Let_def dest: send_packets_keeps
      split: prod.splits res.splits simp del: send_packets.simps)

lemma create_session_keeps:
  assumes "create_session E client st k ads w = (r, w')"
  shows "map_option ss_client (wo_sessions w' j) =
    (if j = cl_id client \<and> (\<exists>s. r = Ok s) then Some client else map_option ss_client (wo_sessions w j))"
proof (cases "Session_new (we_send E) client st k ads")
  case (Ok s)
  then have "r = Ok s" "w' = w\<lparr>wo_sessions := (wo_sessions w)(ss_client_id s \<mapsto> s)\<rparr>"
    using assms by (simp_all add: create_session_def)
  then show ?thesis using Session_new_client [OF Ok] by simp
qed (use assms in \<open>auto simp: create_session_def\<close>)

lemma refuse_not_Ok: "refuse E c wr \<noteq> (Ok x, wr')"
  by (auto simp: refuse_def split: option.splits prod.splits res.splits)

text \<open>What the head of a connection has established when a session is there for its client.\<close>

lemma authenticate_client_keeps:
  assumes "authenticate_client E (\<lambda>u. get_by_username D u db) i evs wr v = (r, evs', wr', v')"
    and "ws_clients v i = Some client" and "cl_id client = i"
  shows "(\<forall>j. map_option ss_client (wo_sessions (ws_world v') j) = map_option ss_client (wo_sessions (ws_world v) j)) \<or>
    (\<exists>a ps account name k. fst (read_packets (sv_world (we_send E)) None evs) = Ok (CP_AuthSession a # ps) \<and>
       au_realm_id a = ws_id v \<and> (account, name, Some k) \<in> stored_keys db \<and> ev_text_eq D name (au_username a) \<and>
       au_client_proof a = server_proof (wl_lib (sv_world (we_send E))) name (au_local_challenge a) (ws_realm_seed v) k \<and>
       (\<forall>j. map_option ss_client (wo_sessions (ws_world v') j) =
          (if j = i then Some \<lparr>cl_id = i, cl_account = Some account\<rparr>
           else map_option ss_client (wo_sessions (ws_world v) j))))"
proof (cases "\<exists>a ps h evs1. read_packets (sv_world (we_send E)) None evs = (Ok (CP_AuthSession a # ps), h, evs1)")
  case False
  with assms(1) have "v' = v"
    by (auto simp: authenticate_client_def split: prod.splits res.splits list.splits ClientPacket.splits)
  then show ?thesis by simp
next
  case True
  then obtain a ps h evs1 where a: "read_packets (sv_world (we_send E)) None evs = (Ok (CP_AuthSession a # ps), h, evs1)"
    by blast
  obtain q client' w1 where q: "handle_auth_session E (\<lambda>u. get_by_username D u db) (ws_id v) (ws_realm_seed v) wr
      client a (ws_world v) = (q, client', w1)"
    using prod_cases3 by blast
  have w1: "ws_world v' = w1"
    using assms(1,2) a q by (auto simp: authenticate_client_def Let_def split: prod.splits res.splits)
  show ?thesis
  proof (cases "\<exists>s. q = Ok s")
    case True
    then obtain s where s: "q = Ok s" by blast
    from mysql_lookup.session_needs_key [OF q [unfolded s]] obtain account name k
      where *: "(account, name, Some k) \<in> stored_keys db" "ev_text_eq D name (au_username a)" "au_realm_id a = ws_id v"
        "au_client_proof a = server_proof (wl_lib (sv_world (we_send E))) name (au_local_challenge a) (ws_realm_seed v) k"
        "client' = client\<lparr>cl_account := Some account\<rparr>"
        "create_session E client' wr k (au_addons a) (ws_world v) = (Ok s, w1)"
      by blast
    have "client' = \<lparr>cl_id = i, cl_account = Some account\<rparr>" using *(5) assms(3) by simp
    with create_session_keeps [OF *(6)] have "\<forall>j. map_option ss_client (wo_sessions (ws_world v') j) =
          (if j = i then Some \<lparr>cl_id = i, cl_account = Some account\<rparr>
           else map_option ss_client (wo_sessions (ws_world v) j))"
      by (simp add: w1)
    with * a show ?thesis by auto
  next
    case False
    with q have "wo_sessions w1 = wo_sessions (ws_world v)"
      by (auto simp: handle_auth_session_def Let_def create_session_def
          split: if_splits res.splits option.splits prod.splits)
    then show ?thesis by (simp add: w1)
  qed
qed

lemma accept_one_world:
  assumes "accept_one c v = (r, wr, v')"
  shows "ws_world v' = ws_world v \<or> (\<exists>w2. ws_world v' = ws_world (snd (snd (world_connect_loop c w2
    (v\<lparr>ws_clients := (ws_clients v)(co_id c \<mapsto> \<lparr>cl_id = co_id c, cl_account = None\<rparr>)\<rparr>)))))"
proof (cases "ws_world v' = ws_world v")
  case False
  with assms show ?thesis
    by (intro disjI2 exI [of _ "snd (write_every (the (auth_challenge (wl_lib (sv_world (we_send (co_env c 0 0))))
          (ws_realm_seed v) (co_challenge c))) (co_writer c))"])
      (auto simp: accept_one_def Let_def split: option.splits prod.splits res.splits)
qed simp

text \<open>
  What a connection has shown when it may have a session: the first packet it sent names this realm
  and an account with a stored session key, and carries the digest over the client's challenge, the
  server's seed and that key.
\<close>

definition holds_key ::
  "db_env \<Rightarrow> auth_db \<Rightarrow> RealmId \<Rightarrow> bytes \<Rightarrow> ('c, 'k) connection \<Rightarrow> AccountId \<Rightarrow> bool" where
  "holds_key D db realm seed c account \<longleftrightarrow>
     (\<exists>a ps name k.
        fst (read_packets (sv_world (we_send (co_env c 0 0))) None (co_in c)) = Ok (CP_AuthSession a # ps) \<and>
        au_realm_id a = realm \<and> (account, name, Some k) \<in> stored_keys db \<and> ev_text_eq D name (au_username a) \<and>
        au_client_proof a = sha1 (wl_lib (sv_world (we_send (co_env c 0 0))))
          (name @ [0, 0, 0, 0] @ au_local_challenge a @ seed @ k))"

lemma accept_one_server: "accept_one c v = (r, wr, v') \<Longrightarrow> ws_id v' = ws_id v \<and> ws_realm_seed v' = ws_realm_seed v"
  by (auto simp: accept_one_def world_connect_loop_def authenticate_client_def Let_def
      split: prod.splits res.splits option.splits list.splits ClientPacket.splits)

text \<open>A connection leaves the identities of the sessions alone, or puts in its own.\<close>

lemma accept_one_sessions:
  assumes "accept_one c v = (r, wr, v')" and "co_accounts c = (\<lambda>u. get_by_username D u db)"
  shows "(\<forall>j. map_option ss_client (wo_sessions (ws_world v') j) = map_option ss_client (wo_sessions (ws_world v) j)) \<or>
    (\<exists>account. holds_key D db (ws_id v) (ws_realm_seed v) c account \<and>
       (\<forall>j. map_option ss_client (wo_sessions (ws_world v') j) =
          (if j = co_id c then Some \<lparr>cl_id = co_id c, cl_account = Some account\<rparr>
           else map_option ss_client (wo_sessions (ws_world v) j))))"
proof (cases "ws_world v' = ws_world v")
  case False
  let ?v = "v\<lparr>ws_clients := (ws_clients v)(co_id c \<mapsto> \<lparr>cl_id = co_id c, cl_account = None\<rparr>)\<rparr>"
  have four: "replicate 4 0 = [0, 0, 0, 0 :: u8]" by (simp add: numeral_eq_Suc)
  from False accept_one_world [OF assms(1)] obtain w2 where "ws_world v' = ws_world (snd (snd (world_connect_loop c w2 ?v)))"
    by blast
  then obtain q w3 v2 where conn: "world_connect_loop c w2 ?v = (q, w3, v2)" and v2: "ws_world v' = ws_world v2"
    by (metis prod.collapse)
  obtain x evs1 w4 v1 where x: "authenticate_client (co_env c 0 0) (\<lambda>u. get_by_username D u db) (co_id c) (co_in c) w2 ?v
      = (x, evs1, w4, v1)"
    using prod_cases4 by blast
  have keep: "map_option ss_client (wo_sessions (ws_world v') j) = map_option ss_client (wo_sessions (ws_world v1) j)" for j
    using conn x assms(2) v2 by (auto simp: world_connect_loop_def dest: session_loop_keeps split: res.splits prod.splits)
  have "ws_clients ?v (co_id c) = Some \<lparr>cl_id = co_id c, cl_account = None\<rparr>" and sel: "ws_id ?v = ws_id v"
    "ws_realm_seed ?v = ws_realm_seed v" "ws_world ?v = ws_world v"
    by simp_all
  from authenticate_client_keeps [OF x this(1)] show ?thesis
    unfolding keep holds_key_def server_proof_def four sel Client.simps by blast
qed simp

lemma accept_clients_sessions:
  assumes "\<forall>c \<in> set cs. co_accounts c = (\<lambda>u. get_by_username (D c) u (db c))"
  shows "accept_clients cs v = (r, v') \<Longrightarrow>
    map_option ss_client (wo_sessions (ws_world v') i) = map_option ss_client (wo_sessions (ws_world v) i) \<or>
    (\<exists>c \<in> set cs. \<exists>account. co_id c = i \<and> holds_key (D c) (db c) (ws_id v) (ws_realm_seed v) c account \<and>
       map_option ss_client (wo_sessions (ws_world v') i) = Some \<lparr>cl_id = i, cl_account = Some account\<rparr>)"
  using assms
proof (induction cs arbitrary: v)
  case (Cons c cs)
  obtain q wr v1 where q: "accept_one c v = (q, wr, v1)" using prod_cases3 by blast
  note srv = accept_one_server [OF q]
  have acc: "co_accounts c = (\<lambda>u. get_by_username (D c) u (db c))" using Cons(3) by simp
  have one: "map_option ss_client (wo_sessions (ws_world v1) i) = map_option ss_client (wo_sessions (ws_world v) i) \<or>
      (\<exists>account. co_id c = i \<and> holds_key (D c) (db c) (ws_id v) (ws_realm_seed v) c account \<and>
         map_option ss_client (wo_sessions (ws_world v1) i) = Some \<lparr>cl_id = i, cl_account = Some account\<rparr>)"
    using accept_one_sessions [OF q acc] by metis
  show ?case
  proof (cases "q = Ok ()")
    case True
    then have "accept_clients cs v1 = (r, v')" using Cons(2) q by simp
    from Cons(1) [OF this] Cons(3) srv one show ?thesis by fastforce
  next
    case False
    then have "v' = v1" using Cons(2) q by (cases q) auto
    with one show ?thesis by auto
  qed
qed simp

text \<open>A client that authenticates and closes: what it is sent, and what stays.\<close>

definition welcome_packets :: "Addon list \<Rightarrow> (u16 \<times> bytes) list" where
  "welcome_packets addons =
     [(0x1EE, [0x0C, 0, 0, 0, 0, 0, 0, 0, 0, 0, 2]), (0x2EF, concat (map addon_info addons) @ [0]),
      (0x4AB, [0, 0, 0, 0]), (0xFD, replicate 32 0)]"

lemma length_addon_infos: "length (concat (map addon_info addons)) = 8 * length addons"
  by (induction addons) (simp_all add: addon_info_def)

lemma welcome_bodies:
  assumes "bincode_lib (wl_lib (sv_world E))"
  shows "packet_body E SP_AuthResponse = Ok (SmsgAuthResponse, [0x0C, 0, 0, 0, 0, 0, 0, 0, 0, 0, 2])"
    and "packet_body E (SP_ClientCacheVersion 0) = Ok (SmsgClientcacheVersion, [0, 0, 0, 0])"
    and "packet_body E SP_TutorialData = Ok (SmsgTutorialFlags, replicate 32 0)"
proof -
  have four: "u32_le 0 = [0, 0, 0, 0]" "u32_le 0xC = [0xC, 0, 0, 0]" by (simp_all add: u32_le_def le_bytes_short)
  show "packet_body E SP_AuthResponse = Ok (SmsgAuthResponse, [0x0C, 0, 0, 0, 0, 0, 0, 0, 0, 0, 2])"
    "packet_body E (SP_ClientCacheVersion 0) = Ok (SmsgClientcacheVersion, [0, 0, 0, 0])"
    by (simp_all add: bincode_lib.ser_wow [OF assms] four)
  have "concat (replicate 8 [0, 0, 0, 0]) = replicate 32 (0 :: u8)" by code_simp
  then show "packet_body E SP_TutorialData = Ok (SmsgTutorialFlags, replicate 32 0)"
    by (simp add: bincode_lib.ser_wow [OF assms] four list_all_iff map_replicate)
qed

lemma Session_new_welcome:
  assumes "bincode_lib (wl_lib (sv_world E))" and "stream_cipher (wl_crypto (sv_world E))"
    and "wr_plan stream = []" and "length addons < 8000"
  shows "\<exists>s out. Session_new E client stream k addons = Ok s \<and> wr_out (ss_stream s) = wr_out stream @ out \<and>
    client_read (wl_crypto (sv_world E)) (dropped_cipher (wl_crypto (sv_world E)) ENCRYPT_KEY k) out = Some (welcome_packets addons)"
proof -
  let ?C = "wl_crypto (sv_world E)"
  let ?s = "\<lparr>ss_client_id = cl_id client, ss_client = client, ss_stream = stream,
     ss_encryption = HeaderCrypto_new ?C k, ss_latency = 0, ss_timeout = sv_now E, ss_addons = addons, ss_character = None\<rparr>"
  let ?fs = "[(SmsgAuthResponse, [0x0C, 0, 0, 0, 0, 0, 0, 0, 0, 0, 2]), (SmsgAddonInfo, concat (map addon_info addons) @ [0]),
     (SmsgClientcacheVersion, [0, 0, 0, 0]), (SmsgTutorialFlags, replicate 32 0)]"
  have "list_all2 (\<lambda>p f. packet_body E p = Ok f \<and> length (snd f) + 2 < 2 ^ 16)
      [SP_AuthResponse, SP_AddonInfo addons, SP_ClientCacheVersion 0, SP_TutorialData] ?fs"
    using assms(4) welcome_bodies [OF assms(1)] by (simp add: length_addon_infos)
  from send_packets_client [OF assms(1,2) this, of ?s] assms(3) obtain s out
    where "finalize_session E ?s = (Ok (), s)" "wr_out (ss_stream s) = wr_out stream @ out"
      "client_read ?C (hc_encrypt (HeaderCrypto_new ?C k)) out = Some (map (\<lambda>(opcode, bs). (OpCode_u16 opcode, bs)) ?fs)"
    by (auto simp: finalize_session_def)
  then show ?thesis by (simp add: Session_new_def HeaderCrypto_new_def welcome_packets_def)
qed

text \<open>Reading a frame with one packet, and the loop on a connection that closes at once.\<close>

lemma read_packets_single:
  assumes "bincode_lib (wl_lib W)" and "length body \<le> 2042" and "read_client_packet W code body = Ok p"
  shows "read_packets W None [Seg (frame_header (code, body) @ body)] = (Ok [p], None, [])"
proof -
  let ?b = "frame_header (code, body) @ body"
  have len: "length ?b \<le> 2048" "?b \<noteq> []" using assms(2) by (auto simp flip: length_greater_0_conv)
  have "read_frames W None (client_frames undefined None [(code, body)]) = (Ok [p], None)"
    using assms(2,3) by (intro read_frames_plain [OF assms(1)]) simp
  with len show ?thesis by (simp add: read_packets_def seg_push_def)
qed

lemma session_loop_closed:
  assumes "wo_queue w = []" and "wo_sessions w i = Some s"
  shows "session_loop E sched n i [] [] w = (Err WE_Closed, w)"
proof -
  have "w\<lparr>wo_queue := [], wo_sessions := (wo_sessions w)(i \<mapsto> s)\<rparr> = w" using assms by (cases w) auto
  with assms show ?thesis
    by (subst session_loop.simps) (simp add: pipe_packets_def handle_some_def read_packets_def)
qed

lemma accepted_connection:
  assumes "W = sv_world (we_send (co_env c 0 0))" and "bincode_lib (wl_lib W)" and "stream_cipher (wl_crypto W)"
    and "co_accounts c (au_username a) = Ok (Some acc)" and "ac_session_key acc = Some k" and "au_realm_id a = ws_id v"
    and "au_client_proof a = server_proof (wl_lib W) (ac_username acc) (au_local_challenge a) (ws_realm_seed v) k"
    and "read_client_packet W CmsgAuthSession body = Ok (CP_AuthSession a)" and "length body \<le> 2042"
    and "co_in c = [Seg (frame_header (CmsgAuthSession, body) @ body)]"
    and "wr_plan (co_writer c) = []" and "wo_queue (ws_world v) = []" and "length (au_addons a) < 8000"
    and "auth_challenge (wl_lib W) (ws_realm_seed v) (co_challenge c) = Some challenge"
  shows "\<exists>wr v' s out. accept_one c v = (Ok (), wr, v') \<and> ws_clients v' (co_id c) = None \<and>
    wo_sessions (ws_world v') (co_id c) = Some s \<and> ss_client s = \<lparr>cl_id = co_id c, cl_account = Some (ac_id acc)\<rparr> \<and>
    wr_out (ss_stream s) = wr_out (co_writer c) @ challenge @ out \<and>
    client_read (wl_crypto W) (dropped_cipher (wl_crypto W) ENCRYPT_KEY k) out = Some (welcome_packets (au_addons a))"
proof -
  let ?E = "co_env c 0 0" and ?client = "\<lparr>cl_id = co_id c, cl_account = Some (ac_id acc)\<rparr>"
  let ?wr = "(co_writer c)\<lparr>wr_out := wr_out (co_writer c) @ challenge\<rparr>"
  let ?v = "v\<lparr>ws_clients := (ws_clients v)(co_id c \<mapsto> \<lparr>cl_id = co_id c, cl_account = None\<rparr>)\<rparr>"
  from Session_new_welcome [of "we_send ?E" ?wr "au_addons a" ?client k] assms(1-3,11,13) obtain s out
    where s: "Session_new (we_send ?E) ?client ?wr k (au_addons a) = Ok s"
      and out: "wr_out (ss_stream s) = wr_out (co_writer c) @ challenge @ out"
        "client_read (wl_crypto W) (dropped_cipher (wl_crypto W) ENCRYPT_KEY k) out = Some (welcome_packets (au_addons a))"
    by auto
  have id: "ss_client s = ?client" "ss_client_id s = co_id c" using Session_new_client [OF s] by simp_all
  let ?w = "(ws_world v)\<lparr>wo_sessions := (wo_sessions (ws_world v))(co_id c \<mapsto> s)\<rparr>"
  have "handle_auth_session ?E (co_accounts c) (ws_id v) (ws_realm_seed v) ?wr \<lparr>cl_id = co_id c, cl_account = None\<rparr> a
      (ws_world v) = (Ok s, ?client, ?w)"
    using assms(1,4-7) s id by (simp add: handle_auth_session_def create_session_def)
  then have "authenticate_client ?E (co_accounts c) (co_id c) (co_in c) ?wr ?v =
      (Ok [], [], ?wr, v\<lparr>ws_clients := (ws_clients v)(co_id c \<mapsto> ?client), ws_world := ?w\<rparr>)"
    using read_packets_single [OF assms(2,9,8)] assms(1,10) by (simp add: authenticate_client_def)
  moreover have "session_loop (co_env c) (co_sched c) 0 (co_id c) [] [] ?w = (Err WE_Closed, ?w)"
    using assms(12) by (intro session_loop_closed) simp_all
  ultimately have "world_connect_loop c ?wr ?v =
      (Err WE_Closed, ?wr, v\<lparr>ws_clients := (ws_clients v)(co_id c \<mapsto> ?client), ws_world := ?w\<rparr>)"
    by (simp add: world_connect_loop_def)
  with assms(1,11,14) have "accept_one c v = (Ok (), ?wr,
      v\<lparr>ws_clients := (ws_clients v)(co_id c := None), ws_world := ?w\<rparr>)"
    by (simp add: accept_one_def)
  with out id show ?thesis by simp
qed

text \<open>The account service after a completed login of the account the source names.\<close>

lemma find_map_same: "(\<And>x. P (f x) = P x) \<Longrightarrow> find P (map f xs) = map_option f (find P xs)"
  by (induction xs) auto

definition login_row :: "db_env \<Rightarrow> bytes \<Rightarrow> account_row \<Rightarrow> account_row" where
  "login_row D k r =
     (if ev_text_eq D (ar_username r) (ascii ''ARLYON'')
      then r\<lparr>ar_session_key_auth := Some k, ar_last_ip := ascii ''0.0.0.0'', ar_last_login := Some (ev_db_time D),
             ar_locale := Locale_u8 enUS, ar_failed_logins := 0, ar_os := ascii ''Win''\<rparr>
      else r)"

lemma login_row_username [simp]: "ar_username (login_row D k r) = ar_username r"
  by (simp add: login_row_def)

lemma completed_login:
  assumes "srp_libs L" and "connect_accept L token public_key proof1 = Ok (m, k)"
    and "complete_login L D token public_key proof1 db = (Ok m, db')"
    and "find (\<lambda>r. ev_text_eq D (ar_username r) name) (db_account db) = Some row"
  shows "length k = 40" and "find (\<lambda>r. ev_text_eq D (ar_username r) name) (db_account db') = Some (login_row D k row)"
proof -
  show "length k = 40" by (rule accepted_key_length [OF assms(1,2)])
  have "db_account db' = map (login_row D k) (db_account db)"
    using assms(2,3)
    by (auto simp: complete_login_def update_session_def session_username_def login_row_def fun_eq_iff split: option.splits)
  with assms(4) show "find (\<lambda>r. ev_text_eq D (ar_username r) name) (db_account db') = Some (login_row D k row)"
    by (simp add: find_map_same)
qed

lemma lookup_after_login:
  assumes "srp_libs L" and "connect_accept L token public_key proof1 = Ok (m, k)"
    and "complete_login L D token public_key proof1 db = (Ok m, db')"
    and "find (\<lambda>r. ev_text_eq D (ar_username r) name) (db_account db) = Some row"
    and "ev_text_eq D (ar_username row) (ascii ''ARLYON'')" and "account_row_wf row"
    and "ev_fault D Q_get_by_username = None" and "ev_fault D Q_get_ban = None"
  shows "\<exists>acc. get_by_username D name db' = Ok (Some acc) \<and> ac_session_key acc = Some k \<and> ac_id acc = ar_id row \<and>
    ac_username acc = ar_username row"
proof -
  note login = completed_login [OF assms(1-4)]
  obtain acc where acc: "row_account D (login_row D k row) = Ok acc"
    using assms(5,6) login(1) by (simp add: row_account_def account_row_wf_def login_row_def)
  with row_account_Ok [OF acc] assms(5,7,8) login(2) show ?thesis
    by (auto simp: get_by_username_Some login_row_def)
qed

lemma auth_challenge_eq:
  assumes "bincode_lib L"
  shows "auth_challenge L seed challenge = Some ([0, 42, 0xEC, 1, 1, 0, 0, 0] @ seed @ challenge)"
  by (simp add: auth_challenge_def bincode_lib.ser_wow [OF assms] swap_bytes_def u16_le_def u32_le_def le_bytes_short
      list_all_iff)

text \<open>A concrete client.\<close>

definition demo_arlyon :: account_row where
  "demo_arlyon = demo_row\<lparr>ar_username := ascii ''ARLYON''\<rparr>"

definition demo_body :: bytes where
  "demo_body = [0x34, 0x30, 0, 0, 0, 0, 0, 0] @ ascii ''ARLYON'' @ [0, 0, 0, 0, 0, 1, 2, 3, 4, 0, 0, 0, 0, 0, 0, 0, 0, 1, 0, 0, 0,
     0, 0, 0, 0, 0, 0, 0, 0, 90, 0, 0, 0, 0, 0, 0, 0, 0, 0, 0, 0, 0, 0, 0, 0, 0, 0, 0, 0, 4, 0, 0, 0, 0, 0, 0, 0]"

definition demo_auth_session :: AuthSession where
  "demo_auth_session = \<lparr>au_build = 12340, au_server_id = 0, au_username = ascii ''ARLYON'', au_login_server_type = 0,
     au_region_id = 0, au_local_challenge = [1, 2, 3, 4], au_client_proof = 90 # replicate 19 0, au_addons = [],
     au_battlegroup_id = 0, au_realm_id = 1, au_dos_response = 0\<rparr>"

definition demo_login_lib :: "rc4 world_lib" where
  "demo_login_lib = demo_world_lib\<lparr>wl_lib := fixed_digest_lib\<rparr>"

lemma demo_body_read: "read_client_packet demo_login_lib CmsgAuthSession demo_body = Ok (CP_AuthSession demo_auth_session)"
  by code_simp

definition demo_world_envs :: "(rc4, char_db) world_env" where
  "demo_world_envs = demo_world_env\<lparr>we_send := demo_send_env\<lparr>sv_world := demo_login_lib\<rparr>\<rparr>"

definition demo_connection :: "auth_db \<Rightarrow> (rc4, char_db) connection" where
  "demo_connection db = \<lparr>co_id = 5, co_challenge = replicate 32 9, co_in = [Seg (frame_header (CmsgAuthSession, demo_body) @ demo_body)],
     co_writer = \<lparr>wr_out = [], wr_plan = []\<rparr>, co_accounts = (\<lambda>u. get_by_username demo_env u db),
     co_env = (\<lambda>_ _. demo_world_envs), co_sched = (\<lambda>_. 1)\<rparr>"

lemma demo_login_libs:
  "wl_lib demo_login_lib = fixed_digest_lib" "sv_world (we_send (co_env (demo_connection db) n m)) = demo_login_lib"
  "bincode_lib (wl_lib demo_login_lib)" "stream_cipher (wl_crypto demo_login_lib)"
  by (simp_all add: demo_login_lib_def demo_world_lib_def demo_connection_def demo_world_envs_def
      fixed_digest.bincode_lib_axioms ref_cipher.stream_cipher_axioms)

lemma demo_proof_ok:
  "length k = 40 \<Longrightarrow> au_client_proof demo_auth_session =
     server_proof fixed_digest_lib (ascii ''ARLYON'') (au_local_challenge demo_auth_session) [1, 2, 3, 4] k"
  by (simp add: demo_auth_session_def server_proof_def fixed_digest_sha1 ascii_def)

section \<open>Properties\<close>

text \<open>
  C3. A session of the world belongs to somebody who holds the key. After any run of the accept
  loop over any connections, the session under an identifier is the client's it was before, or a
  connection of the run with that identifier put it there: its first packet, for this realm, named
  a stored account with a session key and carried the digest over the client's challenge, the
  server's seed and that key, and the session is of that account.
\<close>

theorem world_session_needs_key:
  assumes "accept_clients cs v = (r, v')"
    and "\<forall>c \<in> set cs. co_accounts c = (\<lambda>u. get_by_username (D c) u (db c))"
    and "wo_sessions (ws_world v') i = Some s"
  shows "map_option ss_client (wo_sessions (ws_world v) i) = Some (ss_client s) \<or>
    (\<exists>c \<in> set cs. \<exists>account. co_id c = i \<and> holds_key (D c) (db c) (ws_id v) (ws_realm_seed v) c account \<and>
       ss_client s = \<lparr>cl_id = i, cl_account = Some account\<rparr>)"
  using accept_clients_sessions [OF assms(2,1), of i] assms(3) by (metis option.inject option.simps(9))

theorem world_session_needs_key_witness:
  "\<exists>account name k. (account, name, Some k) \<in> stored_keys
     (demo_db\<lparr>db_account := [demo_arlyon\<lparr>ar_session_key_auth := Some (replicate 40 3)\<rparr>]\<rparr>) \<and>
     au_client_proof demo_auth_session = sha1 fixed_digest_lib (name @ [0, 0, 0, 0] @ [1, 2, 3, 4] @ [1, 2, 3, 4] @ k)"
proof -
  let ?db = "demo_db\<lparr>db_account := [demo_arlyon\<lparr>ar_session_key_auth := Some (replicate 40 3)\<rparr>]\<rparr>"
  let ?c = "demo_connection ?db" and ?v = "WorldServer_new 1 [1, 2, 3, 4] 0 demo_chars :: (rc4, char_db) WorldServer"
  obtain acc where acc: "get_by_username demo_env (ascii ''ARLYON'') ?db = Ok (Some acc)"
    "ac_session_key acc = Some (replicate 40 3)" "ac_username acc = ascii ''ARLYON''"
    by (simp add: get_by_username_def demo_env_def demo_db_def demo_arlyon_def demo_row_def row_account_def apply_ban_def)
  have "\<exists>wr v' s. accept_one ?c ?v = (Ok (), wr, v') \<and> wo_sessions (ws_world v') 5 = Some s"
    using accepted_connection [OF refl, of ?c demo_auth_session acc "replicate 40 3" ?v demo_body] acc demo_body_read
      demo_login_libs demo_proof_ok [of "replicate 40 3"] auth_challenge_eq [of fixed_digest_lib]
    by (auto simp: demo_connection_def demo_auth_session_def WorldServer_new_def with_world_def World_new_def demo_body_def ascii_def)
  then obtain wr v' s where a: "accept_one ?c ?v = (Ok (), wr, v')" "wo_sessions (ws_world v') (co_id ?c) = Some s"
    by (auto simp: demo_connection_def)
  have "co_accounts ?c = (\<lambda>u. get_by_username demo_env u ?db)" "wo_sessions (ws_world ?v) (co_id ?c) = None"
    by (simp_all add: demo_connection_def WorldServer_new_def with_world_def World_new_def)
  moreover have "accept_clients [?c] ?v = (Ok (), v')" using a(1) by simp
  ultimately have "\<exists>account. holds_key demo_env ?db (ws_id ?v) (ws_realm_seed ?v) ?c account"
    using world_session_needs_key [of "[?c]" ?v "Ok ()" v' "\<lambda>_. demo_env" "\<lambda>_. ?db" "co_id ?c" s] a(2) by auto
  then obtain x ps account name k where
    "fst (read_packets demo_login_lib None (co_in ?c)) = Ok (CP_AuthSession x # ps)"
    "(account, name, Some k) \<in> stored_keys ?db"
    "au_client_proof x = sha1 fixed_digest_lib (name @ [0, 0, 0, 0] @ au_local_challenge x @ ws_realm_seed ?v @ k)"
    unfolding holds_key_def demo_login_libs by (elim exE conjE) (erule that)
  moreover have "read_packets demo_login_lib None (co_in ?c) = (Ok [CP_AuthSession demo_auth_session], None, [])"
    using read_packets_single [OF demo_login_libs(3) _ demo_body_read] by (simp add: demo_connection_def demo_body_def ascii_def)
  moreover have "au_local_challenge demo_auth_session = [1, 2, 3, 4]" "ws_realm_seed ?v = [1, 2, 3, 4]"
    by (simp_all add: demo_auth_session_def WorldServer_new_def with_world_def)
  ultimately show ?thesis by (intro exI [of _ account] exI [of _ name] exI [of _ k]) simp
qed

text \<open>
  From one server to the other: the key a completed login stores opens the world. After the
  authentication server has accepted a client's proof for the account that it stores sessions
  for, a client that digests its challenge, the seed and the key of that login is let in by the
  world server: it receives the challenge and then, readable with the cipher of its key, the four
  packets of a new session, which belongs to its account. When the client leaves, its record goes;
  its session stays in the world.
\<close>

lemma login_then_world:
  assumes "libs L" and "connect_accept L token public_key proof1 = Ok (m, k)"
    and "complete_login L D token public_key proof1 db = (Ok m, db')"
    and "find (\<lambda>r. ev_text_eq D (ar_username r) (au_username a)) (db_account db) = Some row"
    and "ev_text_eq D (ar_username row) (ascii ''ARLYON'')" and "account_row_wf row"
    and "ev_fault D Q_get_by_username = None" and "ev_fault D Q_get_ban = None"
    and "W = sv_world (we_send (co_env c 0 0))" and "wl_lib W = L" and "stream_cipher (wl_crypto W)"
    and "co_accounts c = (\<lambda>u. get_by_username D u db')" and "au_realm_id a = ws_id v"
    and "au_client_proof a = server_proof L (ar_username row) (au_local_challenge a) (ws_realm_seed v) k"
    and "read_client_packet W CmsgAuthSession body = Ok (CP_AuthSession a)" and "length body \<le> 2042"
    and "co_in c = [Seg (frame_header (CmsgAuthSession, body) @ body)]"
    and "wr_plan (co_writer c) = []" and "wo_queue (ws_world v) = []" and "length (au_addons a) < 8000"
  shows "\<exists>wr v' s out. accept_one c v = (Ok (), wr, v') \<and> ws_clients v' (co_id c) = None \<and>
    wo_sessions (ws_world v') (co_id c) = Some s \<and> ss_client s = \<lparr>cl_id = co_id c, cl_account = Some (ar_id row)\<rparr> \<and>
    wr_out (ss_stream s) = wr_out (co_writer c) @ [0, 42, 0xEC, 1, 1, 0, 0, 0] @ ws_realm_seed v @ co_challenge c @ out \<and>
    client_read (wl_crypto W) (dropped_cipher (wl_crypto W) ENCRYPT_KEY k) out = Some (welcome_packets (au_addons a))"
proof -
  have b: "bincode_lib (wl_lib W)" and srp: "srp_libs L" using assms(1,10) by (simp_all add: libs_def)
  from lookup_after_login [OF srp assms(2-8)] obtain acc
    where acc: "get_by_username D (au_username a) db' = Ok (Some acc)" "ac_session_key acc = Some k"
      "ac_id acc = ar_id row" "ac_username acc = ar_username row"
    by blast
  from accepted_connection [OF assms(9) b assms(11) _ acc(2) assms(13) _ assms(15-20) auth_challenge_eq [OF b]]
  show ?thesis using acc assms(10,12,14) by simp
qed

lemma login_then_world_witness:
  "\<exists>db wr v' s. accept_one (demo_connection db) (WorldServer_new 1 [1, 2, 3, 4] 0 demo_chars) = (Ok (), wr, v') \<and>
     wo_sessions (ws_world v') 5 = Some s \<and> cl_account (ss_client s) = Some 1"
proof -
  let ?t = "\<lparr>ct_server = fixed_digest_server, ct_security_flags = 0\<rparr>" and ?p = "90 # replicate 19 0"
  let ?db = "demo_db\<lparr>db_account := [demo_arlyon]\<rparr>"
  let ?r = "complete_login fixed_digest_lib demo_env ?t (client_a_pub fixed_digest_lib 0) ?p ?db"
  obtain m k where acc: "connect_accept fixed_digest_lib ?t (client_a_pub fixed_digest_lib 0) ?p = Ok (m, k)"
    using fixed_digest_accepts by blast
  then have k: "length k = 40" by (rule accepted_key_length [OF fixed_digest.srp_libs_axioms])
  have r: "?r = (Ok m, snd ?r)" by (simp add: complete_login_def acc demo_env_def)
  have find: "find (\<lambda>r. ev_text_eq demo_env (ar_username r) (au_username demo_auth_session)) (db_account ?db) = Some demo_arlyon"
    by (simp add: demo_env_def demo_arlyon_def demo_auth_session_def)
  have wf: "account_row_wf demo_arlyon" by (simp add: account_row_wf_def demo_arlyon_def demo_row_def)
  from login_then_world [OF fixed_digest.libs_axioms acc r find _ wf _ _ refl, of "demo_connection (snd ?r)"
      "WorldServer_new 1 [1, 2, 3, 4] 0 demo_chars" demo_body]
  show ?thesis
    using demo_login_libs demo_proof_ok [OF k] demo_body_read
    by (auto simp: demo_connection_def demo_auth_session_def WorldServer_new_def with_world_def World_new_def demo_body_def
        ascii_def demo_env_def demo_arlyon_def demo_row_def intro!: exI [of _ "snd ?r"])
qed

text \<open>
  One client whose challenge cannot be written ends the server: the error of the first write
  to a new connection leaves the accept loop, and the connections that wait are not served.
\<close>

lemma accept_write_failure_ends_server:
  assumes "bincode_lib (wl_lib (sv_world (we_send (co_env c 0 0))))" and "wr_plan (co_writer c) = WriteError # plan"
  shows "accept_clients (c # cs) v =
    (Err (WE_Io WriteFault), v\<lparr>ws_clients := (ws_clients v)(co_id c \<mapsto> \<lparr>cl_id = co_id c, cl_account = None\<rparr>)\<rparr>)"
proof -
  have "write_every (x # bs) (co_writer c) = (Err WriteFault, (co_writer c)\<lparr>wr_plan := plan\<rparr>)" for x bs
    using assms(2) by (subst write_every.simps) (simp add: write_some_def)
  then show ?thesis by (simp add: accept_one_def auth_challenge_eq [OF assms(1)])
qed

lemma accept_write_failure_ends_server_witness:
  "fst (accept_clients [(demo_connection demo_db)\<lparr>co_writer := \<lparr>wr_out = [], wr_plan = [WriteError]\<rparr>\<rparr>, demo_connection demo_db]
     (WorldServer_new 1 [1, 2, 3, 4] 0 demo_chars)) = Err (WE_Io WriteFault)"
  by (subst accept_write_failure_ends_server [where plan = "[]"])
    (use demo_login_libs in \<open>simp_all add: demo_connection_def\<close>)

text \<open>
  C35. The world server keeps its realm in the list: a heartbeat it sends, received by the
  authentication server after any run of its tasks, makes a tick of the updater within 16
  seconds store the realm as recommended, where the realm is the one whose number is the lowest
  byte of the server's.
\<close>

theorem heartbeat_keeps_realm_listed:
  assumes "bincode_lib L" and "\<And>n. ev_fault E (Q_update_status n) = None"
    and "heartbeat_datagram L v = Some d"
    and "hb = hs_heartbeat (hb_run L (evs @ [HB_recv now (Datagram d)]) (hb_new s0))"
    and "updater_tick (mysql_realms E) later (hb, s) = (hb', s')" and "later - now < 16000000000"
  shows "realm_flag (my_db s') (ws_id v mod 256) = Some (RealmFlags_u8 RF_Recommended)"
proof -
  have d: "d = [0, ucast (ws_id v), 0, 0, 0, 0]"
    using assms(3) by (simp add: heartbeat_datagram_def bincode_lib.ser_wow [OF assms(1)] u32_le_def le_bytes_short)
  have "map_of hb (ucast (ws_id v)) = Some now"
    using heartbeat_lookup [OF assms(1) _ refl, of d now evs s0 "ucast (ws_id v)"]
    by (simp add: assms(4) hb_run_snoc d del: hb_step.simps)
  moreover have "ws_id v mod 256 < 256" "ucast (ws_id v mod 256) = (ucast (ws_id v) :: u8)"
    by (simp_all add: word_mod_less_divisor word_unat_eq_iff unat_mod unsigned_ucast_eq take_bit_eq_mod)
  ultimately show ?thesis
    using updater_tick_lookup [OF assms(2,4,5), of "ws_id v mod 256"] assms(6) by simp
qed

theorem heartbeat_keeps_realm_listed_witness:
  "realm_flag (my_db (snd (updater_tick (mysql_realms demo_env) 5000000000
     (hs_heartbeat (hb_run ref_lib [HB_recv 1000000000 (Datagram [0, 1, 0, 0, 0, 0])] (hb_new ())), demo_state)))) 1 = Some 32"
proof -
  let ?v = "WorldServer_new 1 [1, 2, 3, 4] 0 demo_chars :: (rc4, char_db) WorldServer"
  let ?hb = "hs_heartbeat (hb_run ref_lib ([] @ [HB_recv 1000000000 (Datagram [0, 1, 0, 0, 0, 0])]) (hb_new ()))"
  have d: "heartbeat_datagram ref_lib ?v = Some [0, 1, 0, 0, 0, 0]"
    by (simp add: heartbeat_datagram_def bincode_lib.ser_wow [OF ref_libs.bincode_lib_axioms] u32_le_def le_bytes_short
        WorldServer_new_def with_world_def)
  have "realm_flag (my_db (snd (updater_tick (mysql_realms demo_env) 5000000000 (?hb, demo_state)))) (ws_id ?v mod 256)
      = Some (RealmFlags_u8 RF_Recommended)"
    by (rule heartbeat_keeps_realm_listed [OF ref_libs.bincode_lib_axioms _ d refl prod.collapse [symmetric]])
      (simp_all add: demo_env_def)
  then show ?thesis by (simp add: WorldServer_new_def with_world_def)
qed

end
