(* ===== verification/Auth_Reconnect.thy ===== *)
theory Auth_Reconnect
  imports World_Server
begin

text \<open>
  The second connection of a client: after a login has stored the session key, the client
  reconnects by answering a nonce instead of the password challenge (services/auth/src/authserver.rs,
  \<open>handle_reconnect_request\<close> and \<open>handle_reconnect_proof\<close>). The steps extend those of
  theory \<open>Auth_Session\<close>; the bytes of the two answers are written out.
\<close>

section \<open>The steps\<close>

definition reconnect_bytes :: "bytes \<Rightarrow> bytes" where
  "reconnect_bytes nonce = [2, 0] @ nonce @ VERSION_CHALLENGE"

definition reproof_bytes :: bytes where
  "reproof_bytes = [3, 0, 0, 0]"

lemma trans_reconnect:
  assumes "bincode_lib (se_lib (E i))" and "\<not> rejected st" and "tcp_wfaults c = []"
    and "tcp_in c = Seg (message_bytes (M_ReConnect r) @ name) # evs"
    and "ConnectRequest_wf r" and "cr_build r = 12340"
    and "cr_identifier_length r = of_nat (length name)" and "length name \<le> 16" and "utf8_valid name"
    and "as_initiate_relogin (se_accounts (E i)) (se_rng (E i)) name s = (Ok t, s1)"
  shows "connect_trans E (i, st, s, c) (M_ReConnect r)
    (Suc i, RS_ReconnectChallenge t, s1,
     c\<lparr>tcp_in := evs, tcp_out := tcp_out c @ reconnect_bytes (rt_reconnect_proof t)\<rparr>)"
proof (rule connect_trans.handle)
  show "read_packet (se_lib (E i)) (tcp_in c) = (Ok (M_ReConnect r), seg_push name evs)"
    unfolding assms(4) using read_packet_message [OF assms(1), of "M_ReConnect r" name evs] assms(5) by simp
  let ?c = "c\<lparr>tcp_in := seg_push name evs\<rparr>"
  have "read_username (cr_identifier_length r) ?c = (Ok (Some name), c\<lparr>tcp_in := evs\<rparr>)"
    using read_username_seg [of name ?c "[]" evs] assms(7,8,9) by simp
  then show "connect_step (E i) st (M_ReConnect r) s ?c = (Ok (RS_ReconnectChallenge t), s1,
      c\<lparr>tcp_in := evs, tcp_out := tcp_out c @ reconnect_bytes (rt_reconnect_proof t)\<rparr>)"
    using assms(3,6,10)
    by (cases st) (simp_all add: connect_step_def handle_reconnect_request_def reconnect_bytes_def
        bincode_lib.ser_options [OF assms(1)] list_all_iff reply_clean comp_def)
qed (rule assms(2))

lemma trans_reproof:
  assumes "bincode_lib (se_lib (E i))" and "tcp_wfaults c = []"
    and "tcp_in c = Seg (message_bytes (M_ReProof p)) # evs" and "ReconnectProof_wf p"
    and "as_complete_relogin (se_accounts (E i)) t (rp_proof_data p) (rp_client_proof p) s = (Ok m, s1)"
  shows "connect_trans E (i, RS_ReconnectChallenge t, s, c) (M_ReProof p)
    (Suc i, RS_Realmlist, s1, c\<lparr>tcp_in := evs, tcp_out := tcp_out c @ reproof_bytes\<rparr>)"
proof (rule connect_trans.handle)
  show "read_packet (se_lib (E i)) (tcp_in c) = (Ok (M_ReProof p), evs)"
    unfolding assms(3) using read_packet_message [OF assms(1), of "M_ReProof p" "[]" evs] assms(4) by simp
  have "u16_le 0 = [0, 0]" by (simp add: u16_le_def le_bytes_short)
  then show "connect_step (E i) (RS_ReconnectChallenge t) (M_ReProof p) s (c\<lparr>tcp_in := evs\<rparr>) = (Ok RS_Realmlist, s1,
      c\<lparr>tcp_in := evs, tcp_out := tcp_out c @ reproof_bytes\<rparr>)"
    using assms(2,5)
    by (simp add: connect_step_def handle_reconnect_proof_def bincode_lib.ser_plain [OF assms(1)] reply_clean reproof_bytes_def)
qed simp

text \<open>The token that the database gives for a row with a key.\<close>

lemma filter_find: "find P xs = Some x \<Longrightarrow> Q x \<Longrightarrow> \<exists>rest. filter (\<lambda>a. P a \<and> Q a) xs = x # rest"
  by (induction xs) (auto split: if_splits)

lemma initiate_relogin_row:
  assumes "find (\<lambda>r. ev_text_eq D (ar_username r) name) (db_account db) = Some row"
    and "ar_session_key_auth row = Some k" and "length k = 40" and "ev_fault D Q_relogin = None"
  shows "\<exists>t. initiate_relogin D rng name db = Ok t \<and> rt_reconnect_proof t = rng \<and> rt_session_key t = k \<and>
    ac_username (rt_account t) = ar_username row"
proof -
  have "\<exists>rest. filter (\<lambda>a. ev_text_eq D (ar_username a) name \<and> ar_session_key_auth a \<noteq> None) (db_account db) = row # rest"
    using filter_find [OF assms(1), of "\<lambda>a. ar_session_key_auth a \<noteq> None"] assms(2) by simp
  then obtain a ban rest where "relogin_rows D name db = (a, ban) # rest" "a = row"
    using relogin_rows_first [of D name db "\<lambda>a. a = row"] by blast
  with assms(2-4) show ?thesis
    by (simp add: initiate_relogin_def run_query_def ReconnectToken_new_def relogin_account_def)
qed

section \<open>A sample client\<close>

definition demo_reconnect :: ConnectRequest where
  "demo_reconnect = demo_request\<lparr>cr_identifier_length := 6\<rparr>"

definition demo_reproof :: ReconnectProof where
  "demo_reproof = \<lparr>rp_proof_data = replicate 16 1, rp_client_proof = 90 # replicate 19 0, rp_unknown = replicate 20 0,
     rp_key_count = 0\<rparr>"

definition demo_returning_client :: tcp where
  "demo_returning_client = \<lparr>tcp_in = [Seg (message_bytes (M_ReConnect demo_reconnect) @ ascii ''ARLYON''),
     Seg (message_bytes (M_ReProof demo_reproof)), Seg (message_bytes (M_RealmList \<lparr>rq_data = [0, 0, 0, 0]\<rparr>))],
     tcp_out = [], tcp_wfaults = []\<rparr>"

text \<open>The server, with the sixteen bytes it draws.\<close>

definition demo_returning_server :: "nat \<Rightarrow> mysql_state server_env" where
  "demo_returning_server = mysql_server fixed_digest_lib True (\<lambda>_. demo_env) (\<lambda>_. replicate 16 1)"

section \<open>Properties\<close>

text \<open>
  C14. A login opens the way back for the account the service stores its sessions for, the one whose name
  the database takes for ARLYON (no other gets the key): once its login has been completed, a
  second connection that asks to reconnect under its name and answers the nonce with the digest over
  the stored name, its own data, the nonce and that key gets the nonce, the confirmation and the realm list of
  the database, in this order, without a password proof.
\<close>

theorem login_then_reconnect:
  assumes "libs L" and "connect_accept L token public_key proof1 = Ok (m, k)"
    and "complete_login L D token public_key proof1 db = (Ok m, my_db s)"
    and "find (\<lambda>r. ev_text_eq D (ar_username r) name) (db_account db) = Some row"
    and "ev_text_eq D (ar_username row) (ascii ''ARLYON'')"
    and "Ev 0 = D" and "ev_fault D Q_relogin = None"
    and "rp_client_proof p = sha1 L (ar_username row @ rp_proof_data p @ rng 0 @ k)"
    and "realms (Ev 2) s = (rs, s2)" and "es = map (\<lambda>r. from_realm r 0 False) rs"
    and "list_all (str_ok \<circ> RealmEntry_sval) es" and "length (entries_bytes es) + 16 < 2 ^ 16"
    and "ConnectRequest_wf r" and "cr_build r = 12340" and "cr_identifier_length r = of_nat (length name)"
    and "length name \<le> 16" and "utf8_valid name" and "ReconnectProof_wf p" and "RealmListRequest_wf q"
    and "tcp_wfaults c = []"
    and "tcp_in c = [Seg (message_bytes (M_ReConnect r) @ name), Seg (message_bytes (M_ReProof p)),
           Seg (message_bytes (M_RealmList q))]"
  shows "connect_loop (mysql_server L chk Ev rng) 0 RS_Start s c =
    (Err (SE_Packet (IoRead UnexpectedEof)), s2,
     c\<lparr>tcp_in := [], tcp_out := tcp_out c @ reconnect_bytes (rng 0) @ reproof_bytes @ realmlist_bytes es\<rparr>)"
proof -
  let ?E = "mysql_server L chk Ev rng"
  have b: "bincode_lib L" and sl: "srp_libs L" using assms(1) by (simp_all add: libs_def)
  note login = completed_login [OF sl assms(2,3,4)]
  have key: "ar_session_key_auth (login_row D k row) = Some k" using assms(5) by (simp add: login_row_def)
  obtain t where t: "initiate_relogin D (rng 0) name (my_db s) = Ok t" "rt_reconnect_proof t = rng 0" "rt_session_key t = k"
      "ac_username (rt_account t) = ar_username row"
    using initiate_relogin_row [OF login(2) key login(1) assms(7), of "rng 0"] by auto
  let ?c1 = "c\<lparr>tcp_in := tl (tcp_in c), tcp_out := tcp_out c @ reconnect_bytes (rt_reconnect_proof t)\<rparr>"
  have t1: "connect_trans ?E (0, RS_Start, s, c) (M_ReConnect r) (Suc 0, RS_ReconnectChallenge t, s, ?c1)"
    using assms b t(1) by (intro trans_reconnect [where name = name]) (simp_all add: mysql_server_accounts)
  let ?c2 = "?c1\<lparr>tcp_in := tl (tcp_in ?c1), tcp_out := tcp_out ?c1 @ reproof_bytes\<rparr>"
  have "complete_relogin L t (rp_proof_data p) (rp_client_proof p) = Ok (rp_client_proof p)"
    using t assms(8) by (simp add: complete_relogin_def reconnect_accept_def)
  then have t2: "connect_trans ?E (Suc 0, RS_ReconnectChallenge t, s, ?c1) (M_ReProof p) (Suc (Suc 0), RS_Realmlist, s, ?c2)"
    using assms b by (intro trans_reproof) (simp_all add: mysql_server_accounts)
  have "connect_loop ?E 0 RS_Start s c = connect_loop ?E 2 RS_Realmlist s ?c2"
    using connect_loop_step [OF t1] connect_loop_step [OF t2] by (simp add: numeral_2_eq_2)
  also have "\<dots> = (Err (SE_Packet (IoRead UnexpectedEof)), s2,
      ?c2\<lparr>tcp_in := [], tcp_out := tcp_out ?c2 @ realmlist_bytes es\<rparr>)"
    using assms(19-21) by (intro connect_loop_realmlist [where Ev = Ev and i = 2, OF b assms(9-12)]) simp_all
  finally show ?thesis using t(2) by simp
qed

theorem login_then_reconnect_witness:
  "\<exists>s s2 list. connect_loop demo_returning_server 0 RS_Start s demo_returning_client =
     (Err (SE_Packet (IoRead UnexpectedEof)), s2, demo_returning_client\<lparr>tcp_in := [],
        tcp_out := reconnect_bytes (replicate 16 1) @ reproof_bytes @ list\<rparr>)"
proof -
  let ?t = "\<lparr>ct_server = fixed_digest_server, ct_security_flags = 0\<rparr>" and ?p = "90 # replicate 19 0"
  let ?db = "demo_db\<lparr>db_account := [demo_arlyon]\<rparr>"
  let ?r = "complete_login fixed_digest_lib demo_env ?t (client_a_pub fixed_digest_lib 0) ?p ?db"
  obtain m k where acc: "connect_accept fixed_digest_lib ?t (client_a_pub fixed_digest_lib 0) ?p = Ok (m, k)"
    using fixed_digest_accepts by blast
  let ?s = "demo_start\<lparr>my_db := snd ?r\<rparr>"
  have r: "?r = (Ok m, my_db ?s)" by (simp add: complete_login_def acc demo_env_def)
  have find: "find (\<lambda>r. ev_text_eq demo_env (ar_username r) (ascii ''ARLYON'')) (db_account ?db) = Some demo_arlyon"
    by (simp add: demo_env_def demo_arlyon_def)
  have k: "length k = 40" by (rule completed_login(1) [OF fixed_digest.srp_libs_axioms acc r find])
  obtain rs s2 where rs: "realms demo_env ?s = (rs, s2)" by fastforce
  then have rs1: "rs = [\<lparr>rl_id = 1, rl_name = ascii ''R'', rl_realm_type = RT_PVP, rl_build = 12340,
      rl_external_address = ascii ''a'', rl_local_address = [], rl_local_subnet_mask = [], rl_port = 80,
      rl_flags = 0, rl_timezone = 1, rl_population = 0\<rparr>]"
    using acc
    by (simp add: realms_def select_realms_def complete_login_def update_session_def demo_start_def demo_env_def demo_db_def
        demo_realm_def row_realm_def RealmType_decode_def Let_def)
  let ?es = "map (\<lambda>r. from_realm r 0 False) rs"
  have es: "list_all (str_ok \<circ> RealmEntry_sval) ?es" "length (entries_bytes ?es) + 16 < 2 ^ 16"
    by (simp_all add: rs1 from_realm_def RealmEntry_sval_def ascii_def dec_str.simps entries_bytes_def)
  have proof2: "rp_client_proof demo_reproof =
      sha1 fixed_digest_lib (ar_username demo_arlyon @ rp_proof_data demo_reproof @ (replicate 16 1) @ k)"
    using k by (simp add: demo_reproof_def demo_arlyon_def fixed_digest_sha1 ascii_def)
  have "connect_loop (mysql_server fixed_digest_lib True (\<lambda>_. demo_env) (\<lambda>_. replicate 16 1)) 0 RS_Start
      ?s demo_returning_client = (Err (SE_Packet (IoRead UnexpectedEof)), s2,
      demo_returning_client\<lparr>tcp_in := [], tcp_out := tcp_out demo_returning_client @ reconnect_bytes (replicate 16 1) @
        reproof_bytes @ realmlist_bytes ?es\<rparr>)"
    by (rule login_then_reconnect [OF fixed_digest.libs_axioms acc r find _ refl _ proof2 rs refl es,
          where q = "\<lparr>rq_data = [0, 0, 0, 0]\<rparr>" and r = demo_reconnect])
      (use demo_wf(1) in \<open>simp_all add: demo_env_def demo_arlyon_def demo_reconnect_def ConnectRequest_wf_def
        ReconnectProof_wf_def demo_reproof_def RealmListRequest_wf_def demo_returning_client_def demo_request_def ascii_def\<close>)
  moreover have "tcp_out demo_returning_client = []" by (simp add: demo_returning_client_def)
  ultimately show ?thesis unfolding demo_returning_server_def by auto
qed

end
