(* ===== verification/Account_Machine.thy ===== *)
theory Account_Machine
  imports Graphql_Api Auth_Session "HOL-Library.Sublist"
begin

text \<open>
  The abstract specification of what a process of the authentication server does to its accounts: a
  machine whose steps register an account, store a session key that a proof has earned, or add a
  ban. The connections of the server run beside the task that stores the status of the realms and
  the administrative interface; a request or a status update that another task has served before
  the operation of a message is part of the surroundings of that message
  (\<open>beside\<close>). The locale \<open>kept\<close> lifts what the operations of the services keep to the loop of a
  connection and to the loop over the connections, and is interpreted on the process with the
  machine's runs as what is kept. Consequences of the machine are invariants of the process.
\<close>

section \<open>The machine\<close>

definition credentials :: "account_row \<Rightarrow> AccountId \<times> rstr \<times> bytes \<times> bytes" where
  "credentials r = (ar_id r, ar_username r, ar_salt r, ar_verifier r)"

text \<open>A row after a login: as it was, or with the same credentials and the key of the login.\<close>

definition key_row :: "bytes \<Rightarrow> account_row \<Rightarrow> account_row \<Rightarrow> bool" where
  "key_row k r r' \<longleftrightarrow> r' = r \<or> credentials r' = credentials r \<and> ar_session_key_auth r' = Some k"

type_synonym accounts = "account_row list \<times> ban_row list"

inductive account_step :: "lib \<Rightarrow> accounts \<Rightarrow> accounts \<Rightarrow> bool" for L where
  register: "account_step L (rs, bs) (rs @ [r], bs)"
    if "from_credentials L (ar_username r) password (ar_salt r) = (Ok (ar_verifier r) :: (AccountOpError, bytes) res)"
      and "length (ar_salt r) = 32" and "length (ar_username r) \<le> 16" and "ar_session_key_auth r = None"
| login: "account_step L (rs, bs) (rs', bs)"
    if "connect_accept L t pk pr = Ok (m, k)" and "list_all2 (key_row k) rs rs'"
| ban: "account_step L (rs, bs) (rs, bs @ [b])"

text \<open>The tables of the database the machine speaks of, and its runs between two databases.\<close>

definition account_tables :: "auth_db \<Rightarrow> accounts" where
  "account_tables db = (db_account db, db_account_banned db)"

abbreviation account_run :: "lib \<Rightarrow> auth_db \<Rightarrow> auth_db \<Rightarrow> bool" where
  "account_run L db db' \<equiv> (account_step L)\<^sup>*\<^sup>* (account_tables db) (account_tables db')"

text \<open>
  What the machine keeps: no account is lost or changes its name, salt or verifier, no ban is
  lifted, and the sizes of the stored values stay those the decoding asks for.
\<close>

lemma key_rows_credentials:
  "list_all2 (key_row k) rs rs' \<Longrightarrow> map credentials rs' = map credentials rs"
  by (induction rule: list_all2_induct) (auto simp: key_row_def)

lemma account_steps_extend:
  "(account_step L)\<^sup>*\<^sup>* x y \<Longrightarrow>
     prefix (map credentials (fst x)) (map credentials (fst y)) \<and> prefix (snd x) (snd y)"
proof (induction rule: rtranclp_induct)
  case (step y z)
  from step(2) have "prefix (map credentials (fst y)) (map credentials (fst z)) \<and> prefix (snd y) (snd z)"
    by cases (simp_all add: key_rows_credentials)
  with step(3) show ?case by (meson prefix_order.trans)
qed simp

lemma account_step_wf:
  assumes "srp_libs L" and "account_step L x y" and "\<forall>r \<in> set (fst x). account_row_wf r"
  shows "\<forall>r \<in> set (fst y). account_row_wf r"
  using assms(2)
proof cases
  case (register r password rs bs)
  have "length (ar_verifier r) = 32"
    using register(3) by (auto simp: from_credentials_def Let_def res_simps)
  with register assms(3) show ?thesis by (auto simp: account_row_wf_def)
next
  case (login t pk pr m k rs rs' bs)
  have k: "length k = 40" using login(3) by (rule accepted_key_length [OF assms(1)])
  have "account_row_wf r'" if "key_row k r r'" "account_row_wf r" for r r'
    using that k by (auto simp: key_row_def account_row_wf_def credentials_def)
  with login assms(3) show ?thesis by (metis fst_conv in_set_conv_nth list_all2_conv_all_nth)
next
  case (ban rs bs b)
  with assms(3) show ?thesis by simp
qed

lemma account_steps_wf:
  assumes "srp_libs L"
  shows "(account_step L)\<^sup>*\<^sup>* x y \<Longrightarrow> \<forall>r \<in> set (fst x). account_row_wf r \<Longrightarrow> \<forall>r \<in> set (fst y). account_row_wf r"
  by (induction rule: rtranclp_induct) (auto dest: account_step_wf [OF assms])

section \<open>What a connection keeps\<close>

text \<open>
  The contract a client of the services relies on when it reasons about their state: none of the
  operations the server calls leaves the set of states \<open>P\<close>.
\<close>

locale kept =
  fixes E :: "nat \<Rightarrow> 's server_env" and P :: "'s \<Rightarrow> bool"
  assumes initiate_login_kept: "P s \<Longrightarrow> P (snd (as_initiate_login (se_accounts (E i)) rng u s))"
    and complete_login_kept: "P s \<Longrightarrow> P (snd (as_complete_login (se_accounts (E i)) t pk pr s))"
    and initiate_relogin_kept: "P s \<Longrightarrow> P (snd (as_initiate_relogin (se_accounts (E i)) rng u s))"
    and complete_relogin_kept: "P s \<Longrightarrow> P (snd (as_complete_relogin (se_accounts (E i)) rt pk pr s))"
    and realms_kept: "P s \<Longrightarrow> P (snd (rs_realms (se_realms (E i)) s))"
begin

lemma send_challenge_state: "fst (snd (send_challenge L t s c)) = s"
  by (simp add: send_challenge_def Let_def split: option.splits)

lemma handlers_kept:
  assumes "P s"
  shows "P (fst (snd (handle_connect_request (E i) r s c)))"
    and "P (fst (snd (handle_reconnect_request (E i) r s c)))"
    and "P (fst (snd (handle_connect_proof (E i) p t s c)))"
    and "P (fst (snd (handle_reconnect_proof (E i) p' t' s c)))"
    and "P (fst (snd (handle_realmlist (E i) s c)))"
  using assms initiate_login_kept [OF assms, of i] initiate_relogin_kept [OF assms, of i]
    complete_login_kept [OF assms, of i] complete_relogin_kept [OF assms, of i] realms_kept [OF assms, of i]
  by (auto simp: handle_connect_request_def handle_reconnect_request_def handle_connect_proof_def
      handle_reconnect_proof_def handle_realmlist_def Let_def send_challenge_state
      split: prod.splits res.splits option.splits)
    (metis snd_conv)+

lemma connect_step_kept: "P s \<Longrightarrow> P (fst (snd (connect_step (E i) st m s c)))"
  by (auto simp: connect_step_def handlers_kept split: Message.splits RequestState.splits)

lemma connect_loop_kept: "P s \<Longrightarrow> P (fst (snd (connect_loop E i st s c)))"
proof (induction "in_size (tcp_in c)" arbitrary: i st s c rule: less_induct)
  case less
  show ?case
  proof (cases "\<exists>m evs. read_packet (se_lib (E i)) (tcp_in c) = (Ok m, evs)")
    case False
    with less(2) show ?thesis by (subst connect_loop.simps) (auto split: prod.splits res.splits)
  next
    case True
    then obtain m evs where m: "read_packet (se_lib (E i)) (tcp_in c) = (Ok m, evs)" by blast
    obtain q s1 c1 where q: "connect_step (E i) st m s (c\<lparr>tcp_in := evs\<rparr>) = (q, s1, c1)"
      using prod_cases3 by blast
    have s1: "P s1" using connect_step_kept [OF less(2), of i st m "c\<lparr>tcp_in := evs\<rparr>"] q by simp
    have "in_size (tcp_in c1) < in_size (tcp_in c)"
      using connect_step_decr [OF m [symmetric] q [symmetric]] .
    with less(1) [OF _ s1] m q s1 show ?thesis
      by (subst connect_loop.simps)
        (auto simp: send_rejection_def split: res.splits RequestState.splits option.splits prod.splits)
  qed
qed

end

text \<open>The accept loop keeps what every accepted connection keeps.\<close>

lemma authentication_kept:
  assumes "\<forall>E c. Accepted E c \<in> set cs \<longrightarrow> kept E P"
  shows "P s \<Longrightarrow> P (fst (snd (authentication cs s)))"
  using assms
proof (induction cs arbitrary: s)
  case (Cons x cs)
  show ?case
  proof (cases x)
    case (Accepted E c)
    obtain r s1 c1 where r: "connect_loop E 0 RS_Start s c = (r, s1, c1)" using prod_cases3 by blast
    have "kept E P" using Cons(3) Accepted by simp
    from kept.connect_loop_kept [OF this Cons(2), of 0 RS_Start c] have "P s1" by (simp add: r)
    moreover have "P (fst (snd (authentication cs s1)))"
      by (rule Cons(1) [OF \<open>P s1\<close>]) (use Cons(3) in simp)
    ultimately show ?thesis using Accepted r by (cases r) (simp_all add: split_beta)
  qed (use Cons(2) in simp)
qed simp

section \<open>The other tasks\<close>

text \<open>
  The fields of a request to the interface, as the schema resolves them, with the values they
  resolve to. The random bytes of a registration are drawn when it is served.
\<close>

datatype api_field =
    RegisterUser bytes UserCreate
  | SetBanStatus u32 "u64 option" "rstr option"
  | GetUsers
  | GetUser rstr
  | GetRealms

datatype api_value =
    V_id "(AccountOpError, u32) res"
  | V_bool "(AccountOpError, bool) res"
  | V_users "(AccountFetchError, account_view list) res"
  | V_user "(AccountOpError, account_view option) res"
  | V_realms "realm_view list"

fun resolve :: "lib \<Rightarrow> bool \<Rightarrow> db_env \<Rightarrow> api_field \<Rightarrow> mysql_state \<Rightarrow> api_value \<times> mysql_state" where
  "resolve L chk D (RegisterUser rng user) s =
     (case register_user (mysql_admin L D) rng user (my_db s) of (r, db) \<Rightarrow> (V_id r, s\<lparr>my_db := db\<rparr>))"
| "resolve L chk D (SetBanStatus i duration reason) s =
     (case set_ban_status (mysql_admin L D) chk i duration reason (my_db s) of (r, db) \<Rightarrow> (V_bool r, s\<lparr>my_db := db\<rparr>))"
| "resolve L chk D GetUsers s = (V_users (get_users (mysql_admin L D) (my_db s)), s)"
| "resolve L chk D (GetUser username) s = (V_user (get_user (mysql_admin L D) username (my_db s)), s)"
| "resolve L chk D GetRealms s = (case get_realms (mysql_realms D) s of (xs, s1) \<Rightarrow> (V_realms xs, s1))"

text \<open>One action of another task: a field of a request, or a status update of the realms.\<close>

datatype other_task = Api db_env api_field | Status db_env "(u8 \<times> RealmFlags) list"

fun perform :: "lib \<Rightarrow> bool \<Rightarrow> other_task \<Rightarrow> mysql_state \<Rightarrow> mysql_state" where
  "perform L chk (Api D f) s = snd (resolve L chk D f s)"
| "perform L chk (Status D online) s = snd (update_status D online s)"

text \<open>The services as a connection finds them when \<open>g\<close> has been done to their state before.\<close>

definition after :: "('d \<Rightarrow> 'd) \<Rightarrow> 'd account_ops \<Rightarrow> 'd account_ops" where
  "after g svc = \<lparr>
     as_initiate_login = (\<lambda>rng u s. as_initiate_login svc rng u (g s)),
     as_complete_login = (\<lambda>t pk pr s. as_complete_login svc t pk pr (g s)),
     as_initiate_relogin = (\<lambda>rng u s. as_initiate_relogin svc rng u (g s)),
     as_complete_relogin = (\<lambda>t pk pr s. as_complete_relogin svc t pk pr (g s))\<rparr>"

definition beside :: "('s \<Rightarrow> 's) \<Rightarrow> 's server_env \<Rightarrow> 's server_env" where
  "beside g E = E\<lparr>se_accounts := after g (se_accounts E),
     se_realms := (se_realms E)\<lparr>rs_realms := (\<lambda>s. rs_realms (se_realms E) (g s))\<rparr>\<rparr>"

text \<open>
  A service whose state others change between its operations keeps its contract; a name is barred
  when it is at the moment of the operation.
\<close>

locale disturbed_service = account_service L svc barred for L and svc :: "'d account_ops" and barred +
  fixes g :: "'d \<Rightarrow> 'd"

sublocale disturbed_service \<subseteq> disturbed: account_service L "after g svc" "\<lambda>u d. barred u (g d)"
  using complete_login_accepts complete_relogin_accepts initiate_login_token initiate_login_barred initiate_relogin_nonce
  by unfold_locales (simp_all add: after_def)

interpretation mysql_disturbed: disturbed_service L "shared_accounts (mysql_accounts L D)"
  "\<lambda>u s. name_barred D u (my_db s)" g for L D g
  by unfold_locales

definition process_server ::
  "lib \<Rightarrow> bool \<Rightarrow> (nat \<Rightarrow> db_env) \<Rightarrow> (nat \<Rightarrow> bytes) \<Rightarrow> (nat \<Rightarrow> other_task list) \<Rightarrow> nat \<Rightarrow> mysql_state server_env" where
  "process_server L chk Ev rng others i =
     beside (fold (perform L chk) (others i)) (mysql_server L chk Ev rng i)"

section \<open>The process refines the machine\<close>

lemma create_account_refines:
  assumes "length rng = 32" and "ar_session_key_auth (ev_account_defaults D) = None"
  shows "account_run L db (snd (create_account L D rng username password email db))"
proof (cases "snd (create_account L D rng username password email db) = db")
  case False
  let ?row = "\<lambda>v. (ev_account_defaults D)\<lparr>ar_id := ucast (ev_last_insert_id D), ar_username := to_ascii_uppercase username,
     ar_salt := rng, ar_verifier := v, ar_reg_mail := email, ar_email := email, ar_joindate := ev_db_time D\<rparr>"
  from False obtain v where v: "from_credentials L (to_ascii_uppercase username) (to_ascii_uppercase password) rng =
        (Ok v :: (AccountOpError, bytes) res)" "length username \<le> 16"
    and db: "account_tables (snd (create_account L D rng username password email db)) =
      (db_account db @ [?row v], db_account_banned db)"
    by (auto simp: create_account_def Let_def srp_register_def res_simps account_tables_def
        split: if_splits res.splits option.splits)
  have "account_step L (account_tables db) (db_account db @ [?row v], db_account_banned db)"
    unfolding account_tables_def
    using v assms by (intro account_step.register) (simp_all add: to_ascii_uppercase_def)
  then show ?thesis by (simp add: db)
qed simp

lemma set_ban_refines: "account_run L db (snd (set_ban D account author duration reason db))"
proof (cases "snd (set_ban D account author duration reason db) = db")
  case False
  then obtain b where "account_tables (snd (set_ban D account author duration reason db)) =
      (db_account db, db_account_banned db @ [b])"
    by (auto simp: set_ban_def Let_def account_tables_def split: option.splits)
  then show ?thesis by (auto simp: account_tables_def intro: account_step.ban)
qed simp

lemma complete_login_refines: "account_run L db (snd (complete_login L D t pk pr db))"
proof (cases "snd (complete_login L D t pk pr db) = db")
  case False
  then obtain m k where k: "connect_accept L t pk pr = Ok (m, k)"
    and db: "snd (complete_login L D t pk pr db) = update_session D session_username k db"
    by (auto simp: complete_login_def split: res.splits option.splits)
  have "account_step L (account_tables db) (account_tables (update_session D session_username k db))"
    unfolding account_tables_def update_session_def
    by (simp, rule account_step.login [OF k]) (auto simp: key_row_def credentials_def list_all2_map2 intro!: list.rel_refl)
  then show ?thesis by (simp add: db)
qed simp

lemma set_ban_status_refines: "account_run L db (snd (set_ban_status (mysql_admin L D) chk i duration reason db))"
  using set_ban_refines [of L db D i "ascii ''arlyon''" _ reason]
  by (auto simp: set_ban_status_def mysql_admin_def split: prod.splits res.splits option.splits) (metis snd_conv)+

lemma update_rows_accounts: "account_tables (snd (update_rows D n online db)) = account_tables db"
  by (induction D n online db rule: update_rows.induct)
    (simp_all add: account_tables_def upsert_flag_def split: option.splits)

lemma realms_db: "my_db (snd (realms D s)) = my_db s"
  by (simp add: realms_def Let_def split: res.splits)

text \<open>
  An action of another task as it can occur: a registration draws 32 bytes of salt, and the
  database gives a new account no session key.
\<close>

fun action_ok :: "other_task \<Rightarrow> bool" where
  "action_ok (Api D (RegisterUser rng user)) \<longleftrightarrow> length rng = 32 \<and> ar_session_key_auth (ev_account_defaults D) = None"
| "action_ok _ \<longleftrightarrow> True"

lemma perform_refines: "action_ok a \<Longrightarrow> account_run L (my_db s) (my_db (perform L chk a s))"
proof (induction a rule: action_ok.induct)
  case (1 D rng user)
  with create_account_refines [of rng D L "my_db s"] show ?case
    by (simp add: register_user_def mysql_admin_def split_beta)
qed (simp_all add: set_ban_status_refines get_realms_def mysql_realms_def realms_db update_status_def
    update_rows_accounts split_beta)

lemma performs_refine: "list_all action_ok as \<Longrightarrow> account_run L (my_db s) (my_db (fold (perform L chk) as s))"
proof (induction as arbitrary: s)
  case (Cons a as)
  have "account_run L (my_db s) (my_db (perform L chk a s))" using Cons(2) by (simp add: perform_refines)
  moreover have "account_run L (my_db (perform L chk a s)) (my_db (fold (perform L chk) as (perform L chk a s)))"
    using Cons by simp
  ultimately show ?case by (simp add: rtranclp_trans)
qed simp

text \<open>The runs of the machine from a given database are what a connection of the process keeps.\<close>

interpretation process: kept "process_server L chk Ev rng others"
  "\<lambda>s :: mysql_state. (\<forall>i. list_all action_ok (others i)) \<longrightarrow> account_run L db0 (my_db s)" for L chk Ev rng others db0
proof
  let ?P = "\<lambda>s :: mysql_state. (\<forall>i. list_all action_ok (others i)) \<longrightarrow> account_run L db0 (my_db s)"
  fix s i
  assume s: "?P s"
  let ?g = "fold (perform L chk) (others i)" and ?E = "process_server L chk Ev rng others i"
  have g: "?P (?g s)" using s performs_refine [of "others i" L s chk] by (meson rtranclp_trans)
  show "?P (snd (as_complete_login (se_accounts ?E) t pk pr s))" for t pk pr
    using g complete_login_refines [of L "my_db (?g s)" "Ev i" t pk pr]
    by (simp add: process_server_def beside_def after_def mysql_server_accounts on_db_def) (meson rtranclp_trans)
  show "?P (snd (as_initiate_login (se_accounts ?E) r u s))" "?P (snd (as_initiate_relogin (se_accounts ?E) r u s))"
    "?P (snd (as_complete_relogin (se_accounts ?E) rt pk pr s))" "?P (snd (rs_realms (se_realms ?E) s))" for r u rt pk pr
    using g by (simp_all add: process_server_def beside_def after_def mysql_server_accounts realms_db)
qed

text \<open>
  The actions of the other tasks do not help a connection: its realm list still needs a proof, for
  a challenge issued while the name was not barred.
\<close>

lemma process_realmlist_needs_proof:
  assumes "session (process_server L chk Ev rng others) s0 c0 h (n, RS_Realmlist, s, c)"
  shows "logged_in L (process_server L chk Ev rng others)
      (\<lambda>i u s. name_barred (Ev i) u (my_db (fold (perform L chk) (others i) s))) h \<or>
    reconnected L (process_server L chk Ev rng others) h"
proof -
  have "account_service L (se_accounts (process_server L chk Ev rng others i))
      (\<lambda>u s. name_barred (Ev i) u (my_db (fold (perform L chk) (others i) s)))" for i
    by (simp add: process_server_def beside_def mysql_server_def mysql_disturbed.disturbed.account_service_axioms)
  from session_keeps_inv [OF this assms] show ?thesis by (simp add: session_inv_def)
qed

text \<open>The connections of a process, each with its own run of the other tasks beside it.\<close>

definition of_process :: "lib \<Rightarrow> bool \<Rightarrow> mysql_state conn \<Rightarrow> bool" where
  "of_process L chk x \<longleftrightarrow>
     (\<forall>E c. x = Accepted E c \<longrightarrow>
        (\<exists>Ev rng others. (\<forall>i. list_all action_ok (others i)) \<and> E = process_server L chk Ev rng others))"

lemma authentication_refines:
  assumes "\<forall>x \<in> set cs. of_process L chk x"
  shows "account_run L (my_db s) (my_db (fst (snd (authentication cs s))))"
proof (rule authentication_kept [where P = "\<lambda>s'. account_run L (my_db s) (my_db s')"])
  have "kept E (\<lambda>s'. account_run L (my_db s) (my_db s'))" if x: "Accepted E c \<in> set cs" for E c
  proof -
    from assms x obtain Ev rng others where ok: "\<forall>i. list_all action_ok (others i)"
      and E: "E = process_server L chk Ev rng others"
      by (fastforce simp: of_process_def)
    with process.kept_axioms [of L chk Ev rng others "my_db s"] show ?thesis by simp
  qed
  then show "\<forall>E c. Accepted E c \<in> set cs \<longrightarrow> kept E (\<lambda>s'. account_run L (my_db s) (my_db s'))" by blast
qed simp

section \<open>Properties\<close>

text \<open>A connection of a process in which an account is registered before each of its messages.\<close>

definition demo_process :: "mysql_state conn" where
  "demo_process = Accepted (process_server fixed_digest_lib True (\<lambda>_. demo_env) (\<lambda>_. replicate 31 0 @ [1])
     (\<lambda>_. [Api demo_env (RegisterUser (replicate 32 0) \<lparr>uc_username = ascii ''b'', uc_email = [], uc_password = ascii ''t''\<rparr>)]))
     demo_client"

lemma demo_of_process: "\<forall>x \<in> set [demo_process]. of_process fixed_digest_lib True x"
  by (auto simp: demo_process_def of_process_def demo_env_def demo_row_def)
    (rule exI, rule exI, rule exI, rule conjI [rotated], rule refl, simp)

text \<open>
  C6. A process of the authentication server refines the account machine. Whatever clients connect,
  whatever they send, and whichever requests to the interface and status updates are served between
  their messages, the tables of accounts and bans are afterwards where a run of the machine leads:
  accounts registered with the verifier of a password, keys stored for an accepted proof, bans added.
\<close>

theorem process_refines_account_machine:
  assumes "\<forall>x \<in> set cs. of_process L chk x" and "authentication cs s = (r, s', out)"
  shows "(account_step L)\<^sup>*\<^sup>* (account_tables (my_db s)) (account_tables (my_db s'))"
  using authentication_refines [OF assms(1), of s] assms(2) by simp

theorem process_refines_account_machine_witness:
  "(account_step fixed_digest_lib)\<^sup>*\<^sup>* (account_tables (my_db demo_start))
     (account_tables (my_db (fst (snd (authentication [demo_process, AcceptError] demo_start)))))"
proof -
  have "\<forall>x \<in> set [demo_process, AcceptError]. of_process fixed_digest_lib True x"
    using demo_of_process by (simp add: of_process_def)
  from process_refines_account_machine [OF this, of demo_start] show ?thesis by (metis prod.collapse)
qed

text \<open>
  C12. What no client and no request can do: after any such run every account that was stored is there, in its
  place and with its name, salt and verifier, every ban is still there, and the sizes of the salts,
  verifiers and session keys are those the decoding asks for, so that every account, old or new,
  can be read back.
\<close>

theorem process_keeps_accounts:
  assumes "srp_libs L" and "accounts_wf (my_db s)"
    and "\<forall>x \<in> set cs. of_process L chk x" and "authentication cs s = (r, s', out)"
  shows "accounts_wf (my_db s') \<and> (\<forall>x \<in> set (db_account (my_db s')). \<exists>a. row_account D x = Ok a) \<and>
    prefix (map credentials (db_account (my_db s))) (map credentials (db_account (my_db s'))) \<and>
    prefix (db_account_banned (my_db s)) (db_account_banned (my_db s'))"
proof -
  have run: "account_run L (my_db s) (my_db s')" using authentication_refines [OF assms(3), of s] assms(4) by simp
  have "accounts_wf (my_db s')"
    using account_steps_wf [OF assms(1) run] assms(2) by (simp add: accounts_wf_def account_tables_def)
  with account_steps_extend [OF run] show ?thesis
    by (auto simp: account_tables_def accounts_wf_def intro: row_account_wf)
qed

theorem process_keeps_accounts_witness:
  "accounts_wf (my_db (fst (snd (authentication [demo_process] demo_start)))) \<and>
   prefix [credentials demo_row] (map credentials (db_account (my_db (fst (snd (authentication [demo_process] demo_start))))))"
proof -
  have wf: "accounts_wf (my_db demo_start)"
    by (simp add: demo_start_def accounts_wf_def account_row_wf_def demo_row_def)
  have "map credentials (db_account (my_db demo_start)) = [credentials demo_row]" by (simp add: demo_start_def)
  with process_keeps_accounts [OF fixed_digest.srp_libs_axioms wf demo_of_process] show ?thesis
    by (metis prod.collapse)
qed

end
