(* ===== verification/Character_Machine.thy ===== *)
theory Character_Machine
  imports World_Server
begin

text \<open>
  The abstract specification of what the world server does to the characters: a machine whose state
  is the list of characters and whose steps create one or delete one. The locale
  \<open>keyed_character_service\<close> adds to the contract of the character service that an identifier is
  never given twice, and the refinement is proved in it, packet by packet; it is interpreted on the
  database. The invariant of the characters is then an invariant of the machine, by induction over
  its steps, and holds for every run of the server.
\<close>

section \<open>The machine\<close>

inductive char_step :: "(rstr \<Rightarrow> rstr \<Rightarrow> bool) \<Rightarrow> Character list \<Rightarrow> Character list \<Rightarrow> bool"
  for same :: "rstr \<Rightarrow> rstr \<Rightarrow> bool" where
  create: "char_step same cs (cs @ [c])"
    if "\<forall>x \<in> set cs. \<not> same (ch_name x) (ch_name c)" and "ch_id c \<notin> ch_id ` set cs"
      and "name_fault (ch_name c) = None" and "ch_level c = 1"
| delete: "char_step same cs (filter (\<lambda>c. ch_id c \<noteq> i) cs)"

inductive_cases char_stepE: "char_step same cs cs'"

text \<open>
  The invariant: identifiers are given once, no two names are the same to the database, and every
  name is in its proper form.
\<close>

definition characters_wf :: "(rstr \<Rightarrow> rstr \<Rightarrow> bool) \<Rightarrow> Character list \<Rightarrow> bool" where
  "characters_wf same cs =
     (distinct (map ch_id cs) \<and> sorted_wrt (\<lambda>x y. \<not> same (ch_name x) (ch_name y)) cs \<and>
      (\<forall>c \<in> set cs. name_fault (ch_name c) = None))"

lemma characters_wf_step: "char_step same cs cs' \<Longrightarrow> characters_wf same cs \<Longrightarrow> characters_wf same cs'"
  by (induction rule: char_step.induct)
    (auto simp: characters_wf_def sorted_wrt_append sorted_wrt_filter distinct_map_filter)

lemma characters_wf_steps:
  "(char_step same)\<^sup>*\<^sup>* cs cs' \<Longrightarrow> characters_wf same cs \<Longrightarrow> characters_wf same cs'"
  by (induction rule: rtranclp_induct) (auto intro: characters_wf_step)

section \<open>The refinement\<close>

locale keyed_character_service = character_service +
  assumes create_fresh: "ck_create_character svc low a create k = (Ok (), k') \<Longrightarrow>
    WowId_new Player low 0 \<notin> ch_id ` set (abs k)"
begin

lemma handle_packet_refines:
  assumes "we_chars E = svc" and "handle_packet E p s k = (r, s', k')"
  shows "abs k' = abs k \<or> char_step same_name (abs k) (abs k')"
proof (cases p)
  case (CP_CharacterDelete i)
  with handle_delete_outcome [OF assms(1)] assms(2) show ?thesis
    by (metis char_step.delete)
next
  case (CP_CharacterCreate name ra cl ge sk fa hs hc fs)
  show ?thesis
  proof (cases "abs k' = abs k")
    case False
    let ?c = "\<lambda>a. new_character (we_rng E) a \<lparr>cn_name = name, cn_race = ra, cn_class = cl, cn_gender = ge,
      cn_skin_color = sk, cn_face = fa, cn_hair_style = hs, cn_hair_color = hc, cn_facial_style = fs, cn_zone = 1,
      cn_map = 0, cn_position_x = 0xC5C3028F, cn_position_y = 0x43A58439, cn_position_z = 0x43BF6106\<rparr>"
    from False assms CP_CharacterCreate obtain a q where a: "ck_name_available svc name k = Ok True"
        "name_fault name = None"
        "ck_create_character svc (we_rng E) a \<lparr>cn_name = name, cn_race = ra, cn_class = cl, cn_gender = ge,
          cn_skin_color = sk, cn_face = fa, cn_hair_style = hs, cn_hair_color = hc, cn_facial_style = fs, cn_zone = 1,
          cn_map = 0, cn_position_x = 0xC5C3028F, cn_position_y = 0x43A58439, cn_position_z = 0x43BF6106\<rparr> k = (q, k')"
      by (auto simp: handle_char_create_def dest: answer_keeps split: res.splits option.splits prod.splits if_splits)
    from create_refines [OF a(3)] False have "q = Ok ()" and k': "abs k' = abs k @ [?c a]" by auto
    with create_fresh a name_available_Ok [OF a(1)] have "char_step same_name (abs k) (abs k @ [?c a])"
      by (intro char_step.create) (auto simp: new_character_def)
    with k' show ?thesis by simp
  qed simp
qed (use assms in \<open>auto simp: handler_defs dest: answer_keeps split: option.splits res.splits\<close>)

lemma handle_one_refines:
  assumes "we_chars E = svc" and "handle_one E ip w = (r, w')"
  shows "(char_step same_name)\<^sup>*\<^sup>* (abs (wo_chars w)) (abs (wo_chars w'))"
  using assms handle_packet_refines [OF assms(1)]
  by (fastforce simp: handle_one_def split: prod.splits option.splits)

end

interpretation mysql_keyed: keyed_character_service "mysql_characters E" char_rows "ce_text_eq E" for E
proof
  show "ck_create_character (mysql_characters E) low a create k = (Ok (), k') \<Longrightarrow>
      WowId_new Player low 0 \<notin> ch_id ` set (char_rows k)" for low a create k k'
    by (auto simp: mysql_characters_def char_create_def new_character_def Let_def list_ex_iff
        split: option.splits if_splits)
qed

section \<open>Runs of the server\<close>

text \<open>
  An environment over the database: its faults may change from packet to packet, but which names
  are the same does not.
\<close>

definition db_env :: "(rstr \<Rightarrow> rstr \<Rightarrow> bool) \<Rightarrow> ('c, char_db) world_env \<Rightarrow> bool" where
  "db_env same E \<longleftrightarrow> (\<exists>D. we_chars E = mysql_characters D \<and> ce_text_eq D = same)"

abbreviation world_chars :: "('c, char_db) World \<Rightarrow> Character list" where
  "world_chars w \<equiv> char_rows (wo_chars w)"

abbreviation char_run_to :: "(rstr \<Rightarrow> rstr \<Rightarrow> bool) \<Rightarrow> ('c, char_db) World \<Rightarrow> ('c, char_db) World \<Rightarrow> bool" where
  "char_run_to same w w' \<equiv> (char_step same)\<^sup>*\<^sup>* (world_chars w) (world_chars w')"

lemma handle_queue_refines:
  assumes "\<And>n. db_env same (E n)"
  shows "handle_queue E n ips w = (r, w') \<Longrightarrow> char_run_to same w w'"
proof (induction ips arbitrary: n w)
  case (Cons ip ips)
  obtain q w1 where q: "handle_one (E n) ip w = (q, w1)" by fastforce
  obtain D where D: "we_chars (E n) = mysql_characters D" "ce_text_eq D = same"
    using assms [of n] by (auto simp: db_env_def)
  have "char_run_to same w w1" using mysql_keyed.handle_one_refines [OF D(1) q] D(2) by simp
  with Cons(2) q Cons.IH [of "Suc n" w1] show ?case by (cases q) (auto intro: rtranclp_trans)
qed auto

lemma pipe_packets_chars [simp]: "wo_chars (pipe_packets E i ps w) = wo_chars w"
proof (induction ps arbitrary: w)
  case (Cons p ps)
  have "wo_chars (pipe_packet E i p w) = wo_chars w"
    by (simp add: pipe_packet_def receive_packet_def split: option.splits)
  with Cons [of "pipe_packet E i p w"] show ?case by (simp add: pipe_packets_def)
qed (simp add: pipe_packets_def)

lemma handle_some_refines:
  assumes "\<And>n. db_env same (E n)" and "handle_some E m w = (r, w')"
  shows "char_run_to same w w'"
  using assms(2) handle_queue_refines [where E = E and n = 0 and ips = "take m (wo_queue w)" and w = w, OF assms(1)]
  by (auto simp: handle_some_def split: prod.splits)

lemma session_loop_refines:
  assumes "\<And>n m. db_env same (E n m)" and "session_loop E sched n i ps evs w = (r, w')"
  shows "char_run_to same w w'"
proof (rule session_loop_invariant [OF _ _ assms(2), of "char_run_to same w"])
  show "char_run_to same w w2"
    if "char_run_to same w w1" and "handle_some (E n) (sched n) (pipe_packets (E n 0) i ps w1) = (q, w2)"
    for n ps w1 q w2
    using handle_some_refines [OF assms(1) that(2)] that(1) by (auto intro: rtranclp_trans)
qed simp_all

lemma handle_auth_session_chars:
  assumes "handle_auth_session E accounts realm seed wr client a w = (q, client1, w1)"
  shows "wo_chars w1 = wo_chars w"
  using assms
  by (auto simp: handle_auth_session_def Let_def create_session_def
      split: if_splits res.splits option.splits prod.splits)

lemma authenticate_client_chars:
  assumes "authenticate_client E accounts i evs wr v = (r, evs', wr', v')"
  shows "wo_chars (ws_world v') = wo_chars (ws_world v)"
  using assms
  by (auto simp: authenticate_client_def Let_def dest: handle_auth_session_chars
      split: prod.splits res.splits list.splits ClientPacket.splits option.splits)

lemma connect_loop_refines:
  assumes "\<And>n m. db_env same (co_env c n m)" and "world_connect_loop c wr v = (r, wr', v')"
  shows "char_run_to same (ws_world v) (ws_world v')"
proof -
  obtain q evs wr1 v1 where q: "authenticate_client (co_env c 0 0) (co_accounts c) (co_id c) (co_in c) wr v = (q, evs, wr1, v1)"
    using prod_cases4 by blast
  note v1 = authenticate_client_chars [OF q]
  show ?thesis
  proof (cases q)
    case (Ok packets)
    obtain x w where x: "session_loop (co_env c) (co_sched c) 0 (co_id c) packets evs (ws_world v1) = (x, w)" by fastforce
    with q Ok assms(2) have "ws_world v' = w" by (auto simp: world_connect_loop_def)
    with session_loop_refines [OF assms(1) x] v1 show ?thesis by simp
  qed (use assms(2) q v1 in \<open>auto simp: world_connect_loop_def\<close>)
qed

lemma accept_one_refines:
  assumes "\<And>n m. db_env same (co_env c n m)" and "accept_one c v = (r, wr, v')"
  shows "char_run_to same (ws_world v) (ws_world v')"
  using accept_one_world [OF assms(2)]
proof (elim disjE exE)
  fix wr1
  let ?v = "v\<lparr>ws_clients := (ws_clients v)(co_id c \<mapsto> \<lparr>cl_id = co_id c, cl_account = None\<rparr>)\<rparr>"
  obtain q wr2 v2 where q: "world_connect_loop c wr1 ?v = (q, wr2, v2)" using prod_cases3 by blast
  assume "ws_world v' = ws_world (snd (snd (world_connect_loop c wr1 ?v)))"
  with connect_loop_refines [OF assms(1) q] q show ?thesis by simp
qed simp

lemma accept_clients_refines:
  assumes "\<And>c n m. c \<in> set cs \<Longrightarrow> db_env same (co_env c n m)" and "accept_clients cs v = (r, v')"
  shows "char_run_to same (ws_world v) (ws_world v')"
  using assms
proof (induction cs arbitrary: v)
  case (Cons c cs)
  obtain q wr v1 where q: "accept_one c v = (q, wr, v1)" using prod_cases3 by blast
  have "char_run_to same (ws_world v) (ws_world v1)" by (rule accept_one_refines [OF Cons(2) q]) simp
  with Cons q show ?case by (cases q) (auto intro: rtranclp_trans)
qed simp

lemma demo_db_env: "db_env (=) (co_env (demo_connection db) n m)"
  by (auto simp: db_env_def demo_connection_def demo_world_envs_def demo_world_env_def char_demo_env_def)

lemma demo_characters_wf: "characters_wf (=) (char_rows demo_chars)"
proof -
  have "name_fault (ascii ''Thrall'') = None" by code_simp
  then show ?thesis by (simp add: characters_wf_def demo_chars_def char_rows_def)
qed

section \<open>Properties\<close>

text \<open>
  C5. The world server implements the machine of characters: whatever clients connect and send, and
  however the task that handles their packets is scheduled, what a run of the server does to the
  table of characters is a sequence of creations (of a character at level 1, with a fresh identifier and a
  proper name that no character has) and deletions.
\<close>

theorem server_refines_character_machine:
  assumes "\<And>c n m. c \<in> set cs \<Longrightarrow> db_env same (co_env c n m)"
  shows "(char_step same)\<^sup>*\<^sup>* (char_rows (wo_chars (ws_world v)))
    (char_rows (wo_chars (ws_world (snd (accept_clients cs v)))))"
  using accept_clients_refines [OF assms, of cs] by (simp add: prod_eq_iff)

theorem server_refines_character_machine_witness:
  "(char_step (=))\<^sup>*\<^sup>* (char_rows demo_chars)
     (char_rows (wo_chars (ws_world (snd (accept_clients [demo_connection demo_db] (WorldServer_new 1 [1, 2, 3, 4] 0 demo_chars))))))"
  using server_refines_character_machine [of "[demo_connection demo_db]" "(=)" "WorldServer_new 1 [1, 2, 3, 4] 0 demo_chars"]
  by (simp add: demo_db_env WorldServer_new_def with_world_def World_new_def)

text \<open>
  C11. The table of characters stays well-formed: when its identifiers are distinct, its names
  pairwise different to the database and in their proper form, they are so after every run of the server.
\<close>

theorem server_keeps_characters_wf:
  assumes "\<And>c n m. c \<in> set cs \<Longrightarrow> db_env same (co_env c n m)"
    and "characters_wf same (char_rows (wo_chars (ws_world v)))"
  shows "characters_wf same (char_rows (wo_chars (ws_world (snd (accept_clients cs v)))))"
  using characters_wf_steps [OF accept_clients_refines [OF assms(1)] assms(2)] by (simp add: prod_eq_iff)

theorem server_keeps_characters_wf_witness:
  "characters_wf (=) (char_rows (wo_chars (ws_world (snd (accept_clients [demo_connection demo_db]
     (WorldServer_new 1 [1, 2, 3, 4] 0 demo_chars))))))"
  using server_keeps_characters_wf [of "[demo_connection demo_db]" "(=)" "WorldServer_new 1 [1, 2, 3, 4] 0 demo_chars"]
  by (simp add: demo_db_env demo_characters_wf WorldServer_new_def with_world_def World_new_def)

text \<open>
  C17. The life of a character, through the packets of one session: a character created under a free
  and proper name, with a number that is not taken, is in the list of the account's characters then,
  beside the ones that were there and no others (in the order that the database gives them), and deleting
  it by the identifier it has there gives back the table from before, so that the next list holds the old
  characters alone.
\<close>

theorem character_lifecycle:
  assumes "we_chars E = mysql_characters D" and "\<And>q. ce_fault D q = None"
    and "cl_account (ss_client s) = Some a" and "name_fault name = None"
    and "\<forall>c \<in> set (char_rows k). \<not> ce_text_eq D (ch_name c) name \<and> ch_id c \<noteq> WowId_new Player (we_rng E) 0"
  shows "\<exists>c r1 s1 k1 cs1 r2 s2 k2 cs2.
    handle_packet E (CP_CharacterCreate name ra cl ge sk fa hs hc fs) s k = (r1, s1, k1) \<and>
    ch_name c = name \<and> ch_race c = ra \<and> ch_class c = cl \<and> ch_account c = a \<and> ch_level c = 1 \<and>
    handle_packet E CP_CharEnum s1 k1 = answer E (SP_CharEnum (map (\<lambda>c. (c, no_items)) cs1)) s1 k1 \<and>
    mset cs1 = add_mset c (mset (filter (\<lambda>c. ch_account c = a) (char_rows k))) \<and>
    handle_packet E (CP_CharacterDelete (ch_id c)) s1 k1 = (r2, s2, k2) \<and> char_rows k2 = char_rows k \<and>
    handle_packet E CP_CharEnum s2 k2 = answer E (SP_CharEnum (map (\<lambda>c. (c, no_items)) cs2)) s2 k2 \<and>
    mset cs2 = mset (filter (\<lambda>c. ch_account c = a) (char_rows k))"
proof -
  let ?n = "\<lparr>cn_name = name, cn_race = ra, cn_class = cl, cn_gender = ge, cn_skin_color = sk, cn_face = fa,
      cn_hair_style = hs, cn_hair_color = hc, cn_facial_style = fs, cn_zone = 1, cn_map = 0,
      cn_position_x = 0xC5C3028F, cn_position_y = 0x43A58439, cn_position_z = 0x43BF6106\<rparr>"
  let ?c = "new_character (we_rng E) a ?n"
  have c: "ch_id ?c = WowId_new Player (we_rng E) 0" "ch_account ?c = a" "ch_name ?c = name" "ch_race ?c = ra" "ch_class ?c = cl" "ch_level ?c = 1"
    by (simp_all add: new_character_def)
  obtain k1 where k1: "char_create D (we_rng E) a ?n k = (Ok (), k1)" "char_rows k1 = char_rows k @ [?c]"
    using assms(2,5) c(1) by (auto simp: char_create_def Let_def list_ex_iff char_rows_def)
  have avail: "char_name_available D name k = Ok True"
    using assms(2,5) by (simp add: char_name_available_def char_run_def filter_empty_conv)
  obtain r1 s1 where h1: "handle_packet E (CP_CharacterCreate name ra cl ge sk fa hs hc fs) s k = (r1, s1, k1)"
    using assms(1,3,4) k1(1) avail
    by (auto simp: handle_char_create_def mysql_characters_def answer_def split_beta)
  have a1: "cl_account (ss_client s1) = Some a" using handle_packet_keeps [OF h1] assms(3) by simp
  let ?cs = "\<lambda>k. sort_key (ce_rank D) (filter (\<lambda>c. ch_account c = a) (char_rows k))"
  have listed: "handle_packet E CP_CharEnum s' k' = answer E (SP_CharEnum (map (\<lambda>c. (c, no_items)) (?cs k'))) s' k'"
    if "cl_account (ss_client s') = Some a" for s' k'
    using assms(1,2) that
    by (simp add: handle_char_enum_def mysql_characters_def char_get_by_account_def char_run_def)
  have i: "CharacterId_try_from (ch_id ?c) = Ok (ch_id ?c)"
    unfolding c(1) CharacterId_try_from_def using WowId_tag [of 0 Player "we_rng E"] by (simp add: Let_def)
  obtain k2 where k2: "char_delete D (ch_id ?c) k1 = (Ok (), k2)"
      "char_rows k2 = filter (\<lambda>x. ch_id x \<noteq> ch_id ?c) (char_rows k1)"
    using assms(2) by (auto simp: char_delete_def char_rows_def filter_map comp_def)
  have "char_rows k2 = char_rows k" using k2(2) assms(5) c(1) by (auto simp: k1(2) filter_id_conv)
  moreover obtain r2 s2 where h2: "handle_packet E (CP_CharacterDelete (ch_id ?c)) s1 k1 = (r2, s2, k2)"
    using assms(1) k2(1) i by (auto simp: handle_char_delete_def mysql_characters_def answer_def split_beta)
  moreover have "cl_account (ss_client s2) = Some a" using handle_packet_keeps [OF h2] a1 by simp
  ultimately show ?thesis
    using h1 h2 listed [OF a1, of k1] listed [of s2 k2] c k1(2)
    by (intro exI [of _ ?c] exI [of _ r1] exI [of _ s1] exI [of _ k1] exI [of _ "?cs k1"] exI [of _ r2] exI [of _ s2]
        exI [of _ k2] exI [of _ "?cs k2"]) simp
qed

theorem character_lifecycle_witness:
  "\<exists>c r1 s1 k1 r2 s2 k2.
     handle_packet demo_world_env (CP_CharacterCreate (ascii ''Jaina'') 1 8 1 0 0 0 0 0) demo_session demo_chars = (r1, s1, k1) \<and>
     ch_name c = ascii ''Jaina'' \<and>
     handle_packet demo_world_env CP_CharEnum s1 k1 = answer demo_world_env (SP_CharEnum [(c, no_items)]) s1 k1 \<and>
     handle_packet demo_world_env (CP_CharacterDelete (ch_id c)) s1 k1 = (r2, s2, k2) \<and>
     char_rows k2 = char_rows demo_chars"
proof -
  have ids: "WowId_new Player 7 0 \<noteq> WowId_new Player 9 0" "ascii ''Thrall'' \<noteq> ascii ''Jaina''" by code_simp+
  have hyps: "we_chars demo_world_env = mysql_characters char_demo_env" "\<And>q. ce_fault char_demo_env q = None"
    "cl_account (ss_client demo_session) = Some 1"
    by (simp_all add: demo_world char_demo_env_def)
  have name: "name_fault (ascii ''Jaina'') = None" by code_simp
  have free: "\<forall>c \<in> set (char_rows demo_chars). \<not> ce_text_eq char_demo_env (ch_name c) (ascii ''Jaina'') \<and>
      ch_id c \<noteq> WowId_new Player (we_rng demo_world_env) 0"
    using ids by (simp add: demo_world char_demo_env_def char_rows_def)
  have none: "filter (\<lambda>c. ch_account c = 1) (char_rows demo_chars) = []"
    by (simp add: demo_chars_def char_rows_def)
  have one: "cs = [c]" if "mset cs = add_mset c (mset [])" for cs and c :: Character using that by simp
  from character_lifecycle [OF hyps name free, of 1 8 1 0 0 0 0 0] show ?thesis
    unfolding none by (metis list.map one)
qed

end
