(* ===== verification/World_Order.thy ===== *)
theory World_Order
  imports Character_Machine
begin

text \<open>
  The order of the packets of a connection. The connection queues what it reads while another task
  takes packets from the queue; \<open>received\<close> is the sequence of packets that a client's bytes hold, by
  the cipher of its session alone, and the loop is shown to be equivalent to handling that sequence one
  packet after the other, for every schedule of the two tasks. A conversation of any length ends,
  after at most one packet per six bytes.
\<close>

section \<open>The packets of a stream\<close>

function received :: "'c world_lib \<Rightarrow> 'c HeaderCrypto \<Rightarrow> net_event list \<Rightarrow> ClientPacket list" where
  "received W h evs =
     (case read_packets W (Some h) evs of
        (Ok ps, h', evs') \<Rightarrow> ps @ received W (the h') evs'
      | (_, h', evs') \<Rightarrow> [])"
  by pat_completeness auto
termination
  by (relation "measure (\<lambda>(W, h, evs). in_size evs)") (auto dest: read_packets_decr)

declare received.simps [simp del]

text \<open>Reading uses the receiving half of the cipher and keeps the sending half.\<close>

abbreviation with_encrypt :: "'c \<Rightarrow> 'c HeaderCrypto option \<Rightarrow> 'c HeaderCrypto option" where
  "with_encrypt e \<equiv> map_option (\<lambda>h. h\<lparr>hc_encrypt := e\<rparr>)"

lemma read_header_encrypt:
  "read_header W (with_encrypt e x) buffer = apsnd (with_encrypt e) (read_header W x buffer)"
  by (cases x) (simp_all add: read_header_def hc_decrypt_header_def split_beta)

lemma read_frames_encrypt:
  "read_frames W (with_encrypt e x) buffer = apsnd (with_encrypt e) (read_frames W x buffer)"
proof (induction W x buffer rule: read_frames.induct)
  case (1 W x buffer)
  obtain q x1 where q: "read_header W x buffer = (q, x1)" by fastforce
  then have q': "read_header W (with_encrypt e x) buffer = (q, with_encrypt e x1)"
    by (simp add: read_header_encrypt)
  show ?case
  proof (cases "buffer \<noteq> [] \<and> (\<exists>header p rest. q = Ok header \<and> read_frame W header buffer = Ok (p, rest))")
    case True
    then obtain header p rest where f: "buffer \<noteq> []" "q = Ok header" "read_frame W header buffer = Ok (p, rest)" by blast
    have "read_frames W (with_encrypt e x1) rest = apsnd (with_encrypt e) (read_frames W x1 rest)"
      using 1 [OF f(1) q [symmetric] f(2) f(3) refl] by simp
    with f q q' show ?thesis
      by (subst (1 2) read_frames.simps) (simp split: prod.splits res.splits)
  next
    case False
    with q q' show ?thesis
      by (subst (1 2) read_frames.simps) (auto split: res.splits)
  qed
qed

lemma read_packets_encrypt:
  "read_packets W (with_encrypt e x) evs =
     (case read_packets W x evs of (r, x', evs') \<Rightarrow> (r, with_encrypt e x', evs'))"
  by (simp add: read_packets_def read_frames_encrypt split: prod.splits res.splits)

lemma read_frames_session_stays: "x \<noteq> None \<Longrightarrow> snd (read_frames W x buffer) \<noteq> None"
proof (induction W x buffer rule: read_frames.induct)
  case (1 W x buffer)
  obtain q x1 where q: "read_header W x buffer = (q, x1)" by fastforce
  with 1(2) have x1: "x1 \<noteq> None" by (auto simp: read_header_def split: if_splits option.splits prod.splits)
  show ?case
  proof (cases "buffer \<noteq> [] \<and> (\<exists>header p rest. q = Ok header \<and> read_frame W header buffer = Ok (p, rest))")
    case True
    then obtain header p rest where f: "buffer \<noteq> []" "q = Ok header" "read_frame W header buffer = Ok (p, rest)" by blast
    with q 1(1) [OF f(1) q [symmetric] f(2) f(3) refl x1] show ?thesis
      by (subst read_frames.simps) (auto split: prod.splits res.splits)
  next
    case False
    with q x1 1(2) show ?thesis by (subst read_frames.simps) (auto split: res.splits)
  qed
qed

lemma read_packets_session_stays: "read_packets W (Some h) evs = (r, x, evs') \<Longrightarrow> \<exists>h'. x = Some h'"
  using read_frames_session_stays [of "Some h" W]
  by (auto simp: read_packets_def split: prod.splits res.splits if_splits) (metis snd_conv)

lemma received_encrypt: "received W (h\<lparr>hc_encrypt := e\<rparr>) evs = received W h evs"
proof (induction W h evs rule: received.induct)
  case (1 W h evs)
  obtain r x evs' where r: "read_packets W (Some h) evs = (r, x, evs')" using prod_cases3 by blast
  obtain h' where h': "x = Some h'" using read_packets_session_stays [OF r] by blast
  have "read_packets W (Some (h\<lparr>hc_encrypt := e\<rparr>)) evs = (r, Some (h'\<lparr>hc_encrypt := e\<rparr>), evs')"
    using read_packets_encrypt [of W e "Some h" evs] r h' by simp
  with r h' 1 show ?case by (subst (1 2) received.simps) (auto split: res.splits)
qed

lemma received_decrypt: "hc_decrypt h = hc_decrypt h' \<Longrightarrow> received W h evs = received W h' evs"
  using received_encrypt [where h = h' and e = "hc_encrypt h"] by (cases h; cases h') simp

text \<open>A packet takes six bytes at least.\<close>

lemma read_frame_takes: "read_frame W header buffer = Ok (p, rest) \<Longrightarrow> 6 \<le> length buffer \<Longrightarrow> length rest + 6 \<le> length buffer"
  by (auto simp: read_frame_def res_simps Let_def split: prod.splits)

lemma read_frames_bound: "read_frames W x buffer = (Ok ps, x') \<Longrightarrow> 6 * length ps \<le> length buffer"
proof (induction W x buffer arbitrary: ps x' rule: read_frames.induct)
  case (1 W x buffer)
  obtain q x1 where q: "read_header W x buffer = (q, x1)" by fastforce
  show ?case
  proof (cases "buffer = []")
    case False
    with 1(2) q obtain header p rest qs where f: "q = Ok header" "read_frame W header buffer = Ok (p, rest)"
        "read_frames W x1 rest = (Ok qs, x')" "ps = p # qs"
      by (subst (asm) read_frames.simps) (auto split: res.splits prod.splits)
    have "6 \<le> length buffer" using q f(1) by (auto simp: read_header_def split: if_splits)
    with read_frame_takes [OF f(2)] 1(1) [OF False q [symmetric] f(1) f(2) refl f(3)] f(4) show ?thesis by simp
  qed (use 1(2) in \<open>simp add: read_frames.simps\<close>)
qed

lemma tcp_read_takes: "tcp_read n evs = (Ok bs, evs') \<Longrightarrow> length bs + in_size evs' \<le> in_size evs"
  by (induction n evs rule: tcp_read.induct) (auto split: if_splits)

lemma read_packets_bound: "read_packets W x evs = (Ok ps, x', evs') \<Longrightarrow> 6 * length ps + in_size evs' \<le> in_size evs"
  using tcp_read_takes [of 2048 evs] read_frames_bound [of W x]
  by (fastforce simp: read_packets_def split: prod.splits res.splits if_splits)

section \<open>Handling in order\<close>

text \<open>What a packet does to the characters depends on the session only through its client.\<close>

lemma handle_packet_chars_cong:
  "ss_client s = ss_client t \<Longrightarrow> snd (snd (handle_packet E p s k)) = snd (snd (handle_packet E p t k))"
  by (cases p)
    (auto simp: handler_defs answer_def split_beta split: option.splits res.splits if_splits)

lemma send_packet_decrypt:
  "send_packet E p s = (r, s') \<Longrightarrow> hc_decrypt (ss_encryption s') = hc_decrypt (ss_encryption s)"
  by (auto simp: send_packet_def write_packet_def hc_encrypt_header_def split: res.splits option.splits prod.splits)

lemma handle_packet_decrypt:
  "handle_packet E p s k = (r, s', k') \<Longrightarrow> hc_decrypt (ss_encryption s') = hc_decrypt (ss_encryption s)"
  by (cases p)
    (auto simp: handler_defs answer_def dest!: send_packet_decrypt split: option.splits res.splits if_splits prod.splits)

text \<open>
  Handling packets one after the other for one client, each in the environment of its moment (the
  clock, the numbers drawn, the faults); and the environments of the packets that the turns of the other task
  handle, \<open>js ! i\<close> of them in turn \<open>n + i\<close>.
\<close>

definition served :: "'c Session \<Rightarrow> (('c, 'k) world_env \<times> ClientPacket) list \<Rightarrow> 'k \<Rightarrow> 'k" where
  "served s eps k = fold (\<lambda>(e, p) k. snd (snd (handle_packet e p s k))) eps k"

lemma served_simps [simp]:
  "served s [] k = k" "served s ((e, p) # eps) k = served s eps (snd (snd (handle_packet e p s k)))"
  by (simp_all add: served_def)

lemma served_append: "served s (eps @ eqs) k = served s eqs (served s eps k)"
  by (simp add: served_def)

fun turns :: "(nat \<Rightarrow> nat \<Rightarrow> 'e) \<Rightarrow> nat \<Rightarrow> nat list \<Rightarrow> 'e list" where
  "turns E n [] = []"
| "turns E n (j # js) = map (E n) [0..<j] @ turns E (Suc n) js"

text \<open>The world of one connection: its session is there, and the queue holds packets of it alone.\<close>

definition one_client :: "ClientId \<Rightarrow> 'c Session \<Rightarrow> 'c \<Rightarrow> ('c, 'k) World \<Rightarrow> bool" where
  "one_client i s0 d w \<longleftrightarrow>
     (\<exists>s. wo_sessions w i = Some s \<and> ss_client_id s = i \<and> ss_client s = ss_client s0 \<and>
        hc_decrypt (ss_encryption s) = d) \<and> (\<forall>x \<in> set (wo_queue w). fst x = i)"

lemma handle_one_served:
  assumes "one_client i s0 d w" and "handle_one E (i, p) w = (q, w1)"
  shows "one_client i s0 d w1 \<and> wo_chars w1 = served s0 [(E, p)] (wo_chars w) \<and> wo_queue w1 = wo_queue w"
proof -
  from assms(1) obtain s where s: "wo_sessions w i = Some s" "ss_client_id s = i" "ss_client s = ss_client s0"
    "hc_decrypt (ss_encryption s) = d" by (auto simp: one_client_def)
  obtain r s1 k1 where h: "handle_packet E p s (wo_chars w) = (r, s1, k1)" using prod_cases3 by blast
  have w1: "w1 = w\<lparr>wo_sessions := (wo_sessions w)(i \<mapsto> s1), wo_chars := k1\<rparr>"
    using assms(2) s(1) h by (auto simp: handle_one_def)
  have "k1 = served s0 [(E, p)] (wo_chars w)"
    using handle_packet_chars_cong [OF s(3), of E p "wo_chars w"] h by simp
  with w1 s assms(1) handle_packet_keeps [OF h] handle_packet_decrypt [OF h] show ?thesis
    by (auto simp: one_client_def)
qed

lemma handle_queue_served:
  assumes "one_client i s0 d w" and "\<forall>x \<in> set ips. fst x = i" and "handle_queue E n ips w = (q, w1)" and "q \<noteq> Panic"
  shows "one_client i s0 d w1 \<and> wo_queue w1 = [] \<and>
    wo_chars w1 = served s0 (zip (map E [n..<n + length ips]) (map snd ips)) (wo_chars w)"
  using assms
proof (induction ips arbitrary: n w)
  case Nil
  then show ?case by (auto simp: one_client_def)
next
  case (Cons ip ips)
  obtain p where ip: "ip = (i, p)" using Cons(3) by (cases ip) auto
  obtain x w2 where x: "handle_one (E n) (i, p) w = (x, w2)" by fastforce
  note one = handle_one_served [OF Cons(2) x]
  have "handle_queue E (Suc n) ips w2 = (q, w1)" using Cons(4,5) x ip by (cases x) auto
  moreover have "[n..<n + length (ip # ips)] = n # [Suc n..<Suc n + length ips]"
    by (simp add: upt_conv_Cons del: upt_Suc)
  ultimately show ?case using Cons.IH [of w2 "Suc n"] one Cons(3,5) ip by simp
qed

lemma pipe_packets_served:
  assumes "one_client i s0 d w"
  shows "one_client i s0 d (pipe_packets E i ps w) \<and> wo_queue (pipe_packets E i ps w) = wo_queue w @ map (Pair i) ps"
  using assms
proof (induction ps arbitrary: w)
  case (Cons p ps)
  then obtain s where "wo_sessions w i = Some s" "ss_client_id s = i" by (auto simp: one_client_def)
  then have "one_client i s0 d (pipe_packet E i p w) \<and> wo_queue (pipe_packet E i p w) = wo_queue w @ [(i, p)]"
    using Cons(2) by (auto simp: pipe_packet_def receive_packet_def reset_timeout_def one_client_def)
  with Cons.IH [of "pipe_packet E i p w"] show ?case by (simp add: pipe_packets_def)
qed (simp add: pipe_packets_def)

lemma handle_some_served:
  assumes "one_client i s0 d w" and "handle_some E m w = (q, w1)" and "q \<noteq> Panic"
  obtains j where "j \<le> m" "j \<le> length (wo_queue w)" "one_client i s0 d w1" "wo_queue w1 = drop j (wo_queue w)"
    "wo_chars w1 = served s0 (zip (map E [0..<j]) (take j (map snd (wo_queue w)))) (wo_chars w)"
proof -
  obtain w2 where w2: "handle_queue E 0 (take m (wo_queue w)) w = (q, w2)" "w1 = w2\<lparr>wo_queue := wo_queue w2 @ drop m (wo_queue w)\<rparr>"
    using assms(2) by (auto simp: handle_some_def split: prod.splits)
  have own: "\<forall>x \<in> set (wo_queue w). fst x = i" using assms(1) by (simp add: one_client_def)
  then have "\<forall>x \<in> set (take m (wo_queue w)). fst x = i" by (auto dest: in_set_takeD)
  note h = handle_queue_served [OF assms(1) this w2(1) assms(3)]
  have "one_client i s0 d w1" using h own by (auto simp: w2(2) one_client_def dest: in_set_dropD)
  moreover have "take m (map snd (wo_queue w)) = take (min m (length (wo_queue w))) (map snd (wo_queue w))"
    and "drop m (wo_queue w) = drop (min m (length (wo_queue w))) (wo_queue w)" by (simp_all add: min_def)
  ultimately show thesis using that [of "min m (length (wo_queue w))"] h by (simp add: w2(2) take_map min.commute)
qed

lemma turn_served:
  assumes "one_client i s0 d w" and "handle_some E m (pipe_packets E' i ps w) = (q, w1)" and "q \<noteq> Panic"
  obtains j xs where "j \<le> m" "length xs = j" "one_client i s0 d w1" "map snd (wo_queue w) @ ps = xs @ map snd (wo_queue w1)"
    "wo_chars w1 = served s0 (zip (map E [0..<j]) xs) (wo_chars w)"
proof -
  let ?p = "pipe_packets E' i ps w"
  note p = pipe_packets_served [OF assms(1), of E' ps]
  from handle_some_served [OF conjunct1 [OF p] assms(2,3)]
  obtain j where j: "j \<le> m" "j \<le> length (wo_queue ?p)" "one_client i s0 d w1" "wo_queue w1 = drop j (wo_queue ?p)"
    "wo_chars w1 = served s0 (zip (map E [0..<j]) (take j (map snd (wo_queue ?p)))) (wo_chars ?p)" by blast
  let ?Q = "map snd (wo_queue ?p)"
  have piped: "?Q = map snd (wo_queue w) @ ps" using p by (simp add: comp_def)
  have split: "?Q = take j ?Q @ map snd (wo_queue w1)" by (simp add: j(4) flip: drop_map)
  show thesis
  proof (rule that [OF j(1) _ j(3)])
    show "length (take j ?Q) = j" using j(2) by simp
    show "map snd (wo_queue w) @ ps = take j ?Q @ map snd (wo_queue w1)" using split unfolding piped .
    show "wo_chars w1 = served s0 (zip (map E [0..<j]) (take j ?Q)) (wo_chars w)"
      using j(5) unfolding pipe_packets_chars .
  qed
qed

text \<open>
  The packets of the queue, those at hand and those that the input holds are a list: the turns of the
  loop have handled a first part of it, in order, and the rest is in the queue.
\<close>

lemma session_loop_served:
  assumes "one_client i s0 (hc_decrypt h) w" and "session_loop E sched n i ps evs w = (r, w')" and "r \<noteq> Panic"
    and "\<forall>m. sv_world (we_send (E m 0)) = W"
  shows "\<exists>js d xs. (\<forall>m < length js. js ! m \<le> sched (n + m)) \<and> one_client i s0 d w' \<and>
    map snd (wo_queue w) @ ps @ received W h evs = xs @ map snd (wo_queue w') \<and> length xs = length (turns E n js) \<and>
    wo_chars w' = served s0 (zip (turns E n js) xs) (wo_chars w)"
  using assms(1,2)
proof (induction "in_size evs" arbitrary: n ps evs h w rule: less_induct)
  case less
  obtain q w1 where q: "handle_some (E n) (sched n) (pipe_packets (E n 0) i ps w) = (q, w1)" by fastforce
  have "q \<noteq> Panic" using less(3) assms(3) q by (subst (asm) session_loop.simps) auto
  from turn_served [OF less(2) q this]
  obtain j xs where j: "j \<le> sched n" "length xs = j" "one_client i s0 (hc_decrypt h) w1"
    "map snd (wo_queue w) @ ps = xs @ map snd (wo_queue w1)" "wo_chars w1 = served s0 (zip (map (E n) [0..<j]) xs) (wo_chars w)"
    by blast
  from j(3) obtain s where s: "wo_sessions w1 i = Some s" "ss_client_id s = i" "ss_client s = ss_client s0"
      "hc_decrypt (ss_encryption s) = hc_decrypt h" "\<forall>x \<in> set (wo_queue w1). fst x = i" by (auto simp: one_client_def)
  obtain x h' evs1 where x: "read_packets W (Some (ss_encryption s)) evs = (x, h', evs1)"
    using prod_cases3 by blast
  let ?w = "w1\<lparr>wo_sessions := (wo_sessions w1)(i \<mapsto> s\<lparr>ss_encryption := the h'\<rparr>)\<rparr>"
  have w2: "one_client i s0 (hc_decrypt (the h')) ?w" using s by (auto simp: one_client_def)
  have loop: "(r, w') = (case x of Ok ps \<Rightarrow> session_loop E sched (Suc n) i ps evs1 ?w
      | Err e \<Rightarrow> (Err e, ?w) | Panic \<Rightarrow> (Panic, ?w))"
    using less(3) q s(1) x \<open>q \<noteq> Panic\<close> assms(4) by (subst (asm) session_loop.simps) (auto simp: Let_def split: res.splits)
  have rec: "received W h evs = (case x of Ok ps \<Rightarrow> ps @ received W (the h') evs1 | _ \<Rightarrow> [])"
    using received_decrypt [OF s(4), of W evs] x by (simp add: received.simps split: res.splits)
  show ?case
  proof (cases x)
    case (Ok ps')
    with x have "in_size evs1 < in_size evs" by (metis read_packets_decr)
    moreover have "session_loop E sched (Suc n) i ps' evs1 ?w = (r, w')" using loop Ok by simp
    ultimately obtain js d ys where js: "\<forall>m < length js. js ! m \<le> sched (Suc n + m)" "one_client i s0 d w'"
      "map snd (wo_queue ?w) @ ps' @ received W (the h') evs1 = ys @ map snd (wo_queue w')"
      "length ys = length (turns E (Suc n) js)" "wo_chars w' = served s0 (zip (turns E (Suc n) js) ys) (wo_chars ?w)"
      using less(1) w2 by blast
    have "\<forall>m < length (j # js). (j # js) ! m \<le> sched (n + m)" using js(1) j(1) by (auto simp: nth_Cons split: nat.splits)
    moreover have "map snd (wo_queue w) @ ps @ received W h evs = (xs @ ys) @ map snd (wo_queue w')"
      using js(3) arg_cong [OF j(4), of "\<lambda>l. l @ ps' @ received W (the h') evs1"] rec Ok by simp
    moreover have "length (xs @ ys) = length (turns E n (j # js))" using j(2) js(4) by simp
    moreover have "wo_chars w' = served s0 (zip (turns E n (j # js)) (xs @ ys)) (wo_chars w)"
      using js(4,5) j(2,5) by (simp add: served_append)
    ultimately show ?thesis using js(2) by blast
  next
    case (Err e)
    then have w': "w' = ?w" using loop by simp
    then have "map snd (wo_queue w) @ ps @ received W h evs = xs @ map snd (wo_queue w')"
      using j(4) rec Err by simp
    moreover have "wo_chars w' = served s0 (zip (turns E n [j]) xs) (wo_chars w)" using j(5) w' by simp
    ultimately show ?thesis using w2 w' j(1,2) by (intro exI [of _ "[j]"] exI [of _ "hc_decrypt (the h')"] exI [of _ xs]) simp
  next
    case Panic
    with loop assms(3) show ?thesis by simp
  qed
qed

text \<open>The queue grows by what is read, and every exit of the loop is an error or a panic.\<close>

lemma handle_one_queue: "wo_queue (snd (handle_one E ip w)) = wo_queue w"
  by (cases ip) (simp add: handle_one_def split: option.splits prod.splits)

lemma handle_queue_length: "handle_queue E n ips w = (r, w') \<Longrightarrow> length (wo_queue w') \<le> length ips"
proof (induction ips arbitrary: n w)
  case (Cons ip ips)
  obtain q w1 where "handle_one (E n) ip w = (q, w1)" by fastforce
  with Cons(2) Cons.IH [of "Suc n" w1] show ?case by (cases q) auto
qed auto

lemma pipe_packets_length: "length (wo_queue (pipe_packets E i ps w)) \<le> length (wo_queue w) + length ps"
proof (induction ps arbitrary: w)
  case (Cons p ps)
  have "length (wo_queue (pipe_packet E i p w)) \<le> Suc (length (wo_queue w))"
    by (simp add: pipe_packet_def receive_packet_def split: option.splits)
  with Cons [of "pipe_packet E i p w"] show ?case by (simp add: pipe_packets_def)
qed (simp add: pipe_packets_def)

lemma handle_some_length: "handle_some E m w = (r, w') \<Longrightarrow> length (wo_queue w') \<le> length (wo_queue w)"
  using handle_queue_length [of E 0 "take m (wo_queue w)" w]
  by (fastforce simp: handle_some_def min_def split: prod.splits if_splits)

lemma session_loop_bound:
  "session_loop E sched n i ps evs w = (r, w') \<Longrightarrow>
     ((\<exists>e. r = Err e) \<or> r = Panic) \<and> 6 * length (wo_queue w') \<le> 6 * (length (wo_queue w) + length ps) + in_size evs"
proof (induction "in_size evs" arbitrary: n ps evs w rule: less_induct)
  case less
  obtain q w1 where q: "handle_some (E n) (sched n) (pipe_packets (E n 0) i ps w) = (q, w1)" by fastforce
  have w1: "length (wo_queue w1) \<le> length (wo_queue w) + length ps"
    using handle_some_length [OF q] pipe_packets_length [of "E n 0" i ps w] by simp
  show ?case
  proof (cases "q = Panic \<or> wo_sessions w1 i = None")
    case True
    with less(2) q w1 show ?thesis by (subst (asm) session_loop.simps) (auto split: res.splits)
  next
    case False
    then obtain s where s: "wo_sessions w1 i = Some s" by auto
    obtain x h evs1 where x: "read_packets (sv_world (we_send (E n 0))) (Some (ss_encryption s)) evs = (x, h, evs1)"
      using prod_cases3 by blast
    let ?w = "w1\<lparr>wo_sessions := (wo_sessions w1)(i \<mapsto> s\<lparr>ss_encryption := the h\<rparr>)\<rparr>"
    have loop: "(r, w') = (case x of Ok ps \<Rightarrow> session_loop E sched (Suc n) i ps evs1 ?w
        | Err e \<Rightarrow> (Err e, ?w) | Panic \<Rightarrow> (Panic, ?w))"
      using less(2) q s x False by (subst (asm) session_loop.simps) (auto simp: Let_def split: res.splits)
    show ?thesis
    proof (cases x)
      case (Ok ps')
      with x have "in_size evs1 < in_size evs" by (metis read_packets_decr)
      moreover have "6 * length ps' + in_size evs1 \<le> in_size evs" using read_packets_bound x Ok by metis
      ultimately show ?thesis using less(1) [of evs1 "Suc n" ps' ?w] loop Ok w1 by auto
    qed (use loop w1 in simp_all)
  qed
qed

section \<open>Properties\<close>

text \<open>
  C7. The packets of a client are handled in the order it sent them, whatever the schedule. A connection
  queues what it reads and another task takes packets from the queue when it gets its turn: however the
  turns fall, when the connection has ended and the queue is empty the characters are what handling the
  packets that came with the authentication, and then every packet that the bytes of the client hold, one
  after the other, makes of them. Each packet is handled in the environment (clock, numbers drawn,
  faults) of its moment: \<open>js ! m\<close> packets, at most as many as the schedule allows, in turn \<open>n + m\<close> of the
  loop, and the rest when the queue is emptied at the end.
\<close>

theorem packets_served_in_order:
  assumes "session_loop E sched n i ps evs w = (r, w')" and "r \<noteq> Panic"
    and "\<forall>m. sv_world (we_send (E m 0)) = W"
    and "wo_queue w = []" and "wo_sessions w i = Some s" and "ss_client_id s = i"
    and "handle_packets E' w' = (Ok (), w'')" and "Q = ps @ received W (ss_encryption s) evs"
  shows "\<exists>js es. (\<forall>m < length js. js ! m \<le> sched (n + m)) \<and>
    es = turns E n js @ map E' [0..<length Q - length (turns E n js)] \<and> length es = length Q \<and>
    wo_chars w'' = fold (\<lambda>(e, p) k. snd (snd (handle_packet e p s k))) (zip es Q) (wo_chars w)"
proof -
  have "one_client i s (hc_decrypt (ss_encryption s)) w" using assms(4-6) by (simp add: one_client_def)
  from session_loop_served [OF this assms(1-3)] obtain js d xs where
    js: "\<forall>m < length js. js ! m \<le> sched (n + m)" "one_client i s d w'" "Q = xs @ map snd (wo_queue w')"
      "length xs = length (turns E n js)" "wo_chars w' = served s (zip (turns E n js) xs) (wo_chars w)"
    using assms(4,8) by auto
  have "\<forall>x \<in> set (wo_queue w'). fst x = i" using js(2) by (simp add: one_client_def)
  from handle_queue_served [OF js(2) this assms(7) [unfolded handle_packets_def]]
  have "wo_chars w'' = served s (zip (map E' [0..<length (wo_queue w')]) (map snd (wo_queue w'))) (wo_chars w')" by simp
  with js show ?thesis by (intro exI [of _ js]) (simp add: served_append flip: served_def)
qed

theorem packets_served_in_order_witness:
  "\<exists>w' w''. session_loop (\<lambda>m _. demo_world_env\<lparr>we_rng := of_nat m\<rparr>) (\<lambda>_. 0) 0 5 [CP_CharacterDelete (WowId_new Player 7 0)] []
       ((World_new 1 0 demo_chars)\<lparr>wo_sessions := [5 \<mapsto> demo_session]\<rparr>) = (Err WE_Closed, w') \<and>
     handle_packets (\<lambda>_. demo_world_env) w' = (Ok (), w'') \<and> char_rows (wo_chars w'') = []"
proof -
  let ?d = "CP_CharacterDelete (WowId_new Player 7 0)" and ?E = "\<lambda>m _. demo_world_env\<lparr>we_rng := of_nat m\<rparr>"
  let ?w = "(World_new 1 0 demo_chars)\<lparr>wo_sessions := [5 \<mapsto> demo_session]\<rparr> :: (rc4, char_db) World"
  let ?w' = "?w\<lparr>wo_sessions := [5 \<mapsto> reset_timeout demo_send_env demo_session], wo_queue := [(5, ?d)]\<rparr>"
  have loop: "session_loop ?E (\<lambda>_. 0) 0 5 [?d] [] ?w = (Err WE_Closed, ?w')"
    by (subst session_loop.simps)
      (simp add: pipe_packets_def pipe_packet_def receive_packet_def handle_some_def read_packets_def
        World_new_def demo_session_def demo_world_env_def reset_timeout_def)
  have d: "handle_packet demo_world_env ?d s demo_chars =
      (fst (send_packet demo_send_env (SP_CharacterDelete Resp_CharDeleteSuccess) s),
       snd (send_packet demo_send_env (SP_CharacterDelete Resp_CharDeleteSuccess) s), demo_chars\<lparr>cdb_characters := []\<rparr>)" for s
    using WowId_tag [of 0 Player 7]
    by (simp add: handle_char_delete_def CharacterId_try_from_def demo_world_env_def mysql_characters_def
        char_delete_def char_demo_env_def demo_chars_def answer_def split_beta)
  obtain r w'' where h: "handle_packets (\<lambda>_. demo_world_env) ?w' = (r, w'')" by fastforce
  have "fst (send_packet demo_send_env (SP_CharacterDelete Resp_CharDeleteSuccess) (reset_timeout demo_send_env demo_session)) = Ok ()"
    using demo_send [of "SP_CharacterDelete Resp_CharDeleteSuccess"] by (simp add: reset_timeout_def demo_session_def)
  then have "r = Ok ()" using h by (auto simp: handle_packets_def handle_one_def World_new_def d [simplified])
  then have h: "handle_packets (\<lambda>_. demo_world_env) ?w' = (Ok (), w'')" using h by simp
  have q: "received (sv_world demo_send_env) (ss_encryption demo_session) [] = []"
    by (simp add: received.simps read_packets_def)
  have w: "wo_queue ?w = []" "wo_sessions ?w 5 = Some demo_session" "wo_chars ?w = demo_chars" "ss_client_id demo_session = 5"
    by (simp_all add: World_new_def demo_session_def)
  have W: "\<forall>m. sv_world (we_send (?E m 0)) = sv_world demo_send_env" by (simp add: demo_world_env_def)
  obtain js where js: "\<forall>m < length js. js ! m \<le> 0"
    "wo_chars w'' = fold (\<lambda>(e, p) k. snd (snd (handle_packet e p demo_session k)))
      (zip (turns ?E 0 js @ map (\<lambda>_. demo_world_env) [0..<1 - length (turns ?E 0 js)]) [?d]) demo_chars"
    using packets_served_in_order [OF loop _ W w(1,2,4) h refl] unfolding q w(3) by auto
  from js(1) have "turns E n js = []" for E :: "nat \<Rightarrow> nat \<Rightarrow> (rc4, char_db) world_env" and n
    by (induction js arbitrary: n) (auto simp: All_less_Suc2)
  with js(2) have "wo_chars w'' = demo_chars\<lparr>cdb_characters := []\<rparr>" by (simp add: d [simplified])
  with loop h show ?thesis by (auto simp: char_rows_def)
qed

text \<open>
  C18. A connection ends: on every finite input the loop returns, with an error or a panic and never
  with success, and the packets that it leaves in the queue number at most those that were there and at
  hand, and one for every six bytes of the input.
\<close>

theorem connection_ends:
  "\<exists>r w'. session_loop E sched n i ps evs w = (r, w') \<and> ((\<exists>e. r = Err e) \<or> r = Panic) \<and>
     length (wo_queue w') \<le> length (wo_queue w) + length ps + in_size evs div 6"
proof -
  obtain r w' where r: "session_loop E sched n i ps evs w = (r, w')" by fastforce
  with session_loop_bound [OF r] show ?thesis by (intro exI [of _ r] exI [of _ w']) auto
qed

end
