(* ===== verification/World_Timers.thy ===== *)
theory World_Timers
  imports World_Server
begin

text \<open>
  The timers of the world (services/world/src/world/world.rs, \<open>timers\<close> and \<open>WorldTimers\<close>): the
  uptime of the realm is written at every tick of an interval, whose first tick is at once. The other
  interval only ticks. Times are nanoseconds; what the realm list answers may differ from tick to tick.
\<close>

section \<open>The timers\<close>

record WorldTimers =
  tm_uptime :: int
  tm_ping_db :: int

definition WorldTimers_new :: WorldTimers where
  "WorldTimers_new = \<lparr>tm_uptime = 60 * 1000000000, tm_ping_db = 60 * 10 * 1000000000\<rparr>"

text \<open>Ticks \<open>k\<close> to \<open>k + n - 1\<close> of the uptime loop, and all that fall into the time that has passed.\<close>

fun uptime_loop ::
  "(nat \<Rightarrow> 'r realm_ops) \<Rightarrow> ('c, 'k) World \<Rightarrow> nat \<Rightarrow> nat \<Rightarrow> 'r \<Rightarrow> (RealmListError, unit) res \<times> 'r" where
  "uptime_loop rs w k 0 r = (Ok (), r)"
| "uptime_loop rs w k (Suc n) r =
     (case uptime_tick (rs k) w r of
        (Panic, r1) \<Rightarrow> (Panic, r1)
      | (_, r1) \<Rightarrow> uptime_loop rs w (Suc k) n r1)"

definition timers ::
  "(nat \<Rightarrow> 'r realm_ops) \<Rightarrow> ('c, 'k) World \<Rightarrow> int \<Rightarrow> 'r \<Rightarrow> (RealmListError, unit) res \<times> 'r" where
  "timers rs w elapsed r = uptime_loop rs w 0 (Suc (nat (elapsed div tm_uptime WorldTimers_new))) r"

section \<open>Lemmas\<close>

lemma uptime_loop_last:
  "uptime_loop rs w k n r = (Ok (), r1) \<Longrightarrow> uptime_loop rs w k (Suc n) r = uptime_tick (rs (k + n)) w r1"
proof (induction n arbitrary: k r)
  case 0
  then show ?case by (auto simp: uptime_tick_def split: prod.splits res.splits)
next
  case (Suc n)
  obtain q r2 where q: "uptime_tick (rs k) w r = (q, r2)" by fastforce
  with Suc(2) have "uptime_loop rs w (Suc k) n r2 = (Ok (), r1)" by (cases q) auto
  from Suc(1) [OF this] q Suc(2) show ?case by (cases q) simp_all
qed

lemma uptime_loop_runs:
  assumes "\<And>j r. k \<le> j \<Longrightarrow> j < k + n \<Longrightarrow> fst (uptime_tick (rs j) w r) = Ok ()"
  shows "\<exists>r1. uptime_loop rs w k n r = (Ok (), r1)"
  using assms
proof (induction n arbitrary: k r)
  case (Suc n)
  obtain q r2 where q: "uptime_tick (rs k) w r = (q, r2)" by fastforce
  moreover have "q = Ok ()" using Suc(2) [of k r] q by simp
  ultimately show ?case using Suc(1) [of "Suc k" r2] Suc(2) by simp
qed simp

lemma uptime_tick_mysql:
  "fst (set_uptime D (wo_id w) (wo_start w) 0 s) = Ok () \<Longrightarrow>
     uptime_tick (mysql_realms D) w s = (Ok (), snd (set_uptime D (wo_id w) (wo_start w) 0 s))"
  by (auto simp: uptime_tick_def mysql_realms_def split: prod.splits)

section \<open>Properties\<close>

text \<open>
  C30. The stored uptime follows the clock: on a database that answers, after any time the timers have
  written, for this realm and this start, the whole seconds between the start of the world and the
  last tick, at the start time of the world in seconds, and they have not stopped.
\<close>

theorem uptime_follows_clock:
  assumes "0 \<le> wo_start w" and "wo_start w < 2 ^ 32 * 1000000000" and "0 \<le> delay" and "0 \<le> elapsed"
    and "delay + elapsed < 2 ^ 32 * 1000000000"
    and "\<And>k. ev_utc_now (Ev k) = wo_start w + delay + int k * 60000000000" and "\<And>k. ev_fault (Ev k) Q_set_uptime = None"
  shows "\<exists>s'. timers (\<lambda>k. mysql_realms (Ev k)) w elapsed s = (Ok (), s') \<and>
    (\<exists>row \<in> set (db_uptime (my_db s')). ur_realmid row = wo_id w \<and>
       int (unat (ur_starttime row)) = wo_start w div 1000000000 \<and>
       int (unat (ur_uptime row)) = (delay + elapsed div 60000000000 * 60000000000) div 1000000000)"
proof -
  let ?n = "nat (elapsed div 60000000000)" and ?rs = "\<lambda>k. mysql_realms (Ev k)"
  have n: "int ?n = elapsed div 60000000000" using assms(4) by (simp add: pos_imp_zdiv_nonneg_iff)
  have le: "int k * 60000000000 \<le> elapsed" if "k \<le> ?n" for k
    using that n assms(4) by linarith
  have ok: "fst (set_uptime (Ev k) (wo_id w) (wo_start w) 0 r) = Ok ()" if "k \<le> ?n" for k r
    using le [OF that] assms(1-5) by (simp add: set_uptime_outcomes assms(6,7))
  obtain s1 where s1: "uptime_loop ?rs w 0 ?n s = (Ok (), s1)"
    using uptime_loop_runs [of 0 ?n ?rs w s] ok by (fastforce simp: uptime_tick_mysql)
  let ?r = "set_uptime (Ev ?n) (wo_id w) (wo_start w) 0 s1"
  have "timers ?rs w elapsed s = uptime_loop ?rs w 0 (Suc ?n) s" by (simp add: timers_def WorldTimers_new_def)
  also have "\<dots> = (Ok (), snd ?r)" using uptime_loop_last [OF s1] uptime_tick_mysql [OF ok [OF order_refl]] by simp
  finally have run: "timers ?rs w elapsed s = (Ok (), snd ?r)" .
  have "ev_utc_now (Ev ?n) - wo_start w = delay + elapsed div 60000000000 * 60000000000"
    using assms(6) [of ?n] n by simp
  moreover have "uptime_stored (wo_id w) (wo_start w div 1000000000) ((ev_utc_now (Ev ?n) - wo_start w) div 1000000000) 0
      (my_db s1) (my_db (snd ?r))"
    using set_uptime_outcomes [of "Ev ?n" "wo_id w" "wo_start w" 0 s1] ok [OF order_refl, of s1] by simp
  ultimately show ?thesis using run by (auto simp: uptime_stored_def)
qed

theorem uptime_follows_clock_witness:
  "\<exists>s'. timers (\<lambda>k. mysql_realms (demo_env\<lparr>ev_utc_now := 7000000000 + int k * 60000000000\<rparr>))
       (World_new 1 5000000000 demo_chars :: (rc4, char_db) World) 130000000000 demo_start = (Ok (), s') \<and>
     (\<exists>row \<in> set (db_uptime (my_db s')). ur_realmid row = 1 \<and> int (unat (ur_uptime row)) = 122)"
  using uptime_follows_clock [of "World_new 1 5000000000 demo_chars :: (rc4, char_db) World" 2000000000 130000000000
      "\<lambda>k. demo_env\<lparr>ev_utc_now := 7000000000 + int k * 60000000000\<rparr>" demo_start]
  by (auto simp: World_new_def demo_env_def)

end
