(* ===== verification/Character_List.thy ===== *)
theory Character_List
  imports World
begin

text \<open>
  The list of characters on the wire (services/world/src/world/session.rs, \<open>CharEnum\<close>, answered by
  \<open>handle_packet\<close> of the world): the entries a client reads are the characters of its account. The
  count is one byte and the size of a packet two, which bounds the lists that arrive.
\<close>

section \<open>What the client reads\<close>

text \<open>
  What the client takes from an entry, byte by byte: an identifier, the name up to its NUL, eight single
  bytes and the level, zone, map and position as five little-endian numbers, and 232 more bytes (the guild, the
  flags, the pet and the items).
\<close>

record listed =
  li_id :: u64
  li_name :: rstr
  li_race :: u8
  li_class :: u8
  li_gender :: u8
  li_looks :: bytes
  li_level :: u8
  li_place :: "u32 list"
  li_rest :: bytes

definition read_listed :: "bytes \<Rightarrow> (listed \<times> bytes) option" where
  "read_listed bs =
     (let name = takeWhile (\<lambda>b. b \<noteq> 0) (drop 8 bs);
          r = drop (9 + length name) bs
      in if length r < 261 then None
         else Some (\<lparr>li_id = of_nat (le_val (take 8 bs)), li_name = name, li_race = r ! 0, li_class = r ! 1,
           li_gender = r ! 2, li_looks = [r ! 3, r ! 4, r ! 5, r ! 6, r ! 7], li_level = r ! 8,
           li_place = map (\<lambda>i. of_nat (le_val (take 4 (drop (9 + 4 * i) r)))) [0..<5],
           li_rest = take 232 (drop 29 r)\<rparr>, drop 261 r))"

text \<open>The client takes the count and then that many entries, with nothing behind them.\<close>

fun read_listeds :: "nat \<Rightarrow> bytes \<Rightarrow> listed list option" where
  "read_listeds 0 bs = (if bs = [] then Some [] else None)"
| "read_listeds (Suc n) bs =
     (case read_listed bs of None \<Rightarrow> None | Some (e, rest) \<Rightarrow> map_option (Cons e) (read_listeds n rest))"

definition client_chars :: "bytes \<Rightarrow> listed list option" where
  "client_chars bs = (case bs of [] \<Rightarrow> None | n # r \<Rightarrow> read_listeds (unat n) r)"

text \<open>What it ought to see of a character, whose position arrives without its fraction.\<close>

definition listed_character :: "Character \<Rightarrow> listed" where
  "listed_character c =
     \<lparr>li_id = ch_id c, li_name = ch_name c, li_race = ch_race c, li_class = ch_class c, li_gender = ch_gender c,
      li_looks = [ch_skin_color c, ch_face c, ch_hair_style c, ch_hair_color c, ch_facial_style c],
      li_level = ch_level c,
      li_place = [ucast (ch_zone c), ucast (ch_map c), f32_as_u32 (ch_position_x c), f32_as_u32 (ch_position_y c),
        f32_as_u32 (ch_position_z c)],
      li_rest = replicate 232 0\<rparr>"

definition entry :: "Character \<Rightarrow> sval" where
  "entry c = char_sval (c, no_items)"

definition name_wire_ok :: "Character \<Rightarrow> bool" where
  "name_wire_ok c \<longleftrightarrow> utf8_valid (ch_name c) \<and> 0 \<notin> set (ch_name c)"

section \<open>Lemmas\<close>

lemma no_items_bytes: "concat (map (fixint_bytes \<circ> Item_sval) no_items) = replicate 207 0"
proof -
  have "u32_le 0 = [0, 0, 0, 0]" by (simp add: u32_le_def le_bytes_short)
  then have item: "fixint_bytes (Item_sval \<lparr>it_display = 0, it_inventory = 0, it_aura = 0\<rparr>) = replicate 9 0"
    by (simp add: Item_sval_def numeral_eq_Suc)
  have "concat (replicate n (replicate 9 (0 :: u8))) = replicate (9 * n) 0" for n
    by (induction n) (simp_all flip: replicate_add)
  from this [of 23] show ?thesis by (simp add: no_items_def item)
qed

lemma char_sval_bytes:
  "fixint_bytes (char_sval (c, items)) = u64_le (ch_id c) @ ch_name c @ [0] @ [ch_race c, ch_class c, ch_gender c,
     ch_skin_color c, ch_face c, ch_hair_style c, ch_hair_color c, ch_facial_style c, ch_level c] @
     u32_le (ucast (ch_zone c)) @ u32_le (ucast (ch_map c)) @ u32_le (f32_as_u32 (ch_position_x c)) @
     u32_le (f32_as_u32 (ch_position_y c)) @ u32_le (f32_as_u32 (ch_position_z c)) @
     u32_le 0 @ u32_le 0 @ u32_le 0 @ [0] @ u32_le 0 @ u32_le 0 @ u32_le 0 @ concat (map (fixint_bytes \<circ> Item_sval) items)"
  by (simp add: char_sval_def)

lemma entry_bytes:
  "fixint_bytes (entry c) = u64_le (ch_id c) @ ch_name c @ [0] @ [ch_race c, ch_class c, ch_gender c,
     ch_skin_color c, ch_face c, ch_hair_style c, ch_hair_color c, ch_facial_style c, ch_level c] @
     u32_le (ucast (ch_zone c)) @ u32_le (ucast (ch_map c)) @ u32_le (f32_as_u32 (ch_position_x c)) @
     u32_le (f32_as_u32 (ch_position_y c)) @ u32_le (f32_as_u32 (ch_position_z c)) @ replicate 232 0"
proof -
  have zeros: "u32_le 0 @ u32_le 0 @ u32_le 0 @ [0] @ u32_le 0 @ u32_le 0 @ u32_le 0 @ replicate 207 0 = replicate 232 0"
    (is "?l = _")
  proof (rule replicate_eqI)
    show "length ?l = 232" by simp
    show "y \<in> set ?l \<Longrightarrow> y = 0" for y by (simp add: u32_le_def le_bytes_short)
  qed
  show ?thesis unfolding entry_def char_sval_bytes no_items_bytes zeros ..
qed

lemma entry_str: "name_wire_ok c \<Longrightarrow> str_ok (entry c)"
  by (simp add: entry_def char_sval_def name_wire_ok_def no_items_def Item_sval_def list_all_iff)

lemma entry_length: "length (fixint_bytes (entry c)) = 270 + length (ch_name c)"
  by (simp add: entry_bytes)

lemma read_listed_entry:
  assumes "name_wire_ok c"
  shows "read_listed (fixint_bytes (entry c) @ rest) = Some (listed_character c, rest)"
proof -
  let ?bs = "fixint_bytes (entry c) @ rest"
  let ?r = "[ch_race c, ch_class c, ch_gender c,
     ch_skin_color c, ch_face c, ch_hair_style c, ch_hair_color c, ch_facial_style c, ch_level c] @
     u32_le (ucast (ch_zone c)) @ u32_le (ucast (ch_map c)) @ u32_le (f32_as_u32 (ch_position_x c)) @
     u32_le (f32_as_u32 (ch_position_y c)) @ u32_le (f32_as_u32 (ch_position_z c)) @ replicate 232 0 @ rest"
  have bs: "?bs = u64_le (ch_id c) @ ch_name c @ 0 # ?r" by (simp add: entry_bytes)
  have name: "takeWhile (\<lambda>b. b \<noteq> 0) (drop 8 ?bs) = ch_name c"
    unfolding bs using assms by (simp add: name_wire_ok_def takeWhile_append2)
      (metis (mono_tags, lifting) append_Nil2 takeWhile.simps(2) takeWhile_append2)
  have r: "drop (9 + length (ch_name c)) ?bs = ?r" unfolding bs by simp
  have i: "take 8 ?bs = u64_le (ch_id c)" unfolding bs by simp
  have five: "[0..<5] = [0, 1, 2, 3, 4 :: nat]" by (simp add: upt_rec)
  have place: "take 4 (drop 9 ?r) = u32_le (ucast (ch_zone c))" "take 4 (drop 13 ?r) = u32_le (ucast (ch_map c))"
    "take 4 (drop 17 ?r) = u32_le (f32_as_u32 (ch_position_x c))" "take 4 (drop 21 ?r) = u32_le (f32_as_u32 (ch_position_y c))"
    "take 4 (drop 25 ?r) = u32_le (f32_as_u32 (ch_position_z c))" "take 232 (drop 29 ?r) = replicate 232 0"
    "drop 261 ?r = rest" by simp_all
  show ?thesis
    unfolding read_listed_def Let_def name r i using place by (simp add: listed_character_def five)
qed

definition enum_body :: "Character list \<Rightarrow> bytes" where
  "enum_body cs = of_nat (length cs) # concat (map (\<lambda>c. fixint_bytes (entry c)) cs)"

lemma length_enum_body: "length (enum_body cs) = Suc (\<Sum>c \<leftarrow> cs. 270 + length (ch_name c))"
  by (simp add: enum_body_def length_concat comp_def entry_length)

lemma enum_body_count: "270 * length cs < length (enum_body cs)"
  unfolding length_enum_body by (induction cs) simp_all

lemma packet_body_enum:
  assumes "bincode_lib (wl_lib (sv_world E))" and "\<forall>c \<in> set cs. name_wire_ok c"
  shows "packet_body E (SP_CharEnum (map (\<lambda>c. (c, no_items)) cs)) = Ok (SmsgCharEnum, enum_body cs)"
proof -
  have "serialize_chars (wl_lib (sv_world E)) (map (\<lambda>c. (c, no_items)) cs) =
      Ok (concat (map (\<lambda>c. fixint_bytes (entry c)) cs))"
    using assms(2)
    by (induction cs) (simp_all add: bincode_lib.ser_wow [OF assms(1)] entry_str flip: entry_def)
  then show ?thesis by (simp add: enum_body_def)
qed

lemma client_chars_enum:
  assumes "length (enum_body cs) < 2 ^ 16" and "\<forall>c \<in> set cs. name_wire_ok c"
  shows "client_chars (enum_body cs) = Some (map listed_character cs)"
proof -
  have "length cs < 256" using enum_body_count [of cs] assms(1) by simp
  then have n: "unat (of_nat (length cs) :: u8) = length cs" by (simp add: unat_of_nat)
  have "read_listeds (length cs) (concat (map (\<lambda>c. fixint_bytes (entry c)) cs)) = Some (map listed_character cs)"
    using assms(2) by (induction cs) (simp_all add: read_listed_entry)
  then show ?thesis by (simp add: client_chars_def enum_body_def n)
qed

lemma send_enum:
  assumes "bincode_lib (wl_lib (sv_world E))" and "stream_cipher (wl_crypto (sv_world E))"
    and "\<forall>c \<in> set cs. name_wire_ok c" and "length (enum_body cs) + 2 < 2 ^ 16" and "wr_plan (ss_stream s) = []"
  shows "\<exists>s' out. send_packet E (SP_CharEnum (map (\<lambda>c. (c, no_items)) cs)) s = (Ok (), s') \<and>
    wr_out (ss_stream s') = wr_out (ss_stream s) @ out \<and>
    client_read (wl_crypto (sv_world E)) (hc_encrypt (ss_encryption s)) out = Some [(0x3B, enum_body cs)]"
proof -
  obtain x k' where x: "cy_rc4_process (wl_crypto (sv_world E)) (hc_encrypt (ss_encryption s))
      (server_header SmsgCharEnum (length (enum_body cs))) = (x, k')"
    by fastforce
  from send_packet_eq [OF assms(1) packet_body_enum [OF assms(1,3)] assms(4,5) x]
    client_read_packet [OF assms(2) x assms(4), of "[]"]
  show ?thesis by (simp add: client_read.simps)
qed

section \<open>Properties\<close>

text \<open>
  C16. The characters a client sees are its own, and all of them: a request for the list, on a socket
  that takes what is written, is answered by one packet, from which the client reads, byte by byte, the
  identifier, name, race, class, looks, level, zone, map and position of the account's characters, in the
  order in which the database returned them. The coordinates of a position arrive as whole numbers (a negative one as 0),
  and the rest of an entry is zeros. This holds as long as the packet fits its 16-bit size, the names being
  text without NUL.
\<close>

theorem character_list_on_wire:
  assumes "bincode_lib (wl_lib (sv_world (we_send E)))" and "stream_cipher (wl_crypto (sv_world (we_send E)))"
    and "we_chars E = mysql_characters D" and "ce_fault D QC_get_by_account = None"
    and "cl_account (ss_client s) = Some a" and "wr_plan (ss_stream s) = []"
    and "own = filter (\<lambda>c. ch_account c = a) (char_rows k)"
    and "\<forall>c \<in> set own. utf8_valid (ch_name c) \<and> 0 \<notin> set (ch_name c)"
    and "(\<Sum>c \<leftarrow> own. 270 + length (ch_name c)) + 3 < 2 ^ 16"
  shows "\<exists>s' out body cs. handle_packet E CP_CharEnum s k = (Ok (), s', k) \<and>
    wr_out (ss_stream s') = wr_out (ss_stream s) @ out \<and>
    client_read (wl_crypto (sv_world (we_send E))) (hc_encrypt (ss_encryption s)) out = Some [(0x3B, body)] \<and>
    char_get_by_account D a k = Ok cs \<and> mset cs = mset own \<and>
    client_chars body = Some (map (\<lambda>c.
      \<lparr>li_id = ch_id c, li_name = ch_name c, li_race = ch_race c, li_class = ch_class c, li_gender = ch_gender c,
       li_looks = [ch_skin_color c, ch_face c, ch_hair_style c, ch_hair_color c, ch_facial_style c],
       li_level = ch_level c,
       li_place = [ucast (ch_zone c), ucast (ch_map c), f32_as_u32 (ch_position_x c), f32_as_u32 (ch_position_y c),
         f32_as_u32 (ch_position_z c)], li_rest = replicate 232 0\<rparr>) cs)"
proof -
  let ?cs = "sort_key (ce_rank D) own"
  have names: "\<forall>c \<in> set ?cs. name_wire_ok c" using assms(8) by (simp add: name_wire_ok_def)
  have "sum_list (map f ?cs) = sum_list (map f own)" for f :: "Character \<Rightarrow> nat" by (simp flip: sum_mset_sum_list)
  then have size: "length (enum_body ?cs) + 2 < 2 ^ 16" using assms(9) unfolding length_enum_body by simp
  from send_enum [OF assms(1,2) names size assms(6)] obtain s' out
    where sent: "send_packet (we_send E) (SP_CharEnum (map (\<lambda>c. (c, no_items)) ?cs)) s = (Ok (), s')"
      "wr_out (ss_stream s') = wr_out (ss_stream s) @ out"
      "client_read (wl_crypto (sv_world (we_send E))) (hc_encrypt (ss_encryption s)) out = Some [(0x3B, enum_body ?cs)]"
    by blast
  have "handle_packet E CP_CharEnum s k = (Ok (), s', k)"
    using assms(3-5,7) sent(1)
    by (simp add: handle_char_enum_def mysql_characters_def char_get_by_account_def char_run_def answer_def)
  moreover have "client_chars (enum_body ?cs) = Some (map listed_character ?cs)"
    using client_chars_enum [OF _ names] size by simp
  moreover have "char_get_by_account D a k = Ok ?cs" "mset ?cs = mset own"
    using assms(4,7) by (simp_all add: char_get_by_account_def char_run_def)
  ultimately show ?thesis using sent(2,3) unfolding listed_character_def [abs_def] by blast
qed

theorem character_list_on_wire_witness:
  "\<exists>s' out body. handle_packet demo_world_env CP_CharEnum (demo_session\<lparr>ss_client := \<lparr>cl_id = 5, cl_account = Some 2\<rparr>\<rparr>) demo_chars =
       (Ok (), s', demo_chars) \<and>
     client_read ref_crypto (hc_encrypt (HeaderCrypto_new ref_crypto [])) out = Some [(0x3B, body)] \<and>
     map_option (map li_name) (client_chars body) = Some [ascii ''Thrall'']"
proof -
  let ?s = "demo_session\<lparr>ss_client := \<lparr>cl_id = 5, cl_account = Some 2\<rparr>\<rparr>"
  have env: "we_send demo_world_env = demo_send_env" "we_chars demo_world_env = mysql_characters char_demo_env"
    by (simp_all add: demo_world_env_def)
  have own: "char_rows demo_chars = filter (\<lambda>c. ch_account c = 2) (char_rows demo_chars)"
    by (simp add: demo_chars_def char_rows_def)
  have name: "\<forall>c \<in> set (char_rows demo_chars). utf8_valid (ch_name c) \<and> 0 \<notin> set (ch_name c)" by code_simp
  have size: "(\<Sum>c \<leftarrow> char_rows demo_chars. 270 + length (ch_name c)) + 3 < 2 ^ 16"
    by (simp add: demo_chars_def char_rows_def ascii_def)
  obtain c where c: "char_rows demo_chars = [c]" "ch_name c = ascii ''Thrall''" by (simp add: demo_chars_def char_rows_def)
  have session: "cl_account (ss_client ?s) = Some 2" "wr_plan (ss_stream ?s) = []"
    "hc_encrypt (ss_encryption ?s) = hc_encrypt (HeaderCrypto_new ref_crypto [])"
    "wl_crypto (sv_world demo_send_env) = ref_crypto" "ce_fault char_demo_env QC_get_by_account = None"
    by (simp_all add: demo_session_def demo_send_env_def demo_world_lib_def char_demo_env_def)
  from character_list_on_wire [of demo_world_env, unfolded env, OF demo_send_libs refl session(5,1,2) own name size]
  obtain s' out body cs where w: "handle_packet demo_world_env CP_CharEnum ?s demo_chars = (Ok (), s', demo_chars)"
    "client_read ref_crypto (hc_encrypt (HeaderCrypto_new ref_crypto [])) out = Some [(0x3B, body)]"
    "mset cs = mset [c]" "map_option (map li_name) (client_chars body) = Some (map ch_name cs)"
    unfolding session(3,4) c(1) by (auto simp: comp_def)
  from w(3) have "cs = [c]" by simp
  with w c(2) show ?thesis by (intro exI [of _ s'] exI [of _ out] exI [of _ body]) simp
qed

text \<open>
  A packet that does not fit: without overflow checks the size wraps, the packet is written all
  the same, and what the client reads is not what was sent. Some 240 characters of one account,
  whose number nothing bounds, make such a list.
\<close>

lemma oversized_packet_misread:
  assumes "bincode_lib (wl_lib (sv_world E))" and "stream_cipher (wl_crypto (sv_world E))" and "\<not> sv_checks E"
    and "packet_body E p = Ok (opcode, bs)" and "2 ^ 16 \<le> length bs + 2" and "wr_plan (ss_stream s) = []"
  shows "\<exists>s' out. send_packet E p s = (Ok (), s') \<and> wr_out (ss_stream s') = wr_out (ss_stream s) @ out \<and>
    client_read (wl_crypto (sv_world E)) (hc_encrypt (ss_encryption s)) out \<noteq> Some [(OpCode_u16 opcode, bs)]"
proof -
  let ?C = "wl_crypto (sv_world E)" and ?h = "server_header opcode (length bs)"
  obtain x k' where x: "cy_rc4_process ?C (hc_encrypt (ss_encryption s)) ?h = (x, k')" by fastforce
  have len: "length x = 4" using stream_cipher.process_length' [OF assms(2) x] by simp
  have inv: "cy_rc4_process ?C (hc_encrypt (ss_encryption s)) x = (?h, k')"
    using stream_cipher.process_inverse [OF assms(2), of "hc_encrypt (ss_encryption s)" ?h] x by simp
  have "ser_wow (wl_lib (sv_world E)) (STup [SU16 (swap_bytes (of_nat (length bs) + 2)), SU16 (OpCode_u16 opcode)]) = Some ?h"
    by (simp add: bincode_lib.ser_wow [OF assms(1)] server_header_def add.commute)
  then have sent: "send_packet E p s = (Ok (), s\<lparr>ss_encryption := (ss_encryption s)\<lparr>hc_encrypt := k'\<rparr>,
      ss_stream := (ss_stream s)\<lparr>wr_out := wr_out (ss_stream s) @ x @ bs\<rparr>\<rparr>)"
    using assms(3,4,6) x by (simp add: send_packet_def write_packet_def add_checked_def hc_encrypt_header_def)
  have "(length bs + 2) mod 2 ^ 16 - 2 < length bs"
    using assms(5) mod_less_eq_dividend [of "length bs + 2" "2 ^ 16"] mod_less_divisor [of "2 ^ 16" "length bs + 2"] by simp
  moreover have "x \<noteq> []" using len by auto
  ultimately have "client_read ?C (hc_encrypt (ss_encryption s)) (x @ bs) \<noteq> Some [(OpCode_u16 opcode, bs)]"
    using len server_header_size [of opcode "length bs"] by (subst client_read.simps) (auto simp: inv Let_def)
  with sent show ?thesis by auto
qed

end
