(* ===== verification/Journey.thy ===== *)
theory Journey
  imports World_Server Auth_Session
begin

text \<open>
  The two servers together: an account is registered, its owner logs in over the wire of the
  authentication server with the password alone, and enters the world with the key of that login.
  The theory composes the registration, the conversation of a login and the admission to the world;
  what connects them is the table of accounts.
\<close>

section \<open>The login on the wire\<close>

text \<open>A connection that sends its request and its proof and then closes.\<close>

lemma login_and_leave:
  assumes "libs L" and "initiate_login L (Ev 0) (rng 0) name (my_db s) = Ok t"
    and "complete_login L (Ev 1) t (cp_user_public_key p) (cp_user_proof p) (my_db s) = (Ok m, db')"
    and "ConnectRequest_wf r" and "cr_build r = 12340" and "cr_identifier_length r = of_nat (length name)"
    and "length name \<le> 16" and "utf8_valid name" and "ConnectProof_wf p" and "tcp_wfaults c = []"
    and "tcp_in c = [Seg (message_bytes (M_Connect r) @ name), Seg (message_bytes (M_Proof p))]"
  shows "connect_loop (mysql_server L chk Ev rng) 0 RS_Start s c =
    (Err (SE_Packet (IoRead UnexpectedEof)), s\<lparr>my_db := db'\<rparr>,
     c\<lparr>tcp_in := [], tcp_out := tcp_out c @ challenge_bytes t @ proof_bytes m\<rparr>)"
proof -
  let ?E = "mysql_server L chk Ev rng"
  have b: "bincode_lib L" using assms(1) by (simp add: libs_def)
  let ?c1 = "c\<lparr>tcp_in := tl (tcp_in c), tcp_out := tcp_out c @ challenge_bytes t\<rparr>"
  have t1: "connect_trans ?E (0, RS_Start, s, c) (M_Connect r) (Suc 0, RS_ConnectChallenge t, s, ?c1)"
    using assms initiate_login_token_wf [OF assms(2)]
    by (intro trans_connect [where name = name]) (simp_all add: mysql_server_accounts)
  let ?c2 = "?c1\<lparr>tcp_in := tl (tcp_in ?c1), tcp_out := tcp_out ?c1 @ proof_bytes m\<rparr>"
  have t2: "connect_trans ?E (Suc 0, RS_ConnectChallenge t, s, ?c1) (M_Proof p)
      (Suc (Suc 0), RS_Realmlist, s\<lparr>my_db := db'\<rparr>, ?c2)"
    using assms b by (intro trans_proof) (simp_all add: mysql_server_accounts on_db_def)
  have "connect_loop ?E 0 RS_Start s c = connect_loop ?E (Suc (Suc 0)) RS_Realmlist (s\<lparr>my_db := db'\<rparr>) ?c2"
    using connect_loop_step [OF t1] connect_loop_step [OF t2] by simp
  also have "\<dots> = (Err (SE_Packet (IoRead UnexpectedEof)), s\<lparr>my_db := db'\<rparr>, ?c2)"
    using assms(11) by (intro connect_loop_closed) simp_all
  finally show ?thesis using assms(11) by simp
qed

section \<open>A sample player\<close>

lemma arlyon_created:
  "create_account fixed_digest_lib demo_env (replicate 32 0) (ascii ''arlyon'') (ascii ''t'') [] demo_db =
     (Ok 1, demo_db\<lparr>db_account := [demo_arlyon],
        db_realmcharacters := [\<lparr>rc_realmid = 1, rc_acctid = 1, rc_numchars = 0\<rparr>]\<rparr>)"
proof -
  have up: "to_ascii_uppercase (ascii ''arlyon'') = ascii ''ARLYON''" "to_ascii_uppercase (ascii ''t'') = ascii ''T''"
    by (simp_all add: to_ascii_uppercase_def ascii_def u8_ascii_upper_def)
  have "length (ascii ''arlyon'') = 6" "length (ascii ''t'') = 1" by (simp_all add: ascii_def)
  moreover have "(from_credentials fixed_digest_lib (ascii ''ARLYON'') (ascii ''T'') (replicate 32 0) :: (AccountOpError, verifier) res)
      = Ok (le_bytes 32 (7 ^ 90))"
    by (simp add: fixed_digest.from_credentials_eq client_x_def fixed_digest_sha1 fixed_digest.srp_N_val Let_def)
  ultimately show ?thesis
    by (simp add: create_account_def Let_def srp_register_def up demo_env_def demo_arlyon_def demo_row_def demo_realm_def
        demo_db_def missing_realmcharacters_def)
qed

lemma arlyon_proof:
  fixes k :: bytes
  shows "srp_proof fixed_digest_lib (sha1 fixed_digest_lib (ascii ''ARLYON'')) (replicate 32 0) (client_a_pub fixed_digest_lib 0)
     (le_bytes 32 (7 + 3 * 7 ^ 90)) k = cp_user_proof demo_proof"
  by (simp add: srp_proof_def fixed_digest_sha1 demo_proof_def client_a_pub_def)

definition arlyon_request :: ConnectRequest where
  "arlyon_request = demo_request\<lparr>cr_identifier_length := 6\<rparr>"

definition arlyon_client :: tcp where
  "arlyon_client = \<lparr>tcp_in = [Seg (message_bytes (M_Connect arlyon_request) @ ascii ''ARLYON''),
     Seg (message_bytes (M_Proof demo_proof))], tcp_out = [], tcp_wfaults = []\<rparr>"

section \<open>Properties\<close>

text \<open>
  C4. From the password to the world, for the account named ARLYON, the one the service stores its
  sessions for. Where it has been registered (in any case of its letters), no ban row bears its
  identifier and the database answers, a client that knows the password, answers the
  challenge as SRP6 says and leaves has been sent the challenge with the stored salt and the server's
  public key, and the server's proof over the key it derived itself; the public key and the shared secret
  must have 32 significant bytes. With that key it is let into the world: the session is of the
  registered account, and the packets of a new session are readable with the cipher of the key.
\<close>

theorem player_journey:
  assumes "libs L" and registered: "create_account L D salt username password email db = (Ok account, my_db s)"
    and "to_ascii_uppercase username = ascii ''ARLYON''" and "length salt = 32"
    and "\<forall>r \<in> set (db_account db). \<not> ev_text_eq D (ar_username r) (ascii ''ARLYON'')"
    and "ev_text_eq D (ascii ''ARLYON'') (ascii ''ARLYON'')" and "\<forall>q. ev_fault D q = None"
    and "ar_session_key_auth (ev_account_defaults D) = None"
    and "\<forall>b \<in> set (db_account_banned db). br_id b \<noteq> account"
    and "xh = client_x L (ascii ''ARLYON'') (to_ascii_uppercase password) salt"
    and "B = (7 ^ le_val (rev b) + 3 * (7 ^ xh mod srp_N L)) mod srp_N L" and "256 ^ 31 \<le> B"
    and "secret = client_secret L xh x (le_val (sha1 L (client_a_pub L x @ le_bytes 32 B))) B"
    and "256 ^ 31 \<le> secret" and "k = sha_interleave L (le_bytes 32 secret)"
    and "cp_user_public_key p = client_a_pub L x"
    and "cp_user_proof p = srp_proof L (sha1 L (ascii ''ARLYON'')) salt (client_a_pub L x) (le_bytes 32 B) k"
    and "ConnectRequest_wf r" and "cr_build r = 12340" and "cr_identifier_length r = 6" and "ConnectProof_wf p"
    and "tcp_wfaults c = []"
    and "tcp_in c = [Seg (message_bytes (M_Connect r) @ ascii ''ARLYON''), Seg (message_bytes (M_Proof p))]"
    and loop: "connect_loop (mysql_server L chk (\<lambda>_. D) (\<lambda>_. b)) 0 RS_Start s c = (q, s1, c1)"
    and "W = sv_world (we_send (co_env conn 0 0))" and "wl_lib W = L" and "stream_cipher (wl_crypto W)"
    and "co_accounts conn = (\<lambda>u. get_by_username D u (my_db s1))"
    and "au_username a = ascii ''ARLYON''" and "au_realm_id a = ws_id v"
    and "au_client_proof a = server_proof L (ascii ''ARLYON'') (au_local_challenge a) (ws_realm_seed v) k"
    and "read_client_packet W CmsgAuthSession body = Ok (CP_AuthSession a)" and "length body \<le> 2042"
    and "co_in conn = [Seg (frame_header (CmsgAuthSession, body) @ body)]"
    and "wr_plan (co_writer conn) = []" and "wo_queue (ws_world v) = []" and "length (au_addons a) < 8000"
  shows "tcp_out c1 = tcp_out c @ [0, 0, 0] @ le_bytes 32 B @ [1, 7, 32] @ rev N_bytes_be @ salt @ VERSION_CHALLENGE @ [0]
      @ proof_bytes (sha1 L (client_a_pub L x @ cp_user_proof p @ k)) \<and>
    (\<exists>wr v' ses out. accept_one conn v = (Ok (), wr, v') \<and> wo_sessions (ws_world v') (co_id conn) = Some ses \<and>
       ss_client ses = \<lparr>cl_id = co_id conn, cl_account = Some account\<rparr> \<and>
       wr_out (ss_stream ses) = wr_out (co_writer conn) @ [0, 42, 0xEC, 1, 1, 0, 0, 0] @ ws_realm_seed v @ co_challenge conn @ out \<and>
       client_read (wl_crypto W) (dropped_cipher (wl_crypto W) ENCRYPT_KEY k) out = Some (welcome_packets (au_addons a)))"
proof -
  let ?m = "sha1 L (client_a_pub L x @ cp_user_proof p @ k)"
  have srp: "srp_libs L" using assms(1) by (simp add: libs_def)
  note named = assms(3)
  obtain vf where vf: "(from_credentials L (ascii ''ARLYON'') (to_ascii_uppercase password) salt :: (AccountOpError, verifier) res) = Ok vf"
    and row: "find (\<lambda>r. ev_text_eq D (ar_username r) (ascii ''ARLYON'')) (db_account (my_db s)) =
      Some ((ev_account_defaults D)\<lparr>ar_id := account, ar_username := ascii ''ARLYON'', ar_salt := salt,
        ar_verifier := vf, ar_reg_mail := email, ar_email := email, ar_joindate := ev_db_time D\<rparr>)" (is "_ = Some ?row")
    using registered_row [OF registered, unfolded named, OF assms(5,6)] by blast
  have "length vf = 32" using vf by (auto simp: from_credentials_def Let_def res_simps)
  then have wf: "account_row_wf ?row" using assms(4,8) by (simp add: account_row_wf_def)
  have B: "B = server_key L b xh" by (simp add: server_key_def assms(11))
  have no_fault: "ev_fault D Q_get_by_username = None" "ev_fault D Q_get_ban = None" using assms(7) by simp_all
  obtain t where challenge: "initiate_login L D b (ascii ''ARLYON'') (my_db s) = Ok t"
    and token: "srp_salt (ct_server t) = salt" "srp_b_pub (ct_server t) = le_bytes 32 B"
    and "connect_accept L t (client_a_pub L x) (cp_user_proof p) = Ok (?m, k)"
    using registered_login [OF srp registered, unfolded named, OF assms(5,6,9) no_fault assms(4,8,10) B assms(12) refl
      assms(13-15,17)] by blast
  then have acc: "connect_accept L t (cp_user_public_key p) (cp_user_proof p) = Ok (?m, k)" by (simp add: assms(16))
  define db' where "db' = update_session D session_username k (my_db s)"
  have fin: "complete_login L D t (cp_user_public_key p) (cp_user_proof p) (my_db s) = (Ok ?m, db')"
    using assms(7) by (simp add: complete_login_def acc db'_def)
  have name: "length (ascii ''ARLYON'') = 6" "utf8_valid (ascii ''ARLYON'')" by code_simp+
  have "connect_loop (mysql_server L chk (\<lambda>_. D) (\<lambda>_. b)) 0 RS_Start s c =
      (Err (SE_Packet (IoRead UnexpectedEof)), s\<lparr>my_db := db'\<rparr>,
       c\<lparr>tcp_in := [], tcp_out := tcp_out c @ challenge_bytes t @ proof_bytes ?m\<rparr>)"
    by (rule login_and_leave [where name = "ascii ''ARLYON''"]) (use assms(1,18-23) challenge fin name in simp_all)
  with loop have s1: "s1 = s\<lparr>my_db := db'\<rparr>" and out: "tcp_out c1 = tcp_out c @ challenge_bytes t @ proof_bytes ?m" by auto
  have found: "find (\<lambda>r. ev_text_eq D (ar_username r) (au_username a)) (db_account (my_db s)) = Some ?row"
    using row by (simp add: assms(29))
  from login_then_world [OF assms(1) acc fin found _ wf _ _ assms(25-27) _ assms(30) _ assms(32-37)]
  show ?thesis using assms(6,7,28,31) s1 out token by (auto simp: challenge_bytes_def)
qed

theorem player_journey_witness:
  "\<exists>db b m. tcp_out (snd (snd (connect_loop demo_server 0 RS_Start (demo_start\<lparr>my_db := db\<rparr>) arlyon_client))) =
       [0, 0, 0] @ b @ [1, 7, 32] @ rev N_bytes_be @ replicate 32 0 @ VERSION_CHALLENGE @ [0] @ proof_bytes m \<and>
     (\<exists>wr v' ses. accept_one (demo_connection (my_db (fst (snd (connect_loop demo_server 0 RS_Start (demo_start\<lparr>my_db := db\<rparr>)
         arlyon_client))))) (WorldServer_new 1 [1, 2, 3, 4] 0 demo_chars) = (Ok (), wr, v') \<and>
       wo_sessions (ws_world v') 5 = Some ses \<and> cl_account (ss_client ses) = Some 1)"
proof -
  let ?db = "demo_db\<lparr>db_account := [demo_arlyon], db_realmcharacters := [\<lparr>rc_realmid = 1, rc_acctid = 1, rc_numchars = 0\<rparr>]\<rparr>"
  let ?s = "demo_start\<lparr>my_db := ?db\<rparr>" and ?v = "WorldServer_new 1 [1, 2, 3, 4] 0 demo_chars :: (rc4, char_db) WorldServer"
  let ?L = fixed_digest_lib and ?B = "7 + 3 * 7 ^ 90 :: nat"
  obtain q s1 c1 where loop: "connect_loop demo_server 0 RS_Start ?s arlyon_client = (q, s1, c1)"
    using prod_cases3 by blast
  have up: "to_ascii_uppercase (ascii ''arlyon'') = ascii ''ARLYON''" "to_ascii_uppercase (ascii ''t'') = ascii ''T''"
    by (simp_all add: to_ascii_uppercase_def ascii_def u8_ascii_upper_def)
  have created: "create_account ?L demo_env (replicate 32 0) (ascii ''arlyon'') (ascii ''t'') [] demo_db = (Ok 1, my_db ?s)"
    by (simp add: arlyon_created)
  have x: "90 = client_x ?L (ascii ''ARLYON'') (to_ascii_uppercase (ascii ''t'')) (replicate 32 0)"
    by (simp add: up client_x_def fixed_digest_sha1)
  have B: "?B = (7 ^ le_val (rev (replicate 31 0 @ [1])) + 3 * (7 ^ 90 mod srp_N ?L)) mod srp_N ?L"
    by (simp add: fixed_digest.srp_N_val)
  have s: "7 ^ 90 = client_secret ?L 90 0 (le_val (sha1 ?L (client_a_pub ?L 0 @ le_bytes 32 ?B))) ?B"
    using fixed_digest_secret
    by (simp add: fixed_digest_sha1 client_a_pub_def fixed_digest_server_def le_val_le_bytes)
  let ?k = "sha_interleave ?L (le_bytes 32 (7 ^ 90))"
  have k: "length ?k = 40" by (simp add: fixed_digest.length_sha_interleave)
  note world = demo_login_libs demo_body_read demo_proof_ok [OF k]
  have "tcp_out c1 = tcp_out arlyon_client @ [0, 0, 0] @ le_bytes 32 ?B @ [1, 7, 32] @ rev N_bytes_be @ replicate 32 0 @
      VERSION_CHALLENGE @ [0] @ proof_bytes (sha1 ?L (client_a_pub ?L 0 @ cp_user_proof demo_proof @ ?k)) \<and>
    (\<exists>wr v' ses out. accept_one (demo_connection (my_db s1)) ?v = (Ok (), wr, v') \<and>
       wo_sessions (ws_world v') (co_id (demo_connection (my_db s1))) = Some ses \<and>
       ss_client ses = \<lparr>cl_id = co_id (demo_connection (my_db s1)), cl_account = Some 1\<rparr> \<and>
       wr_out (ss_stream ses) = wr_out (co_writer (demo_connection (my_db s1))) @ [0, 42, 0xEC, 1, 1, 0, 0, 0] @
         ws_realm_seed ?v @ co_challenge (demo_connection (my_db s1)) @ out \<and>
       client_read (wl_crypto demo_login_lib) (dropped_cipher (wl_crypto demo_login_lib) ENCRYPT_KEY ?k) out =
         Some (welcome_packets (au_addons demo_auth_session)))"
  proof (rule player_journey [OF fixed_digest.libs_axioms created up(1) _ _ _ _ _ _ x B _ s _ refl, where r = arlyon_request
        and c = arlyon_client and chk = True and q = q and body = demo_body])
    show "connect_loop (mysql_server ?L True (\<lambda>_. demo_env) (\<lambda>_. replicate 31 0 @ [1])) 0 RS_Start ?s arlyon_client = (q, s1, c1)"
      using loop by (simp add: demo_server_def)
    show "cp_user_proof demo_proof = srp_proof ?L (sha1 ?L (ascii ''ARLYON'')) (replicate 32 0) (client_a_pub ?L 0) (le_bytes 32 ?B) ?k"
      by (rule arlyon_proof [symmetric])
  qed (use world demo_wf in \<open>simp_all add: demo_db_def demo_env_def demo_row_def demo_connection_def demo_body_def
      WorldServer_new_def with_world_def World_new_def arlyon_client_def arlyon_request_def demo_request_def
      ConnectRequest_wf_def demo_auth_session_def demo_proof_def ascii_def\<close>)
  note journey = this
  have id: "tcp_out arlyon_client = []" "co_id (demo_connection (my_db s1)) = 5"
    by (simp_all add: arlyon_client_def demo_connection_def)
  have "\<exists>b m. tcp_out c1 = [0, 0, 0] @ b @ [1, 7, 32] @ rev N_bytes_be @ replicate 32 0 @ VERSION_CHALLENGE @ [0] @ proof_bytes m"
    using journey [THEN conjunct1] id by fastforce
  moreover have "\<exists>wr v' ses. accept_one (demo_connection (my_db s1)) ?v = (Ok (), wr, v') \<and> wo_sessions (ws_world v') 5 = Some ses \<and>
      cl_account (ss_client ses) = Some 1"
    using journey [THEN conjunct2] id by (metis Client.select_convs(2))
  ultimately show ?thesis by (intro exI [of _ ?db]) (simp add: loop)
qed

end
