(* ===== verification/Tasks.thy ===== *)
theory Tasks
  imports World_Server
begin

text \<open>
  How the servers run their tasks: \<open>flatten\<close> (crates/utils) turns the end of a spawned task into
  a result, and \<open>start\<close> of either server joins its tasks with \<open>try_join!\<close>. The macro is tokio's and
  a parameter: from the ends of the tasks, in the order in which they happen, it gives the result
  of the join once there is one. What it documents is the locale \<open>join_lib\<close>, interpreted on a
  reference function. The end of a task is the result of its function, where \<open>Panic\<close> is the
  panic that the runtime catches and reports through the task's handle.
\<close>

section \<open>The join\<close>

datatype 'e task_error = TE_Error 'e | TE_JoinFailed

fun flatten :: "('e, 'a) res \<Rightarrow> ('e task_error, 'a) res" where
  "flatten (Ok result) = Ok result"
| "flatten (Err err) = Err (TE_Error err)"
| "flatten Panic = Err TE_JoinFailed"

type_synonym 'e joiner = "nat \<Rightarrow> (nat \<times> ('e, unit) res) list \<Rightarrow> ('e, unit) res option"

text \<open>
  \<open>try_join!\<close> returns when all branches have completed with \<open>Ok\<close>, or on the first \<open>Err\<close>.
\<close>

locale join_lib =
  fixes try_join :: "'e task_error joiner"
  assumes join_ok: "\<forall>x \<in> set ends. snd x = Ok () \<Longrightarrow> distinct (map fst ends) \<Longrightarrow> fst ` set ends \<subseteq> {..<n} \<Longrightarrow>
      try_join n ends = (if length ends = n then Some (Ok ()) else None)"
    and join_err: "\<forall>x \<in> set before. snd x = Ok () \<Longrightarrow> distinct (i # map fst before) \<Longrightarrow>
      insert i (fst ` set before) \<subseteq> {..<n} \<Longrightarrow> try_join n (before @ (i, Err e) # after) = Some (Err e)"

fun ref_try_join :: "nat \<Rightarrow> (nat \<times> ('e, unit) res) list \<Rightarrow> ('e, unit) res option" where
  "ref_try_join n [] = (if n = 0 then Some (Ok ()) else None)"
| "ref_try_join n ((i, Err e) # ends) = Some (Err e)"
| "ref_try_join n ((i, Panic) # ends) = Some Panic"
| "ref_try_join n ((i, Ok _) # ends) = (if n = 0 then Some (Ok ()) else ref_try_join (n - 1) ends)"

section \<open>The servers (authserver.rs, worldserver.rs)\<close>

definition spawned :: "(nat \<times> ('e, unit) res) list \<Rightarrow> (nat \<times> ('e task_error, unit) res) list" where
  "spawned ends = map (\<lambda>(i, r). (i, flatten r)) ends"

text \<open>
  \<open>AuthServer::start\<close>: task 0 authenticates, 1 receives heartbeats, 2 updates the realm list.
  \<open>WorldServer::start\<close>: 0 sends heartbeats, 1 accepts clients, 2 updates the world, 3 handles
  packets, 4 runs the timers.
\<close>

definition auth_start :: "'e task_error joiner \<Rightarrow> (nat \<times> ('e, unit) res) list \<Rightarrow> ('e task_error, unit) res option" where
  "auth_start try_join ends = try_join 3 (spawned ends)"

definition world_start :: "'e task_error joiner \<Rightarrow> (nat \<times> ('e, unit) res) list \<Rightarrow> ('e task_error, unit) res option" where
  "world_start try_join ends = try_join 5 (spawned ends)"

section \<open>Lemmas\<close>

text \<open>An error of accepting is the end of the loop over the connections, and nothing else.\<close>

lemma authentication_stops:
  "authentication cs s = (Ok (), s', served) \<Longrightarrow> AcceptError \<notin> set cs \<Longrightarrow>
     authentication (cs @ AcceptError # later) s = (Ok (), s', served) \<and> length served = length cs"
proof (induction cs arbitrary: s served)
  case (Cons x cs)
  from Cons(3) obtain E c where x: "x = Accepted E c" by (cases x) auto
  obtain q s1 c1 where q: "connect_loop E 0 RS_Start s c = (q, s1, c1)" using prod_cases3 by blast
  obtain r s2 rest where r: "authentication cs s1 = (r, s2, rest)" using prod_cases3 by blast
  with Cons(2) q x have "q \<noteq> Panic" "r = Ok ()" "s2 = s'" "served = c1 # rest" by (auto split: res.splits)
  with Cons(1) [of s1 rest] Cons(3) q r x show ?case by (auto split: res.splits)
qed simp

lemma ref_join_ok:
  "\<forall>x \<in> set ends. snd x = Ok () \<Longrightarrow> length ends \<le> n \<Longrightarrow>
     ref_try_join n ends = (if length ends = n then Some (Ok ()) else None)"
  by (induction n ends rule: ref_try_join.induct) auto

lemma ref_join_err:
  "\<forall>x \<in> set before. snd x = Ok () \<Longrightarrow> length before < n \<Longrightarrow>
     ref_try_join n (before @ (i, Err e) # after) = Some (Err e)"
  by (induction n before rule: ref_try_join.induct) auto

lemma distinct_ends: "distinct (xs :: nat list) \<Longrightarrow> set xs \<subseteq> {..<n} \<Longrightarrow> length xs \<le> n"
  by (metis card_lessThan card_mono distinct_card finite_lessThan)

interpretation ref_join: join_lib ref_try_join
proof
  fix ends :: "(nat \<times> ('e task_error, unit) res) list" and n
  assume "\<forall>x \<in> set ends. snd x = Ok ()" "distinct (map fst ends)" "fst ` set ends \<subseteq> {..<n}"
  then show "ref_try_join n ends = (if length ends = n then Some (Ok ()) else None)"
    using distinct_ends [of "map fst ends" n] by (intro ref_join_ok) simp_all
next
  fix before after :: "(nat \<times> ('e task_error, unit) res) list" and i n e
  assume "\<forall>x \<in> set before. snd x = Ok ()" "distinct (i # map fst before)" "insert i (fst ` set before) \<subseteq> {..<n}"
  then show "ref_try_join n (before @ (i, Err e) # after) = Some (Err e)"
    using distinct_ends [of "i # map fst before" n] by (intro ref_join_err) simp_all
qed

lemma spawned_fst [simp]: "map fst (spawned ends) = map fst ends"
  by (induction ends) (auto simp: spawned_def)

lemma spawned_ids [simp]: "fst ` set (spawned ends) = fst ` set ends"
  by (metis list.set_map spawned_fst)

lemma spawned_ok: "\<forall>x \<in> set ends. snd x = Ok () \<Longrightarrow> \<forall>x \<in> set (spawned ends). snd x = Ok ()"
  by (auto simp: spawned_def)

lemma spawned_append: "spawned (before @ (i, r) # after) = spawned before @ (i, flatten r) # spawned after"
  by (simp add: spawned_def)

context join_lib
begin

text \<open>A task that ends with an error or a panic ends the join, if the tasks that ended before it did so well.\<close>

lemma failed_task_ends:
  assumes "\<forall>x \<in> set before. snd x = Ok ()" and "distinct (i # map fst before)"
    and "insert i (fst ` set before) \<subseteq> {..<n}" and "flatten r = Err e"
  shows "try_join n (spawned (before @ (i, r) # after)) = Some (Err e)"
  unfolding spawned_append assms(4)
  by (rule join_err [OF spawned_ok [OF assms(1)]]) (simp_all only: spawned_fst spawned_ids assms)

text \<open>While all that ended did so well and some tasks run, the join waits.\<close>

lemma running_tasks:
  assumes "\<forall>x \<in> set ends. snd x = Ok ()" and "distinct (map fst ends)" and "fst ` set ends \<subseteq> {..<n}"
    and "length ends < n"
  shows "try_join n (spawned ends) = None"
proof -
  have "length (spawned ends) = length ends" by (simp add: spawned_def)
  with join_ok [OF spawned_ok [OF assms(1)], of n] assms(2-4) show ?thesis
    by (simp only: spawned_fst spawned_ids) simp
qed

end

section \<open>Properties\<close>

text \<open>
  C37. A client that has not authenticated ends the authentication server: when a request announces a
  name of more than 16 bytes, the task that serves the connections panics, and \<open>start\<close> returns an
  error as soon as it does, whatever the other tasks do later.
\<close>

theorem long_name_stops_auth_server:
  assumes "join_lib try_join" and "bincode_lib (se_lib (E 0))"
    and "tcp_in c = Seg (message_bytes m @ rest) # evs" and "m = M_Connect r \<or> m = M_ReConnect r"
    and "ConnectRequest_wf r" and "cr_build r = 12340" and "16 < unat (cr_identifier_length r)"
    and "\<forall>x \<in> set before. snd x = Ok ()" and "distinct (map fst before)" and "fst ` set before \<subseteq> {1, 2}"
  shows "auth_start try_join (before @ (0, fst (authentication (Accepted E c # cs) s)) # after) =
    Some (Err TE_JoinFailed)"
proof -
  have "authentication (Accepted E c # cs) s = (Panic, s, [c\<lparr>tcp_in := seg_push rest evs\<rparr>])"
    using long_name_panics [of E c m rest evs r] assms(2-7) by blast
  moreover have "distinct (0 # map fst before)" "insert 0 (fst ` set before) \<subseteq> {..<3}"
    using assms(9,10) by auto
  ultimately show ?thesis
    using join_lib.failed_task_ends [OF assms(1,8), of 0 3 Panic]
    by (simp add: auth_start_def)
qed

theorem long_name_stops_auth_server_witness:
  "auth_start ref_try_join [(0, fst (authentication [Accepted demo_server (demo_client\<lparr>tcp_in :=
      [Seg (message_bytes (M_Connect (demo_request\<lparr>cr_identifier_length := 17\<rparr>)))]\<rparr>)] demo_start))] =
    Some (Err TE_JoinFailed)"
proof -
  let ?r = "demo_request\<lparr>cr_identifier_length := 17\<rparr>"
  let ?c = "demo_client\<lparr>tcp_in := [Seg (message_bytes (M_Connect ?r))]\<rparr>"
  have "ConnectRequest_wf ?r" using demo_wf(1) by (simp add: ConnectRequest_wf_def)
  then show ?thesis
    using long_name_stops_auth_server [OF ref_join.join_lib_axioms, of demo_server ?c "M_Connect ?r" "[]" "[]" ?r "[]" "[]"
        demo_start "[]"] fixed_digest.bincode_lib_axioms
    by (simp add: demo_server_def demo_request_def)
qed

text \<open>
  C39. An error of accepting a connection ends the service without a word. The connections before it have
  been served and answered as if it had not come, their state is kept, and the task returns \<open>Ok\<close>, so that
  no later connection is served; and \<open>start\<close> does not return on that account, but goes on waiting while
  another of its tasks runs.
\<close>

theorem accept_error_silences_auth_server:
  assumes "join_lib try_join"
    and "authentication cs s = (Ok (), s', served)" and "AcceptError \<notin> set cs"
    and "\<forall>x \<in> set ended. snd x = Ok ()" and "distinct (map fst ended)" and "fst ` set ended \<subseteq> {1, 2}" and "length ended < 2"
  shows "authentication (cs @ AcceptError # later) s = (Ok (), s', served) \<and> length served = length cs \<and>
    auth_start try_join ((0, fst (authentication (cs @ AcceptError # later) s)) # ended) = None"
proof -
  have stop: "authentication (cs @ AcceptError # later) s = (Ok (), s', served) \<and> length served = length cs"
    by (rule authentication_stops [OF assms(2,3)])
  have "distinct (map fst ((0, Ok ()) # ended))" "fst ` set ((0, Ok ()) # ended) \<subseteq> {..<3}"
    using assms(5,6) by auto
  with stop join_lib.running_tasks [OF assms(1), of "(0, Ok ()) # ended" 3] assms(4,7) show ?thesis
    by (simp add: auth_start_def)
qed

theorem accept_error_silences_auth_server_witness:
  "length (snd (snd (authentication [Accepted demo_server (demo_client\<lparr>tcp_in := []\<rparr>), AcceptError,
     Accepted demo_server demo_client] demo_start))) = 1 \<and>
   auth_start ref_try_join [(0, fst (authentication [Accepted demo_server (demo_client\<lparr>tcp_in := []\<rparr>), AcceptError,
     Accepted demo_server demo_client] demo_start)), (2, Ok ())] = None"
proof -
  let ?c = "demo_client\<lparr>tcp_in := []\<rparr>"
  have one: "authentication [Accepted demo_server ?c] demo_start = (Ok (), demo_start, [?c])"
    using connect_loop_closed [of RS_Start ?c demo_server 0 demo_start] by simp
  have "authentication ([Accepted demo_server ?c] @ AcceptError # [Accepted demo_server demo_client]) demo_start =
      (Ok (), demo_start, [?c]) \<and> length [?c] = length [Accepted demo_server ?c] \<and>
    auth_start ref_try_join ((0, fst (authentication ([Accepted demo_server ?c] @ AcceptError #
      [Accepted demo_server demo_client]) demo_start)) # [(2, Ok ())]) = None"
    by (rule accept_error_silences_auth_server [OF ref_join.join_lib_axioms one]) simp_all
  then show ?thesis by (auto simp del: authentication.simps)
qed

text \<open>
  C38. A client that has not authenticated ends the world server: when the first read of a connection
  ends inside a packet, the task that accepts clients panics, and \<open>start\<close> returns an error, which
  ends the process with everybody's sessions.
\<close>

theorem truncated_frame_stops_world_server:
  assumes "join_lib try_join" and "W = sv_world (we_send (co_env c 0 0))" and "bincode_lib (wl_lib W)"
    and "length body + 4 < 2 ^ 16" and "0 < k" and "k < 6 + length body" and "k \<le> 2048"
    and "co_in c = [Seg (take k (frame_header (code, body) @ body))]" and "wr_plan (co_writer c) = []"
    and "\<forall>x \<in> set before. snd x = Ok ()" and "distinct (map fst before)" and "fst ` set before \<subseteq> {0, 2, 3, 4}"
  shows "world_start try_join (before @ (1, fst (accept_clients (c # cs) v)) # after) = Some (Err TE_JoinFailed)"
proof -
  obtain h evs where "read_packets W None (co_in c) = (Panic, h, evs)"
    using truncated_frame_panics [OF assms(3-7)] assms(8) by (metis prod.collapse)
  then have "fst (accept_clients (c # cs) v) = Panic"
    using assms(2,9) auth_challenge_eq [OF assms(3)]
    by (simp add: accept_one_def world_connect_loop_def authenticate_client_def)
  moreover have "distinct (1 # map fst before)" "insert 1 (fst ` set before) \<subseteq> {..<5}"
    using assms(11,12) by auto
  ultimately show ?thesis
    using join_lib.failed_task_ends [OF assms(1,10), of 1 5 Panic] by (simp add: world_start_def)
qed

theorem truncated_frame_stops_world_server_witness:
  "world_start ref_try_join [(1, fst (accept_clients
     [(demo_connection demo_db)\<lparr>co_in := [Seg (take 3 (frame_header (CmsgAuthSession, []) @ []))]\<rparr>]
     (WorldServer_new 1 [1, 2, 3, 4] 0 demo_chars)))] = Some (Err TE_JoinFailed)"
  using truncated_frame_stops_world_server [OF ref_join.join_lib_axioms refl, of "(demo_connection demo_db)\<lparr>co_in :=
      [Seg (take 3 (frame_header (CmsgAuthSession, []) @ []))]\<rparr>" "[]" 3 CmsgAuthSession "[]" "[]"
      "WorldServer_new 1 [1, 2, 3, 4] 0 demo_chars" "[]"] demo_login_libs
  by (simp add: demo_connection_def)

end
