(* ===== verification/Packet_Tests.thy ===== *)
theory Packet_Tests
  imports Auth_Packets
begin

text \<open>
  The unit tests of the authentication packets (services/auth/src/protocol/packets.rs, module
  \<open>test\<close>) run on the model, for every bincode and big-number library that meets its contract: the values,
  and the bytes the tests expect, are those of the source.\<close>

section \<open>Inputs and expected bytes\<close>

definition test_realm :: "u8 \<Rightarrow> RealmEntry" where
  "test_realm realm_id =
     \<lparr>re_realm_type = 0x01, re_locked = False, re_flags = 0, re_name = ascii ''Blackrock'',
      re_socket = ascii ''51.178.64.97:8095'', re_population = 0, re_character_count = 0,
      re_timezone = 8, re_realm_id = realm_id\<rparr>"

definition test_realm_data :: bytes where
  "test_realm_data =
     [0x01, 0x00, 0x00, 0x42, 0x6c, 0x61, 0x63, 0x6b, 0x72, 0x6f, 0x63, 0x6b, 0x00, 0x35,
      0x31, 0x2e, 0x31, 0x37, 0x38, 0x2e, 0x36, 0x34, 0x2e, 0x39, 0x37, 0x3a, 0x38, 0x30,
      0x39, 0x35, 0x00, 0x00, 0x00, 0x00, 0x00, 0x00, 0x08, 0x2]"

definition test_proof_response :: ConnectProofResponse where
  "test_proof_response =
     \<lparr>pr_error = 0,
      pr_server_proof = [177, 50, 224, 237, 37, 4, 196, 159, 100, 31, 30, 14, 198, 45, 137, 158, 228,
        82, 244, 140],
      pr_account_flags = 0x00800000, pr_survey_id = 0x0, pr_login_flags = 0x0\<rparr>"

definition test_proof_data :: bytes where
  "test_proof_data =
     [1, 0, 177, 50, 224, 237, 37, 4, 196, 159, 100, 31, 30, 14, 198, 45, 137, 158, 228, 82,
      244, 140, 0, 0, 128, 0, 0, 0, 0, 0, 0, 0]"

definition test_challenge_salt :: salt where
  "test_challenge_salt =
     [129, 99, 242, 106, 75, 46, 13, 205, 184, 188, 97, 36, 45, 78, 143, 43, 77, 167, 10,
      162, 184, 241, 203, 198, 21, 245, 94, 80, 58, 48, 151, 20]"

definition test_challenge :: "lib \<Rightarrow> WowSRPServer \<Rightarrow> ConnectChallenge" where
  "test_challenge L server =
     \<lparr>cc_b_pub = [192, 43, 132, 161, 6, 98, 166, 88, 39, 75, 73, 80, 84, 249, 113, 192, 25, 201, 13,
        134, 177, 68, 175, 141, 209, 131, 57, 143, 83, 18, 127, 53],
      cc_g = get_g L server, cc_n = get_n L server, cc_s = test_challenge_salt,
      cc_security_flags = 0\<rparr>"

definition test_challenge_data :: bytes where
  "test_challenge_data =
     [192, 43, 132, 161, 6, 98, 166, 88, 39, 75, 73, 80, 84, 249, 113, 192, 25, 201, 13, 134,
      177, 68, 175, 141, 209, 131, 57, 143, 83, 18, 127, 53, 1, 7, 32, 183, 155, 62, 42, 135,
      130, 60, 171, 143, 94, 191, 191, 142, 177, 1, 8, 83, 80, 6, 41, 139, 91, 173, 189, 91,
      83, 225, 137, 94, 100, 75, 137, 129, 99, 242, 106, 75, 46, 13, 205, 184, 188, 97, 36,
      45, 78, 143, 43, 77, 167, 10, 162, 184, 241, 203, 198, 21, 245, 94, 80, 58, 48, 151,
      20, 186, 163, 30, 153, 160, 11, 33, 87, 252, 55, 63, 179, 105, 205, 210, 241, 0]"

section \<open>The tests\<close>

definition realm_response_size :: "lib \<Rightarrow> bool" where
  "realm_response_size L = (ser_wow L (RealmEntry_sval (test_realm 2)) = Some test_realm_data)"

definition realmlist_response_size :: "lib \<Rightarrow> bool \<Rightarrow> RealmEntry list \<Rightarrow> bytes \<Rightarrow> bool" where
  "realmlist_response_size L chk realms data =
     (case from_realms L chk realms of
        Ok realmlist \<Rightarrow> ser_wow L (RealmListResponse_sval realmlist) = Some data
      | _ \<Rightarrow> False)"

definition connect_challenge_unknown_account_format :: "lib \<Rightarrow> bool" where
  "connect_challenge_unknown_account_format L = (ser_wow L (reply_unit Connect RC_UnknownAccount) = Some [0x0, 0x0, 0x4])"

definition reply_packet_format :: "lib \<Rightarrow> bool" where
  "reply_packet_format L = (ser_wow L (reply_unit Connect RC_Success) = Some [0x0, 0x0, 0x0])"

definition ip_ban_format :: "lib \<Rightarrow> bool" where
  "ip_ban_format L = (ser_wow L (reply_unit Connect RC_Banned) = Some [0x0, 0x0, 0x3])"

definition encode_auth_command :: "lib \<Rightarrow> bool" where
  "encode_auth_command L = (ser_wow L (SU8 (AuthCommand_u8 Proof)) = Some [0x01])"

definition connect_challenge_format :: "lib \<Rightarrow> WowSRPServer \<Rightarrow> bool" where
  "connect_challenge_format L server =
     (take 32 (drop 67 test_challenge_data) = test_challenge_salt
      \<and> ser_options L (ConnectChallenge_sval (test_challenge L server)) = Some test_challenge_data)"

definition proof_confirm_format :: "lib \<Rightarrow> bool" where
  "proof_confirm_format L =
     (ser_wow L (STup [SU8 (AuthCommand_u8 Proof), ConnectProofResponse_sval test_proof_response])
        = Some test_proof_data)"

lemmas test_data = test_realm_def test_realm_data_def test_proof_response_def test_proof_data_def
  test_challenge_salt_def test_challenge_def test_challenge_data_def

lemmas packet_svals = RealmEntry_sval_def RealmListResponse_sval_def reply_unit_def
  ConnectProofResponse_sval_def ConnectChallenge_sval_def

context bincode_lib
begin

lemma test_realm_size: "size_wow L (RealmEntry_sval (test_realm n)) = Some 38"
  by (subst size_wow) (simp_all add: packet_svals test_data ascii_def u32_le_def)

lemma realm_response_passes: "realm_response_size L"
  unfolding realm_response_size_def
  by (subst ser_wow) (simp_all add: packet_svals test_data ascii_def u32_le_def le_bytes_short)

lemma realmlist_response_passes:
  "realmlist_response_size L chk [] [0x8, 0x0, 0x0, 0x0, 0x0, 0x0, 0x0, 0x0]"
  "realmlist_response_size L chk [test_realm 3] [46, 0x0, 0x0, 0x0, 0x0, 0x0, 0x1, 0x0]"
  by (simp_all add: realmlist_response_size_def from_realms_def test_realm_size add_checked_def
      RealmListResponse_sval_def ser_wow u16_le_def le_bytes_short)

lemma reply_passes:
  "connect_challenge_unknown_account_format L" "reply_packet_format L" "ip_ban_format L" "encode_auth_command L"
  by (simp_all add: connect_challenge_unknown_account_format_def reply_packet_format_def ip_ban_format_def
      encode_auth_command_def packet_svals ser_wow)

lemma proof_confirm_passes: "proof_confirm_format L"
  unfolding proof_confirm_format_def
  by (subst ser_wow) (simp_all add: packet_svals test_data u16_le_def u32_le_def le_bytes_short)

end

context libs
begin

lemma connect_challenge_passes: "connect_challenge_format L server"
  unfolding connect_challenge_format_def
  by (subst ser_options)
    (simp_all add: packet_svals test_data get_g_def get_n_def get_g_bytes get_n_bytes
      N_bytes_be_def VERSION_CHALLENGE_def varint_nat_def)

end

text \<open>
  The unit tests of the authentication packets pass on the model: the realm entry, the head of the
  realm list (without realms and with one), the replies for an unknown account, success and a ban, the
  command byte, the challenge (for every server, whatever its keys) and the answer to a proof are the
  bytes that the tests expect.
\<close>

lemma packet_tests_pass:
  assumes "libs L"
  shows "realm_response_size L
    \<and> realmlist_response_size L chk [] [0x8, 0x0, 0x0, 0x0, 0x0, 0x0, 0x0, 0x0]
    \<and> realmlist_response_size L chk [test_realm 3] [46, 0x0, 0x0, 0x0, 0x0, 0x0, 0x1, 0x0]
    \<and> connect_challenge_unknown_account_format L \<and> reply_packet_format L \<and> ip_ban_format L
    \<and> encode_auth_command L \<and> connect_challenge_format L server \<and> proof_confirm_format L"
  using bincode_lib.realm_response_passes bincode_lib.realmlist_response_passes
    bincode_lib.reply_passes bincode_lib.proof_confirm_passes libs.connect_challenge_passes assms
  by (blast dest: libs.axioms)

lemma packet_tests_pass_witness:
  "realm_response_size ref_lib
    \<and> realmlist_response_size ref_lib True [] [0x8, 0x0, 0x0, 0x0, 0x0, 0x0, 0x0, 0x0]
    \<and> realmlist_response_size ref_lib True [test_realm 3] [46, 0x0, 0x0, 0x0, 0x0, 0x0, 0x1, 0x0]
    \<and> connect_challenge_format ref_lib fixed_digest_server"
  using packet_tests_pass [OF ref_libs.libs_axioms, of True fixed_digest_server] by blast

end
