(* ===== verification/Sha1_Eval.thy ===== *)
theory Sha1_Eval
  imports Wow_Srp
begin

text \<open>
  Evaluation of the reference SHA-1 by rewriting: the words of the compression
  function are kept reduced modulo \<open>2 ^ 32\<close>, rotations are done on natural numbers, and a message is
  digested block by block. Theory \<open>Srp_Tests\<close> uses it to run a unit test of the crate
  \<open>wow-srp\<close> on the model.
\<close>

unbundle bit_operations_syntax

section \<open>Words\<close>

definition norm32 :: "u32 \<Rightarrow> u32" where
  "norm32 w = w"

lemma norm32_numeral: "norm32 (numeral n) = of_nat (numeral n mod 4294967296)"
proof -
  have "(of_nat (k mod 4294967296) :: u32) = of_nat k" for k :: nat
    by (simp add: word_unat_eq_iff unat_of_nat take_bit_eq_mod)
  from this [of "numeral n"] show ?thesis by (simp only: norm32_def of_nat_numeral)
qed

lemma norm32_small: "norm32 0 = 0" "norm32 1 = 1"
  by (simp_all add: norm32_def)

lemma rotl32_nat:
  assumes "n < 32"
  shows "rotl32 n w = of_nat (unat w mod 2 ^ (32 - n) * 2 ^ n + unat w div 2 ^ (32 - n))"
proof -
  have "push_bit n w AND drop_bit (32 - n) w = 0"
    using assms by (intro bit_word_eqI) (auto simp: bit_simps dest: bit_imp_le_length)
  then have "rotl32 n w = push_bit n w + drop_bit (32 - n) w"
    by (simp add: rotl32_def disjunctive_add_eq_or)
  also have "drop_bit (32 - n) w = of_nat (unat w div 2 ^ (32 - n))"
    by (rule bit_word_eqI) (auto simp: bit_simps simp flip: drop_bit_eq_div)
  also have "push_bit n w = of_nat (unat w mod 2 ^ (32 - n) * 2 ^ n)"
    using assms
    by (intro bit_word_eqI) (auto simp: bit_simps simp flip: push_bit_eq_mult take_bit_eq_mod)
  finally show ?thesis by simp
qed

lemma rotl32_of_nat:
  assumes "n < 32"
  shows "rotl32 n (of_nat k) = of_nat (k mod 2 ^ (32 - n) * 2 ^ n + k div 2 ^ (32 - n) mod 2 ^ n)"
proof -
  have split: "(2 :: nat) ^ 32 = 2 ^ (32 - n) * 2 ^ n" using assms by (simp flip: power_add)
  have "k mod 2 ^ 32 mod 2 ^ (32 - n) = k mod 2 ^ (32 - n)" unfolding split by (simp add: mod_mult2_eq)
  moreover have "k mod 2 ^ 32 div 2 ^ (32 - n) = k div 2 ^ (32 - n) mod 2 ^ n" unfolding split by (simp add: mod_mult2_eq)
  moreover have "unat (of_nat k :: u32) = k mod 2 ^ 32" by (simp add: unat_of_nat take_bit_eq_mod)
  ultimately show ?thesis by (simp only: rotl32_nat [OF assms])
qed

lemma rotl32_eval:
  "rotl32 (Suc 0) (numeral n) = of_nat (numeral n mod 2147483648 * 2 + numeral n div 2147483648 mod 2)"
  "rotl32 5 (numeral n) = of_nat (numeral n mod 134217728 * 32 + numeral n div 134217728 mod 32)"
  "rotl32 30 (numeral n) = of_nat (numeral n mod 4 * 1073741824 + numeral n div 4 mod 1073741824)"
  "rotl32 (Suc 0) 0 = 0" "rotl32 5 0 = 0" "rotl32 30 0 = 0"
  "rotl32 (Suc 0) 1 = 2" "rotl32 5 1 = 32" "rotl32 30 1 = 1073741824"
  using rotl32_of_nat [of "Suc 0" "numeral n"] rotl32_of_nat [of 5 "numeral n"] rotl32_of_nat [of 30 "numeral n"]
  by (simp_all del: of_nat_add of_nat_mult) (simp_all add: rotl32_def)

section \<open>One block\<close>

definition sha1_block :: "u32 list \<Rightarrow> sha1_state \<Rightarrow> sha1_state" where
  "sha1_block ws s = sha1_add s (sha1_rounds 0 (rev (sha1_schedule 64 (rev ws))) s)"

lemma sha1_fk_eval:
  "sha1_fk t b c d =
     (if t < 20 then (d XOR (b AND (c XOR d))) + 0x5A827999
      else if t < 40 then (b XOR c XOR d) + 0x6ED9EBA1
      else if t < 60 then ((b AND c) OR (d AND (b OR c))) + 0x8F1BBCDC
      else (b XOR c XOR d) + 0xCA62C1D6)"
proof -
  have "(b AND c) OR (NOT b AND d) = d XOR (b AND (c XOR d))"
    by (rule bit_word_eqI) (auto simp: bit_simps)
  moreover have "(b AND c) OR (b AND d) OR (c AND d) = (b AND c) OR (d AND (b OR c))"
    by (rule bit_word_eqI) (auto simp: bit_simps)
  ultimately show ?thesis by (simp add: sha1_fk_def)
qed

lemma sha1_schedule_eval:
  "sha1_schedule (numeral v) ws =
     sha1_schedule (pred_numeral v) (norm32 (rotl32 1 (norm32 (ws ! 2 XOR ws ! 7 XOR ws ! 13 XOR ws ! 15))) # ws)"
  unfolding norm32_def by (subst numeral_eq_Suc, rule sha1_schedule.simps)

lemma sha1_rounds_eval:
  "sha1_rounds t (w # ws) (a, b, c, d, e) =
     sha1_rounds (Suc t) ws (norm32 (rotl32 5 a + sha1_fk t b c d + e + w), a, norm32 (rotl32 30 b), c, d)"
  by (simp add: norm32_def)

lemma sha1_add_eval:
  "sha1_add (a, b, c, d, e) (a', b', c', d', e') =
     (norm32 (a + a'), norm32 (b + b'), norm32 (c + c'), norm32 (d + d'), norm32 (e + e'))"
  by (simp add: norm32_def)

lemmas sha1_block_eval = sha1_block_def sha1_schedule_eval sha1_rounds_eval sha1_add_eval
  norm32_numeral norm32_small rotl32_eval sha1_fk_eval

declare sha1_rounds.simps(2) [simp del] sha1_add.simps [simp del]

section \<open>Messages\<close>

lemma le_bytes_eval: "le_bytes (numeral v) n = of_nat (n mod 256) # le_bytes (pred_numeral v) (n div 256)"
  by (subst numeral_eq_Suc, rule le_bytes.simps)

lemma replicate_eval: "replicate (numeral v) x = x # replicate (pred_numeral v) x"
  by (subst numeral_eq_Suc, rule replicate.simps)

lemma sha1_blocks_eval:
  "sha1_blocks (Suc n) bs s = sha1_blocks n (drop 64 bs) (sha1_block (be_words (take 64 bs)) s)"
  "sha1_blocks (numeral v) bs s = sha1_blocks (pred_numeral v) (drop 64 bs) (sha1_block (be_words (take 64 bs)) s)"
  by (simp add: sha1_block_def) (subst numeral_eq_Suc, simp add: sha1_block_def)

declare sha1_blocks.simps(2) [simp del]

lemmas sha1_eval = sha1_ref_def sha1_pad_def Let_def le_bytes_eval replicate_eval sha1_blocks_eval u32_le_def

end
