(* ===== verification/Srp_Tests.thy ===== *)
theory Srp_Tests
  imports Sha1_Eval
begin

text \<open>
  The unit test \<open>test_session_key_derivation\<close> of the crate \<open>wow-srp\<close> (wow-srp/src/lib.rs), run on the
  model with the reference SHA-1: the input and the expected key are those of the source, and the
  digests are computed by rewriting, one block at a time. The other tests of the crate compute
  modular powers of 256-bit numbers, which is out of reach of rewriting.
\<close>

section \<open>Inputs and expected values\<close>

definition test_premaster_secret :: bytes where
  "test_premaster_secret =
     [19, 10, 81, 2, 224, 175, 69, 69, 84, 172, 123, 122, 83, 70, 70, 11, 104, 26, 227, 161, 13, 124, 152,
      156, 116, 130, 69, 161, 134, 49, 47, 87]"

definition test_k_expected :: bytes where
  "test_k_expected =
     [250, 249, 162, 120, 246, 212, 243, 32, 54, 127, 15, 13, 84, 137, 96, 197, 162, 197, 95, 221, 107,
      218, 252, 23, 37, 95, 250, 83, 182, 53, 105, 254, 23, 14, 207, 191, 85, 207, 209, 111]"

definition test_session_key_derivation :: "lib \<Rightarrow> bool" where
  "test_session_key_derivation L \<longleftrightarrow> (derive_session_key L test_premaster_secret :: (unit, bytes) res) = Ok test_k_expected"

section \<open>Digests\<close>

lemma digest_left_block0:
  "sha1_block [324132933, 1417368390, 1759710616, 1950713391, 2147483648, 0, 0, 0, 0, 0, 0, 0, 0, 0, 0, 128]
     (1732584193, 4023233417, 2562383102, 271733878, 3285377520) =
     (4204984051, 906974304, 2724162556, 637187689, 399463889)"
  by (simp add: sha1_block_eval)

lemma digest_left:
  "sha1_ref [19, 81, 224, 69, 84, 123, 83, 70, 104, 227, 13, 152, 116, 69, 134, 47] =
     [250, 162, 246, 243, 54, 15, 84, 96, 162, 95, 107, 252, 37, 250, 182, 105, 23, 207, 85, 209]"
  by (simp add: sha1_eval digest_left_block0)

lemma digest_right_block0:
  "sha1_block [167948101, 2893694475, 446790812, 2191602007, 2147483648, 0, 0, 0, 0, 0, 0, 0, 0, 0, 0, 128]
     (1732584193, 4023233417, 2562383102, 271733878, 3285377520) =
     (4185445408, 2131593669, 3319650839, 1599288830, 247451503)"
  by (simp add: sha1_block_eval)

lemma digest_right:
  "sha1_ref [10, 2, 175, 69, 172, 122, 70, 11, 26, 161, 124, 156, 130, 161, 49, 87] =
     [249, 120, 212, 32, 127, 13, 137, 197, 197, 221, 218, 23, 95, 83, 53, 254, 14, 191, 207, 111]"
  by (simp add: sha1_eval digest_right_block0)

section \<open>The test\<close>

text \<open>
  The unit test \<open>test_session_key_derivation\<close> passes on the model: from the shared secret of the
  test, \<open>derive_session_key\<close> with the reference SHA-1 gives the forty bytes that the test expects.
\<close>

lemma session_key_test_vector:
  "test_session_key_derivation ref_lib"
  unfolding test_session_key_derivation_def test_premaster_secret_def test_k_expected_def
  by (simp add: derive_session_key_def interleave_start_def ref_lib_def slice_from_def upt_conv_Cons digest_left digest_right)

end
