(* ===== verification/Spec2Isabelle.thy ===== *)
theory Spec2Isabelle
  imports Graphql_Api Auth_Reconnect Account_Machine World_Order World_Timers Character_List Journey Service_Main
    Packet_Tests Srp_Tests
begin

text \<open>
  A verification development for azerust, a server for World of Warcraft 3.3.5 written in Rust.

  \<^bold>\<open>The program.\<close> Two servers share a database of accounts and realms. The authentication server
  (services/auth) speaks the login protocol: a client proves with SRP6 (crates/wow-srp) that it
  knows its password, the session key goes into the database through the account service
  (crates/mysql-auth), and the client gets the list of realms. The world server (services/world)
  accepts the client: it checks a digest over the stored session key, opens a session whose packet
  headers are encrypted with ciphers of that key (crates/protocol), and handles the packets of its
  sessions, creating and deleting characters (crates/mysql-characters). It reports itself with
  heartbeat datagrams, from which the authentication server computes the flags of the realms. An
  optional GraphQL interface (crates/graphql) registers and bans accounts.

  \<^bold>\<open>How the model reads.\<close> Functions keep the names of the source where they can. Machine integers
  are words of their width and wrap; strings and buffers are lists of bytes; \<open>Result\<close> and panics
  are the type \<open>res\<close> (\<open>Ok\<close>, \<open>Err\<close>, \<open>Panic\<close>), so that every \<open>?\<close>, early return, failing
  slice, \<open>expect\<close> and \<open>todo!()\<close> is a branch. Stateful code passes its state and returns it
  changed. A socket is the list of what will arrive and what writes will be taken, so that every
  way a stream can be cut is covered. Random bytes and clocks are arguments. A build with overflow
  checks and one without are both covered where an addition or a product may overflow.
  What is not in the repository is a parameter: SHA-1, big integers and the bincode
  configurations (record \<open>lib\<close>, locales \<open>sha1_lib\<close>, \<open>bignum_lib\<close>, \<open>bincode_lib\<close>), RC4
  and HMAC (record \<open>crypto\<close>, locale \<open>stream_cipher\<close>), zlib, the database's faults, collation,
  clock and the order in which it gives the rows of a query without one (the ban row that
  \<open>get_by_username\<close> reads, the list of characters; records \<open>db_env\<close>, \<open>char_env\<close>), chrono's range checks, \<open>try_join!\<close> (locale \<open>join_lib\<close>) and
  YAML (locale \<open>yaml_lib\<close>). Each such locale is interpreted on
  a reference implementation that computes, so that the assumptions are satisfiable together and
  the witnesses run.

  \<^bold>\<open>Theories.\<close>
  \<^item> \<open>Az_Prelude\<close>: results, slices, bytes of words, the collection \<open>res_simps\<close>.
    \<open>Rust_Str\<close>: UTF-8 and ASCII case. \<open>Serde\<close>: the serde data model and the wire formats, with
    the decoder and its inverse. \<open>Az_Lib\<close>: library parameters and their reference implementations.
    \<open>Net\<close>: sockets.
  \<^item> \<open>Wow_Srp\<close> (crates/wow-srp/src/lib.rs): the SRP6 server. An honest client is accepted with its
    own key; what \<open>verify_challenge_response\<close> decides on every branch; the session key is the
    interleave of RFC 2945; sizes and residues. \<open>Sha1_Eval\<close> and \<open>Srp_Tests\<close> run the crate's test of
    the key derivation on the model, with a SHA-1 evaluated by rewriting.
  \<^item> \<open>Game_Types\<close>, \<open>Auth_Proto\<close>, \<open>Account_Service\<close> (crates/game, crates/protocol/src/auth.rs):
    the data types, tokens, codes and the service traits as records of operations with the locales
    \<open>account_service\<close> and \<open>realm_list\<close>.
  \<^item> \<open>Mysql_Auth\<close>, \<open>Auth_Demo\<close>, \<open>Login_Props\<close> (crates/mysql-auth/src/accounts.rs): the account
    service on its tables. Registration then login; bans; the session row; the sizes of the stored
    values. \<open>Mysql_Realms\<close> (realms.rs): the realm cache, status updates, uptime.
    \<open>Graphql_Api\<close> (crates/graphql): the resolvers on the account service.
  \<^item> \<open>Auth_Packets\<close> (services/auth/src/protocol): the messages, their reader and the replies, with
    the locale \<open>wire_message\<close> interpreted for each message. Round trip, outcomes of the reader. \<open>Packet_Tests\<close> runs
    the unit tests of the packets.
  \<^item> \<open>Auth_Server\<close>, \<open>Auth_Session\<close>, \<open>Auth_Heartbeat\<close>, \<open>Auth_Reconnect\<close>
    (services/auth/src/authserver.rs): every handler, the connection loop and the accept loop; the
    session as an inductive step relation with its invariant, and the refinement of the loop to it; a
    whole login, and the reconnect that its key allows, byte for byte; the heartbeat tasks as
    interleaved steps.
  \<^item> \<open>Account_Machine\<close>: the abstract specification of a process of the authentication server, an
    inductive relation on the tables of accounts and bans. The locale \<open>kept\<close> lifts what the operations
    of the services keep to the loops of the server; it is interpreted on the process, with the requests to
    the interface and the status updates that other tasks serve between the messages
    (\<open>other_task\<close>, \<open>beside\<close>). Every run refines the machine; no run loses an account, changes
    its credentials or lifts a ban.
  \<^item> \<open>Header_Crypto\<close>, \<open>World_Proto\<close> (crates/protocol): header encryption and the packets of the
    world. \<open>Mysql_Characters\<close>: the character service, with the locale \<open>character_service\<close> (a
    refinement of a list of characters) interpreted on the database.
  \<^item> \<open>World_Packets\<close>, \<open>World_Session\<close>, \<open>World\<close>, \<open>World_Server\<close> (services/world/src): the
    reader of client frames, the session and what it sends, the packet handlers and the queue, and
    the server with its authentication, connection and accept loops and its heartbeat. Round trips
    through the ciphers in both directions; creation and deletion of characters; who may have a
    session (locale \<open>account_lookup\<close>); and the compositions with the authentication server: the key
    a login stores opens the world, and a heartbeat keeps the realm listed.
  \<^item> \<open>Character_Machine\<close>: the abstract specification of the world server as an inductive relation on
    lists of characters, the locale \<open>keyed_character_service\<close>, the refinement of every run of the
    server to it, and the invariant of the characters by induction over its steps; the life of one
    character through its packets. \<open>World_Order\<close>: every schedule of the reading and the handling task
    has the effect of handling the packets of the stream one by one, each in the environment of its
    moment; connections end.
    \<open>World_Timers\<close>: the uptime that the timers store. \<open>Character_List\<close>: the list of characters as
    the client reads it from the wire, and the size beyond which it cannot.
  \<^item> \<open>Journey\<close>: registration, login and admission to the world composed over both servers, for the account
    whose name the service stores its sessions under.
  \<^item> \<open>Tasks\<close> (crates/utils, \<open>start\<close> of both servers): the join of the tasks, and what a panic or
    an error of one task does to the server. \<open>Service_Main\<close> (main.rs, conf.rs, opt.rs of both
    services): command lines, configuration files and the two programs.

  \<^bold>\<open>Termination.\<close> No fuel is used. The loops over a connection end because the input is finite:
  every turn that goes on consumes some of it (\<open>in_size\<close>), and the peer closing is the end of the
  list. The loops that serve connections or tick for ever are given as one turn, or as the turns of
  a finite list of events.

  \<^bold>\<open>Concurrency.\<close> Tasks that share state are interleaved at the granularity of their locks:
  heartbeats and updater ticks (\<open>hb_event\<close>), in the authentication server the requests and
  status updates before the operation of a message (\<open>process_server\<close>; an operation of the account
  service is one step), and in the world server the packets that the other
  task handles between two reads of a connection (\<open>co_sched\<close>). The clients of the authentication
  server are served by one task and those of the world server one after the other, as in the source.

  \<^bold>\<open>Not modelled.\<close> The parser of command lines and the initialisation of logging; the routing and
  execution of GraphQL queries (libraries; crates/axum); crates/assert-size-attribute, a
  compile-time assertion; crates/mysql-world, a placeholder; the operation codes and handlers that
  the source has commented out; the textual forms of errors and locales. Three unit tests of
  crates/wow-srp compute powers of 256-bit numbers, which rewriting does not reach; the general
  theorems of \<open>Wow_Srp\<close> cover what they test.
\<close>

end
